theory Spec2Isabelle
  imports Main
begin

section \<open>Terminal symbols and the lexer interface\<close>

text \<open>
  The terminal symbols of \<^verbatim>\<open>enum ts_symbol_identifiers\<close> (values 1 to 7) together with
  \<^verbatim>\<open>ts_builtin_sym_end\<close> (value 0), the symbol of the end of the input.
\<close>

datatype symbol =
    ts_builtin_sym_end
  | sym_comment
  | sym_string
  | sym_number
  | sym_keyword
  | sym_operator
  | sym_punctuation
  | sym_identifier

text \<open>
  Modelled from the spec: the \<^verbatim>\<open>TSLexer\<close> structure declared in
  \<^verbatim>\<open>tree_sitter/parser.h\<close>, which is not part of the given source. The spec's cursor is a
  position that only moves forward. The input is a list of code points (the values that
  \<^verbatim>\<open>lexer->lookahead\<close> takes, an \<^verbatim>\<open>int32_t\<close> that is only ever compared with
  constants); \<open>unread\<close> is the part of the input from the cursor on, \<open>position\<close> the offset of
  the cursor, \<open>token_start\<close> the offset after the last skipped character, \<open>token_end\<close> the
  offset recorded by the last \<^verbatim>\<open>mark_end\<close>.
\<close>

record TSLexer =
  unread :: "int list"
  position :: nat
  token_start :: nat
  token_end :: nat
  result_symbol :: symbol

text \<open>
  Modelled from the spec: \<^verbatim>\<open>lexer->lookahead\<close>, \<^verbatim>\<open>lexer->eof\<close>,
  \<^verbatim>\<open>lexer->advance\<close> and \<^verbatim>\<open>lexer->mark_end\<close>, whose implementations are
  not part of the given source. The lookahead is the code point at the cursor and 0 at the end
  of the input; advancing moves the cursor by one input unit and does nothing at the end of the
  input; a skipping advance also moves the start of the token (skipped whitespace is not part
  of any token).
\<close>

definition lookahead_of :: "TSLexer \<Rightarrow> int" where
  "lookahead_of lexer = (case unread lexer of [] \<Rightarrow> 0 | c # _ \<Rightarrow> c)"

definition eof_of :: "TSLexer \<Rightarrow> bool" where
  "eof_of lexer = (unread lexer = [])"

definition advance :: "TSLexer \<Rightarrow> bool \<Rightarrow> TSLexer" where
  "advance lexer skip =
     (case unread lexer of
        [] \<Rightarrow> lexer
      | c # cs \<Rightarrow>
          lexer\<lparr>unread := cs,
                position := position lexer + 1,
                token_start := (if skip then position lexer + 1 else token_start lexer)\<rparr>)"

definition mark_end :: "TSLexer \<Rightarrow> TSLexer" where
  "mark_end lexer = lexer\<lparr>token_end := position lexer\<rparr>"

text \<open>
  Modelled from the spec: the macros \<^verbatim>\<open>ADVANCE\<close>, \<^verbatim>\<open>SKIP\<close>,
  \<^verbatim>\<open>END_STATE\<close>, \<^verbatim>\<open>ADVANCE_MAP\<close> and \<^verbatim>\<open>ACCEPT_TOKEN\<close> of
  \<^verbatim>\<open>tree_sitter/parser.h\<close>, which is not part of the given source. One pass through
  the \<^verbatim>\<open>switch\<close> of \<^verbatim>\<open>ts_lex\<close> first accepts a token or not and then either
  moves to another state, consuming the lookahead (\<open>ADVANCE\<close>), or does the same and drops
  the consumed character from the token (\<open>SKIP\<close>), or returns (\<open>END_STATE\<close>).
  \<open>ADVANCE_MAP\<close> searches a table of pairs of a character and a state for the lookahead and
  takes the first entry found.
\<close>

datatype next_step = ADVANCE nat | SKIP nat | END_STATE

definition ADVANCE_MAP :: "(int \<times> nat) list \<Rightarrow> int \<Rightarrow> nat option" where
  "ADVANCE_MAP table lookahead = map_of table lookahead"

section \<open>The states of \<^verbatim>\<open>ts_lex\<close>\<close>

text \<open>
  One definition for each \<^verbatim>\<open>case\<close> of the \<^verbatim>\<open>switch\<close> in \<^verbatim>\<open>ts_lex\<close>, in
  the order of the source. The first component is the symbol of \<^verbatim>\<open>ACCEPT_TOKEN\<close> when
  the case starts with one, the second is the outcome of the chain of conditionals. Characters
  are written as code points: the digits are 48 to 57, the capital letters 65 to 90, the small
  letters 97 to 122 (a capital letter plus 32), the underscore is 95; tab to carriage
  return are 9 to 13, the newline is 10, the space 32; \<^verbatim>\<open>!\<close> 33, \<^verbatim>\<open>"\<close> 34,
  \<^verbatim>\<open>#\<close> 35, \<^verbatim>\<open>&\<close> 38, \<^verbatim>\<open>'\<close> 39, \<^verbatim>\<open>(\<close> 40, \<^verbatim>\<open>)\<close> 41,
  \<^verbatim>\<open>*\<close> 42, \<^verbatim>\<open>+\<close> 43, \<^verbatim>\<open>,\<close> 44, \<^verbatim>\<open>-\<close> 45, \<^verbatim>\<open>.\<close> 46,
  \<^verbatim>\<open>/\<close> 47, \<^verbatim>\<open>:\<close> 58, \<^verbatim>\<open><\<close> 60, \<^verbatim>\<open>=\<close> 61, \<^verbatim>\<open>>\<close> 62,
  \<^verbatim>\<open>[\<close> 91, \<^verbatim>\<open>]\<close> 93, \<^verbatim>\<open>^\<close> 94, \<^verbatim>\<open>{\<close> 123, \<^verbatim>\<open>}\<close> 125;
  172, 8800, 8804 and 8805 are the code points 0xac, 0x2260, 0x2264 and 0x2265.
\<close>

definition case_0 :: "int \<Rightarrow> bool \<Rightarrow> symbol option \<times> next_step" where
  "case_0 lookahead eof = (None,
     if eof then ADVANCE 6 else
     (case ADVANCE_MAP [(34, 2), (35, 1), (40, 18), (45, 15), (47, 16), (60, 16), (62, 16),
         (65, 32), (97, 32), (66, 126), (98, 126), (67, 19), (99, 19), (68, 51), (100, 51),
         (69, 65), (101, 65), (70, 21), (102, 21), (71, 69), (103, 69), (73, 48), (105, 48),
         (76, 82), (108, 82), (77, 36), (109, 36), (78, 83), (110, 83), (79, 127), (111, 127),
         (80, 99), (112, 99), (82, 38), (114, 38), (83, 29), (115, 29), (84, 40), (116, 40),
         (85, 79), (117, 79), (86, 22), (118, 22), (87, 50), (119, 50)] lookahead of
        Some next_state \<Rightarrow> ADVANCE next_state
      | None \<Rightarrow>
     if (9 \<le> lookahead \<and> lookahead \<le> 13) \<or> lookahead = 32 then SKIP 0 else
     if (39 \<le> lookahead \<and> lookahead \<le> 41) \<or> lookahead = 44
         \<or> lookahead = 58 \<or> lookahead = 91 \<or> lookahead = 93
         \<or> lookahead = 123 \<or> lookahead = 125 then ADVANCE 17 else
     if (38 \<le> lookahead \<and> lookahead \<le> 43) \<or> lookahead = 61
         \<or> lookahead = 94 \<or> lookahead = 172 \<or> lookahead = 8800
         \<or> lookahead = 8804 \<or> lookahead = 8805 then ADVANCE 14 else
     if (48 \<le> lookahead \<and> lookahead \<le> 57) then ADVANCE 10 else
     if (72 \<le> lookahead \<and> lookahead \<le> 90) \<or> lookahead = 95
         \<or> (104 \<le> lookahead \<and> lookahead \<le> 122) then ADVANCE 128 else
     END_STATE))"

definition case_1 :: "int \<Rightarrow> bool \<Rightarrow> symbol option \<times> next_step" where
  "case_1 lookahead eof = (None,
     if lookahead = 33 then ADVANCE 8 else
     END_STATE)"

definition case_2 :: "int \<Rightarrow> bool \<Rightarrow> symbol option \<times> next_step" where
  "case_2 lookahead eof = (None,
     if lookahead = 34 then ADVANCE 9 else
     if lookahead \<noteq> 0 then ADVANCE 2 else
     END_STATE)"

definition case_3 :: "int \<Rightarrow> bool \<Rightarrow> symbol option \<times> next_step" where
  "case_3 lookahead eof = (None,
     if lookahead = 41 then ADVANCE 7 else
     if lookahead = 42 then ADVANCE 3 else
     if lookahead \<noteq> 0 then ADVANCE 4 else
     END_STATE)"

definition case_4 :: "int \<Rightarrow> bool \<Rightarrow> symbol option \<times> next_step" where
  "case_4 lookahead eof = (None,
     if lookahead = 42 then ADVANCE 3 else
     if lookahead \<noteq> 0 then ADVANCE 4 else
     END_STATE)"

definition case_5 :: "int \<Rightarrow> bool \<Rightarrow> symbol option \<times> next_step" where
  "case_5 lookahead eof = (None,
     if (48 \<le> lookahead \<and> lookahead \<le> 57) then ADVANCE 11 else
     END_STATE)"

definition case_6 :: "int \<Rightarrow> bool \<Rightarrow> symbol option \<times> next_step" where
  "case_6 lookahead eof = (Some ts_builtin_sym_end,
     END_STATE)"

definition case_7 :: "int \<Rightarrow> bool \<Rightarrow> symbol option \<times> next_step" where
  "case_7 lookahead eof = (Some sym_comment,
     END_STATE)"

definition case_8 :: "int \<Rightarrow> bool \<Rightarrow> symbol option \<times> next_step" where
  "case_8 lookahead eof = (Some sym_comment,
     if lookahead \<noteq> 0 \<and> lookahead \<noteq> 10 then ADVANCE 8 else
     END_STATE)"

definition case_9 :: "int \<Rightarrow> bool \<Rightarrow> symbol option \<times> next_step" where
  "case_9 lookahead eof = (Some sym_string,
     END_STATE)"

definition case_10 :: "int \<Rightarrow> bool \<Rightarrow> symbol option \<times> next_step" where
  "case_10 lookahead eof = (Some sym_number,
     if lookahead = 46 then ADVANCE 5 else
     if (48 \<le> lookahead \<and> lookahead \<le> 57) then ADVANCE 10 else
     END_STATE)"

definition case_11 :: "int \<Rightarrow> bool \<Rightarrow> symbol option \<times> next_step" where
  "case_11 lookahead eof = (Some sym_number,
     if (48 \<le> lookahead \<and> lookahead \<le> 57) then ADVANCE 11 else
     END_STATE)"

definition case_12 :: "int \<Rightarrow> bool \<Rightarrow> symbol option \<times> next_step" where
  "case_12 lookahead eof = (Some sym_keyword,
     if lookahead = 73 \<or> lookahead = 105 then ADVANCE 78 else
     if (48 \<le> lookahead \<and> lookahead \<le> 57)
         \<or> (65 \<le> lookahead \<and> lookahead \<le> 90) \<or> lookahead = 95
         \<or> (97 \<le> lookahead \<and> lookahead \<le> 122) then ADVANCE 128 else
     END_STATE)"

definition case_13 :: "int \<Rightarrow> bool \<Rightarrow> symbol option \<times> next_step" where
  "case_13 lookahead eof = (Some sym_keyword,
     if (48 \<le> lookahead \<and> lookahead \<le> 57)
         \<or> (65 \<le> lookahead \<and> lookahead \<le> 90) \<or> lookahead = 95
         \<or> (97 \<le> lookahead \<and> lookahead \<le> 122) then ADVANCE 128 else
     END_STATE)"

definition case_14 :: "int \<Rightarrow> bool \<Rightarrow> symbol option \<times> next_step" where
  "case_14 lookahead eof = (Some sym_operator,
     END_STATE)"

definition case_15 :: "int \<Rightarrow> bool \<Rightarrow> symbol option \<times> next_step" where
  "case_15 lookahead eof = (Some sym_operator,
     if lookahead = 45 then ADVANCE 8 else
     END_STATE)"

definition case_16 :: "int \<Rightarrow> bool \<Rightarrow> symbol option \<times> next_step" where
  "case_16 lookahead eof = (Some sym_operator,
     if lookahead = 61 then ADVANCE 14 else
     END_STATE)"

definition case_17 :: "int \<Rightarrow> bool \<Rightarrow> symbol option \<times> next_step" where
  "case_17 lookahead eof = (Some sym_punctuation,
     END_STATE)"

definition case_18 :: "int \<Rightarrow> bool \<Rightarrow> symbol option \<times> next_step" where
  "case_18 lookahead eof = (Some sym_punctuation,
     if lookahead = 42 then ADVANCE 4 else
     END_STATE)"

definition case_19 :: "int \<Rightarrow> bool \<Rightarrow> symbol option \<times> next_step" where
  "case_19 lookahead eof = (Some sym_identifier,
     if lookahead = 65 \<or> lookahead = 97 then ADVANCE 108 else
     if lookahead = 79 \<or> lookahead = 111 then ADVANCE 77 else
     if (48 \<le> lookahead \<and> lookahead \<le> 57)
         \<or> (66 \<le> lookahead \<and> lookahead \<le> 90) \<or> lookahead = 95
         \<or> (98 \<le> lookahead \<and> lookahead \<le> 122) then ADVANCE 128 else
     END_STATE)"

definition case_20 :: "int \<Rightarrow> bool \<Rightarrow> symbol option \<times> next_step" where
  "case_20 lookahead eof = (Some sym_identifier,
     if lookahead = 65 \<or> lookahead = 97 then ADVANCE 114 else
     if (48 \<le> lookahead \<and> lookahead \<le> 57)
         \<or> (66 \<le> lookahead \<and> lookahead \<le> 90) \<or> lookahead = 95
         \<or> (98 \<le> lookahead \<and> lookahead \<le> 122) then ADVANCE 128 else
     END_STATE)"

definition case_21 :: "int \<Rightarrow> bool \<Rightarrow> symbol option \<times> next_step" where
  "case_21 lookahead eof = (Some sym_identifier,
     if lookahead = 65 \<or> lookahead = 97 then ADVANCE 66 else
     if lookahead = 82 \<or> lookahead = 114 then ADVANCE 25 else
     if (48 \<le> lookahead \<and> lookahead \<le> 57)
         \<or> (66 \<le> lookahead \<and> lookahead \<le> 90) \<or> lookahead = 95
         \<or> (98 \<le> lookahead \<and> lookahead \<le> 122) then ADVANCE 128 else
     END_STATE)"

definition case_22 :: "int \<Rightarrow> bool \<Rightarrow> symbol option \<times> next_step" where
  "case_22 lookahead eof = (Some sym_identifier,
     if lookahead = 65 \<or> lookahead = 97 then ADVANCE 71 else
     if lookahead = 69 \<or> lookahead = 101 then ADVANCE 105 else
     if (48 \<le> lookahead \<and> lookahead \<le> 57)
         \<or> (66 \<le> lookahead \<and> lookahead \<le> 90) \<or> lookahead = 95
         \<or> (98 \<le> lookahead \<and> lookahead \<le> 122) then ADVANCE 128 else
     END_STATE)"

definition case_23 :: "int \<Rightarrow> bool \<Rightarrow> symbol option \<times> next_step" where
  "case_23 lookahead eof = (Some sym_identifier,
     if lookahead = 65 \<or> lookahead = 97 then ADVANCE 64 else
     if (48 \<le> lookahead \<and> lookahead \<le> 57)
         \<or> (66 \<le> lookahead \<and> lookahead \<le> 90) \<or> lookahead = 95
         \<or> (98 \<le> lookahead \<and> lookahead \<le> 122) then ADVANCE 128 else
     END_STATE)"

definition case_24 :: "int \<Rightarrow> bool \<Rightarrow> symbol option \<times> next_step" where
  "case_24 lookahead eof = (Some sym_identifier,
     if lookahead = 65 \<or> lookahead = 97 then ADVANCE 57 else
     if (48 \<le> lookahead \<and> lookahead \<le> 57)
         \<or> (66 \<le> lookahead \<and> lookahead \<le> 90) \<or> lookahead = 95
         \<or> (98 \<le> lookahead \<and> lookahead \<le> 122) then ADVANCE 128 else
     END_STATE)"

definition case_25 :: "int \<Rightarrow> bool \<Rightarrow> symbol option \<times> next_step" where
  "case_25 lookahead eof = (Some sym_identifier,
     if lookahead = 65 \<or> lookahead = 97 then ADVANCE 75 else
     if lookahead = 79 \<or> lookahead = 111 then ADVANCE 73 else
     if (48 \<le> lookahead \<and> lookahead \<le> 57)
         \<or> (66 \<le> lookahead \<and> lookahead \<le> 90) \<or> lookahead = 95
         \<or> (98 \<le> lookahead \<and> lookahead \<le> 122) then ADVANCE 128 else
     END_STATE)"

definition case_26 :: "int \<Rightarrow> bool \<Rightarrow> symbol option \<times> next_step" where
  "case_26 lookahead eof = (Some sym_identifier,
     if lookahead = 65 \<or> lookahead = 97 then ADVANCE 117 else
     if (48 \<le> lookahead \<and> lookahead \<le> 57)
         \<or> (66 \<le> lookahead \<and> lookahead \<le> 90) \<or> lookahead = 95
         \<or> (98 \<le> lookahead \<and> lookahead \<le> 122) then ADVANCE 128 else
     END_STATE)"

definition case_27 :: "int \<Rightarrow> bool \<Rightarrow> symbol option \<times> next_step" where
  "case_27 lookahead eof = (Some sym_identifier,
     if lookahead = 66 \<or> lookahead = 98 then ADVANCE 23 else
     if (48 \<le> lookahead \<and> lookahead \<le> 57)
         \<or> (65 \<le> lookahead \<and> lookahead \<le> 90) \<or> lookahead = 95
         \<or> (97 \<le> lookahead \<and> lookahead \<le> 122) then ADVANCE 128 else
     END_STATE)"

definition case_28 :: "int \<Rightarrow> bool \<Rightarrow> symbol option \<times> next_step" where
  "case_28 lookahead eof = (Some sym_identifier,
     if lookahead = 67 \<or> lookahead = 99 then ADVANCE 23 else
     if (48 \<le> lookahead \<and> lookahead \<le> 57)
         \<or> (65 \<le> lookahead \<and> lookahead \<le> 90) \<or> lookahead = 95
         \<or> (97 \<le> lookahead \<and> lookahead \<le> 122) then ADVANCE 128 else
     END_STATE)"

definition case_29 :: "int \<Rightarrow> bool \<Rightarrow> symbol option \<times> next_step" where
  "case_29 lookahead eof = (Some sym_identifier,
     if lookahead = 67 \<or> lookahead = 99 then ADVANCE 100 else
     if lookahead = 69 \<or> lookahead = 101 then ADVANCE 114 else
     if (48 \<le> lookahead \<and> lookahead \<le> 57)
         \<or> (65 \<le> lookahead \<and> lookahead \<le> 90) \<or> lookahead = 95
         \<or> (97 \<le> lookahead \<and> lookahead \<le> 122) then ADVANCE 128 else
     END_STATE)"

definition case_30 :: "int \<Rightarrow> bool \<Rightarrow> symbol option \<times> next_step" where
  "case_30 lookahead eof = (Some sym_identifier,
     if lookahead = 67 \<or> lookahead = 99 then ADVANCE 26 else
     if (48 \<le> lookahead \<and> lookahead \<le> 57)
         \<or> (65 \<le> lookahead \<and> lookahead \<le> 90) \<or> lookahead = 95
         \<or> (97 \<le> lookahead \<and> lookahead \<le> 122) then ADVANCE 128 else
     END_STATE)"

definition case_31 :: "int \<Rightarrow> bool \<Rightarrow> symbol option \<times> next_step" where
  "case_31 lookahead eof = (Some sym_identifier,
     if lookahead = 67 \<or> lookahead = 99 then ADVANCE 104 else
     if (48 \<le> lookahead \<and> lookahead \<le> 57)
         \<or> (65 \<le> lookahead \<and> lookahead \<le> 90) \<or> lookahead = 95
         \<or> (97 \<le> lookahead \<and> lookahead \<le> 122) then ADVANCE 128 else
     END_STATE)"

definition case_32 :: "int \<Rightarrow> bool \<Rightarrow> symbol option \<times> next_step" where
  "case_32 lookahead eof = (Some sym_identifier,
     if lookahead = 68 \<or> lookahead = 100 then ADVANCE 34 else
     if lookahead = 78 \<or> lookahead = 110 then ADVANCE 33 else
     if lookahead = 80 \<or> lookahead = 112 then ADVANCE 94 else
     if (48 \<le> lookahead \<and> lookahead \<le> 57)
         \<or> (65 \<le> lookahead \<and> lookahead \<le> 90) \<or> lookahead = 95
         \<or> (97 \<le> lookahead \<and> lookahead \<le> 122) then ADVANCE 128 else
     END_STATE)"

definition case_33 :: "int \<Rightarrow> bool \<Rightarrow> symbol option \<times> next_step" where
  "case_33 lookahead eof = (Some sym_identifier,
     if lookahead = 68 \<or> lookahead = 100 then ADVANCE 13 else
     if (48 \<le> lookahead \<and> lookahead \<le> 57)
         \<or> (65 \<le> lookahead \<and> lookahead \<le> 90) \<or> lookahead = 95
         \<or> (97 \<le> lookahead \<and> lookahead \<le> 122) then ADVANCE 128 else
     END_STATE)"

definition case_34 :: "int \<Rightarrow> bool \<Rightarrow> symbol option \<times> next_step" where
  "case_34 lookahead eof = (Some sym_identifier,
     if lookahead = 68 \<or> lookahead = 100 then ADVANCE 62 else
     if (48 \<le> lookahead \<and> lookahead \<le> 57)
         \<or> (65 \<le> lookahead \<and> lookahead \<le> 90) \<or> lookahead = 95
         \<or> (97 \<le> lookahead \<and> lookahead \<le> 122) then ADVANCE 128 else
     END_STATE)"

definition case_35 :: "int \<Rightarrow> bool \<Rightarrow> symbol option \<times> next_step" where
  "case_35 lookahead eof = (Some sym_identifier,
     if lookahead = 68 \<or> lookahead = 100 then ADVANCE 46 else
     if (48 \<le> lookahead \<and> lookahead \<le> 57)
         \<or> (65 \<le> lookahead \<and> lookahead \<le> 90) \<or> lookahead = 95
         \<or> (97 \<le> lookahead \<and> lookahead \<le> 122) then ADVANCE 128 else
     END_STATE)"

definition case_36 :: "int \<Rightarrow> bool \<Rightarrow> symbol option \<times> next_step" where
  "case_36 lookahead eof = (Some sym_identifier,
     if lookahead = 69 \<or> lookahead = 101 then ADVANCE 13 else
     if lookahead = 73 \<or> lookahead = 105 then ADVANCE 109 else
     if lookahead = 79 \<or> lookahead = 111 then ADVANCE 33 else
     if (48 \<le> lookahead \<and> lookahead \<le> 57)
         \<or> (65 \<le> lookahead \<and> lookahead \<le> 90) \<or> lookahead = 95
         \<or> (97 \<le> lookahead \<and> lookahead \<le> 122) then ADVANCE 128 else
     END_STATE)"

definition case_37 :: "int \<Rightarrow> bool \<Rightarrow> symbol option \<times> next_step" where
  "case_37 lookahead eof = (Some sym_identifier,
     if lookahead = 69 \<or> lookahead = 101 then ADVANCE 13 else
     if (48 \<le> lookahead \<and> lookahead \<le> 57)
         \<or> (65 \<le> lookahead \<and> lookahead \<le> 90) \<or> lookahead = 95
         \<or> (97 \<le> lookahead \<and> lookahead \<le> 122) then ADVANCE 128 else
     END_STATE)"

definition case_38 :: "int \<Rightarrow> bool \<Rightarrow> symbol option \<times> next_step" where
  "case_38 lookahead eof = (Some sym_identifier,
     if lookahead = 69 \<or> lookahead = 101 then ADVANCE 92 else
     if (48 \<le> lookahead \<and> lookahead \<le> 57)
         \<or> (65 \<le> lookahead \<and> lookahead \<le> 90) \<or> lookahead = 95
         \<or> (97 \<le> lookahead \<and> lookahead \<le> 122) then ADVANCE 128 else
     END_STATE)"

definition case_39 :: "int \<Rightarrow> bool \<Rightarrow> symbol option \<times> next_step" where
  "case_39 lookahead eof = (Some sym_identifier,
     if lookahead = 69 \<or> lookahead = 101 then ADVANCE 125 else
     if (48 \<le> lookahead \<and> lookahead \<le> 57)
         \<or> (65 \<le> lookahead \<and> lookahead \<le> 90) \<or> lookahead = 95
         \<or> (97 \<le> lookahead \<and> lookahead \<le> 122) then ADVANCE 128 else
     END_STATE)"

definition case_40 :: "int \<Rightarrow> bool \<Rightarrow> symbol option \<times> next_step" where
  "case_40 lookahead eof = (Some sym_identifier,
     (case ADVANCE_MAP [(69, 72), (101, 72), (72, 41), (104, 41), (73, 74), (105, 74), (79, 13),
         (111, 13), (82, 120), (114, 120)] lookahead of
        Some next_state \<Rightarrow> ADVANCE next_state
      | None \<Rightarrow>
     if (48 \<le> lookahead \<and> lookahead \<le> 57)
         \<or> (65 \<le> lookahead \<and> lookahead \<le> 90) \<or> lookahead = 95
         \<or> (97 \<le> lookahead \<and> lookahead \<le> 122) then ADVANCE 128 else
     END_STATE))"

definition case_41 :: "int \<Rightarrow> bool \<Rightarrow> symbol option \<times> next_step" where
  "case_41 lookahead eof = (Some sym_identifier,
     if lookahead = 69 \<or> lookahead = 101 then ADVANCE 76 else
     if (48 \<le> lookahead \<and> lookahead \<le> 57)
         \<or> (65 \<le> lookahead \<and> lookahead \<le> 90) \<or> lookahead = 95
         \<or> (97 \<le> lookahead \<and> lookahead \<le> 122) then ADVANCE 128 else
     END_STATE)"

definition case_42 :: "int \<Rightarrow> bool \<Rightarrow> symbol option \<times> next_step" where
  "case_42 lookahead eof = (Some sym_identifier,
     if lookahead = 69 \<or> lookahead = 101 then ADVANCE 20 else
     if (48 \<le> lookahead \<and> lookahead \<le> 57)
         \<or> (65 \<le> lookahead \<and> lookahead \<le> 90) \<or> lookahead = 95
         \<or> (97 \<le> lookahead \<and> lookahead \<le> 122) then ADVANCE 128 else
     END_STATE)"

definition case_43 :: "int \<Rightarrow> bool \<Rightarrow> symbol option \<times> next_step" where
  "case_43 lookahead eof = (Some sym_identifier,
     if lookahead = 69 \<or> lookahead = 101 then ADVANCE 106 else
     if (48 \<le> lookahead \<and> lookahead \<le> 57)
         \<or> (65 \<le> lookahead \<and> lookahead \<le> 90) \<or> lookahead = 95
         \<or> (97 \<le> lookahead \<and> lookahead \<le> 122) then ADVANCE 128 else
     END_STATE)"

definition case_44 :: "int \<Rightarrow> bool \<Rightarrow> symbol option \<times> next_step" where
  "case_44 lookahead eof = (Some sym_identifier,
     if lookahead = 69 \<or> lookahead = 101 then ADVANCE 107 else
     if lookahead = 73 \<or> lookahead = 105 then ADVANCE 30 else
     if (48 \<le> lookahead \<and> lookahead \<le> 57)
         \<or> (65 \<le> lookahead \<and> lookahead \<le> 90) \<or> lookahead = 95
         \<or> (97 \<le> lookahead \<and> lookahead \<le> 122) then ADVANCE 128 else
     END_STATE)"

definition case_45 :: "int \<Rightarrow> bool \<Rightarrow> symbol option \<times> next_step" where
  "case_45 lookahead eof = (Some sym_identifier,
     if lookahead = 69 \<or> lookahead = 101 then ADVANCE 102 else
     if (48 \<le> lookahead \<and> lookahead \<le> 57)
         \<or> (65 \<le> lookahead \<and> lookahead \<le> 90) \<or> lookahead = 95
         \<or> (97 \<le> lookahead \<and> lookahead \<le> 122) then ADVANCE 128 else
     END_STATE)"

definition case_46 :: "int \<Rightarrow> bool \<Rightarrow> symbol option \<times> next_step" where
  "case_46 lookahead eof = (Some sym_identifier,
     if lookahead = 69 \<or> lookahead = 101 then ADVANCE 103 else
     if (48 \<le> lookahead \<and> lookahead \<le> 57)
         \<or> (65 \<le> lookahead \<and> lookahead \<le> 90) \<or> lookahead = 95
         \<or> (97 \<le> lookahead \<and> lookahead \<le> 122) then ADVANCE 128 else
     END_STATE)"

definition case_47 :: "int \<Rightarrow> bool \<Rightarrow> symbol option \<times> next_step" where
  "case_47 lookahead eof = (Some sym_identifier,
     if lookahead = 71 \<or> lookahead = 103 then ADVANCE 13 else
     if (48 \<le> lookahead \<and> lookahead \<le> 57)
         \<or> (65 \<le> lookahead \<and> lookahead \<le> 90) \<or> lookahead = 95
         \<or> (97 \<le> lookahead \<and> lookahead \<le> 122) then ADVANCE 128 else
     END_STATE)"

definition case_48 :: "int \<Rightarrow> bool \<Rightarrow> symbol option \<times> next_step" where
  "case_48 lookahead eof = (Some sym_identifier,
     (case ADVANCE_MAP [(71, 81), (103, 81), (70, 13), (78, 13), (83, 13), (84, 13), (102, 13),
         (110, 13), (115, 13), (116, 13)] lookahead of
        Some next_state \<Rightarrow> ADVANCE next_state
      | None \<Rightarrow>
     if (48 \<le> lookahead \<and> lookahead \<le> 57)
         \<or> (65 \<le> lookahead \<and> lookahead \<le> 90) \<or> lookahead = 95
         \<or> (97 \<le> lookahead \<and> lookahead \<le> 122) then ADVANCE 128 else
     END_STATE))"

definition case_49 :: "int \<Rightarrow> bool \<Rightarrow> symbol option \<times> next_step" where
  "case_49 lookahead eof = (Some sym_identifier,
     if lookahead = 72 \<or> lookahead = 104 then ADVANCE 13 else
     if (48 \<le> lookahead \<and> lookahead \<le> 57)
         \<or> (65 \<le> lookahead \<and> lookahead \<le> 90) \<or> lookahead = 95
         \<or> (97 \<le> lookahead \<and> lookahead \<le> 122) then ADVANCE 128 else
     END_STATE)"

definition case_50 :: "int \<Rightarrow> bool \<Rightarrow> symbol option \<times> next_step" where
  "case_50 lookahead eof = (Some sym_identifier,
     if lookahead = 72 \<or> lookahead = 104 then ADVANCE 59 else
     if lookahead = 73 \<or> lookahead = 105 then ADVANCE 115 else
     if (48 \<le> lookahead \<and> lookahead \<le> 57)
         \<or> (65 \<le> lookahead \<and> lookahead \<le> 90) \<or> lookahead = 95
         \<or> (97 \<le> lookahead \<and> lookahead \<le> 122) then ADVANCE 128 else
     END_STATE)"

definition case_51 :: "int \<Rightarrow> bool \<Rightarrow> symbol option \<times> next_step" where
  "case_51 lookahead eof = (Some sym_identifier,
     if lookahead = 73 \<or> lookahead = 105 then ADVANCE 124 else
     if (48 \<le> lookahead \<and> lookahead \<le> 57)
         \<or> (65 \<le> lookahead \<and> lookahead \<le> 90) \<or> lookahead = 95
         \<or> (97 \<le> lookahead \<and> lookahead \<le> 122) then ADVANCE 128 else
     END_STATE)"

definition case_52 :: "int \<Rightarrow> bool \<Rightarrow> symbol option \<times> next_step" where
  "case_52 lookahead eof = (Some sym_identifier,
     if lookahead = 73 \<or> lookahead = 105 then ADVANCE 114 else
     if (48 \<le> lookahead \<and> lookahead \<le> 57)
         \<or> (65 \<le> lookahead \<and> lookahead \<le> 90) \<or> lookahead = 95
         \<or> (97 \<le> lookahead \<and> lookahead \<le> 122) then ADVANCE 128 else
     END_STATE)"

definition case_53 :: "int \<Rightarrow> bool \<Rightarrow> symbol option \<times> next_step" where
  "case_53 lookahead eof = (Some sym_identifier,
     if lookahead = 73 \<or> lookahead = 105 then ADVANCE 35 else
     if (48 \<le> lookahead \<and> lookahead \<le> 57)
         \<or> (65 \<le> lookahead \<and> lookahead \<le> 90) \<or> lookahead = 95
         \<or> (97 \<le> lookahead \<and> lookahead \<le> 122) then ADVANCE 128 else
     END_STATE)"

definition case_54 :: "int \<Rightarrow> bool \<Rightarrow> symbol option \<times> next_step" where
  "case_54 lookahead eof = (Some sym_identifier,
     if lookahead = 73 \<or> lookahead = 105 then ADVANCE 93 else
     if (48 \<le> lookahead \<and> lookahead \<le> 57)
         \<or> (65 \<le> lookahead \<and> lookahead \<le> 90) \<or> lookahead = 95
         \<or> (97 \<le> lookahead \<and> lookahead \<le> 122) then ADVANCE 128 else
     END_STATE)"

definition case_55 :: "int \<Rightarrow> bool \<Rightarrow> symbol option \<times> next_step" where
  "case_55 lookahead eof = (Some sym_identifier,
     if lookahead = 73 \<or> lookahead = 105 then ADVANCE 91 else
     if (48 \<le> lookahead \<and> lookahead \<le> 57)
         \<or> (65 \<le> lookahead \<and> lookahead \<le> 90) \<or> lookahead = 95
         \<or> (97 \<le> lookahead \<and> lookahead \<le> 122) then ADVANCE 128 else
     END_STATE)"

definition case_56 :: "int \<Rightarrow> bool \<Rightarrow> symbol option \<times> next_step" where
  "case_56 lookahead eof = (Some sym_identifier,
     if lookahead = 73 \<or> lookahead = 105 then ADVANCE 78 else
     if (48 \<le> lookahead \<and> lookahead \<le> 57)
         \<or> (65 \<le> lookahead \<and> lookahead \<le> 90) \<or> lookahead = 95
         \<or> (97 \<le> lookahead \<and> lookahead \<le> 122) then ADVANCE 128 else
     END_STATE)"

definition case_57 :: "int \<Rightarrow> bool \<Rightarrow> symbol option \<times> next_step" where
  "case_57 lookahead eof = (Some sym_identifier,
     if lookahead = 73 \<or> lookahead = 105 then ADVANCE 80 else
     if (48 \<le> lookahead \<and> lookahead \<le> 57)
         \<or> (65 \<le> lookahead \<and> lookahead \<le> 90) \<or> lookahead = 95
         \<or> (97 \<le> lookahead \<and> lookahead \<le> 122) then ADVANCE 128 else
     END_STATE)"

definition case_58 :: "int \<Rightarrow> bool \<Rightarrow> symbol option \<times> next_step" where
  "case_58 lookahead eof = (Some sym_identifier,
     if lookahead = 73 \<or> lookahead = 105 then ADVANCE 64 else
     if (48 \<le> lookahead \<and> lookahead \<le> 57)
         \<or> (65 \<le> lookahead \<and> lookahead \<le> 90) \<or> lookahead = 95
         \<or> (97 \<le> lookahead \<and> lookahead \<le> 122) then ADVANCE 128 else
     END_STATE)"

definition case_59 :: "int \<Rightarrow> bool \<Rightarrow> symbol option \<times> next_step" where
  "case_59 lookahead eof = (Some sym_identifier,
     if lookahead = 73 \<or> lookahead = 105 then ADVANCE 70 else
     if (48 \<le> lookahead \<and> lookahead \<le> 57)
         \<or> (65 \<le> lookahead \<and> lookahead \<le> 90) \<or> lookahead = 95
         \<or> (97 \<le> lookahead \<and> lookahead \<le> 122) then ADVANCE 128 else
     END_STATE)"

definition case_60 :: "int \<Rightarrow> bool \<Rightarrow> symbol option \<times> next_step" where
  "case_60 lookahead eof = (Some sym_identifier,
     if lookahead = 73 \<or> lookahead = 105 then ADVANCE 86 else
     if (48 \<le> lookahead \<and> lookahead \<le> 57)
         \<or> (65 \<le> lookahead \<and> lookahead \<le> 90) \<or> lookahead = 95
         \<or> (97 \<le> lookahead \<and> lookahead \<le> 122) then ADVANCE 128 else
     END_STATE)"

definition case_61 :: "int \<Rightarrow> bool \<Rightarrow> symbol option \<times> next_step" where
  "case_61 lookahead eof = (Some sym_identifier,
     if lookahead = 73 \<or> lookahead = 105 then ADVANCE 88 else
     if (48 \<le> lookahead \<and> lookahead \<le> 57)
         \<or> (65 \<le> lookahead \<and> lookahead \<le> 90) \<or> lookahead = 95
         \<or> (97 \<le> lookahead \<and> lookahead \<le> 122) then ADVANCE 128 else
     END_STATE)"

definition case_62 :: "int \<Rightarrow> bool \<Rightarrow> symbol option \<times> next_step" where
  "case_62 lookahead eof = (Some sym_identifier,
     if lookahead = 73 \<or> lookahead = 105 then ADVANCE 118 else
     if (48 \<le> lookahead \<and> lookahead \<le> 57)
         \<or> (65 \<le> lookahead \<and> lookahead \<le> 90) \<or> lookahead = 95
         \<or> (97 \<le> lookahead \<and> lookahead \<le> 122) then ADVANCE 128 else
     END_STATE)"

definition case_63 :: "int \<Rightarrow> bool \<Rightarrow> symbol option \<times> next_step" where
  "case_63 lookahead eof = (Some sym_identifier,
     if lookahead = 75 \<or> lookahead = 107 then ADVANCE 13 else
     if (48 \<le> lookahead \<and> lookahead \<le> 57)
         \<or> (65 \<le> lookahead \<and> lookahead \<le> 90) \<or> lookahead = 95
         \<or> (97 \<le> lookahead \<and> lookahead \<le> 122) then ADVANCE 128 else
     END_STATE)"

definition case_64 :: "int \<Rightarrow> bool \<Rightarrow> symbol option \<times> next_step" where
  "case_64 lookahead eof = (Some sym_identifier,
     if lookahead = 76 \<or> lookahead = 108 then ADVANCE 13 else
     if (48 \<le> lookahead \<and> lookahead \<le> 57)
         \<or> (65 \<le> lookahead \<and> lookahead \<le> 90) \<or> lookahead = 95
         \<or> (97 \<le> lookahead \<and> lookahead \<le> 122) then ADVANCE 128 else
     END_STATE)"

definition case_65 :: "int \<Rightarrow> bool \<Rightarrow> symbol option \<times> next_step" where
  "case_65 lookahead eof = (Some sym_identifier,
     (case ADVANCE_MAP [(76, 108), (108, 108), (78, 33), (110, 33), (82, 101), (114, 101),
         (88, 52), (120, 52)] lookahead of
        Some next_state \<Rightarrow> ADVANCE next_state
      | None \<Rightarrow>
     if (48 \<le> lookahead \<and> lookahead \<le> 57)
         \<or> (65 \<le> lookahead \<and> lookahead \<le> 90) \<or> lookahead = 95
         \<or> (97 \<le> lookahead \<and> lookahead \<le> 122) then ADVANCE 128 else
     END_STATE))"

definition case_66 :: "int \<Rightarrow> bool \<Rightarrow> symbol option \<times> next_step" where
  "case_66 lookahead eof = (Some sym_identifier,
     if lookahead = 76 \<or> lookahead = 108 then ADVANCE 108 else
     if (48 \<le> lookahead \<and> lookahead \<le> 57)
         \<or> (65 \<le> lookahead \<and> lookahead \<le> 90) \<or> lookahead = 95
         \<or> (97 \<le> lookahead \<and> lookahead \<le> 122) then ADVANCE 128 else
     END_STATE)"

definition case_67 :: "int \<Rightarrow> bool \<Rightarrow> symbol option \<times> next_step" where
  "case_67 lookahead eof = (Some sym_identifier,
     if lookahead = 76 \<or> lookahead = 108 then ADVANCE 114 else
     if (48 \<le> lookahead \<and> lookahead \<le> 57)
         \<or> (65 \<le> lookahead \<and> lookahead \<le> 90) \<or> lookahead = 95
         \<or> (97 \<le> lookahead \<and> lookahead \<le> 122) then ADVANCE 128 else
     END_STATE)"

definition case_68 :: "int \<Rightarrow> bool \<Rightarrow> symbol option \<times> next_step" where
  "case_68 lookahead eof = (Some sym_identifier,
     if lookahead = 76 \<or> lookahead = 108 then ADVANCE 44 else
     if (48 \<le> lookahead \<and> lookahead \<le> 57)
         \<or> (65 \<le> lookahead \<and> lookahead \<le> 90) \<or> lookahead = 95
         \<or> (97 \<le> lookahead \<and> lookahead \<le> 122) then ADVANCE 128 else
     END_STATE)"

definition case_69 :: "int \<Rightarrow> bool \<Rightarrow> symbol option \<times> next_step" where
  "case_69 lookahead eof = (Some sym_identifier,
     if lookahead = 76 \<or> lookahead = 108 then ADVANCE 84 else
     if (48 \<le> lookahead \<and> lookahead \<le> 57)
         \<or> (65 \<le> lookahead \<and> lookahead \<le> 90) \<or> lookahead = 95
         \<or> (97 \<le> lookahead \<and> lookahead \<le> 122) then ADVANCE 128 else
     END_STATE)"

definition case_70 :: "int \<Rightarrow> bool \<Rightarrow> symbol option \<times> next_step" where
  "case_70 lookahead eof = (Some sym_identifier,
     if lookahead = 76 \<or> lookahead = 108 then ADVANCE 37 else
     if (48 \<le> lookahead \<and> lookahead \<le> 57)
         \<or> (65 \<le> lookahead \<and> lookahead \<le> 90) \<or> lookahead = 95
         \<or> (97 \<le> lookahead \<and> lookahead \<le> 122) then ADVANCE 128 else
     END_STATE)"

definition case_71 :: "int \<Rightarrow> bool \<Rightarrow> symbol option \<times> next_step" where
  "case_71 lookahead eof = (Some sym_identifier,
     if lookahead = 76 \<or> lookahead = 108 then ADVANCE 121 else
     if (48 \<le> lookahead \<and> lookahead \<le> 57)
         \<or> (65 \<le> lookahead \<and> lookahead \<le> 90) \<or> lookahead = 95
         \<or> (97 \<le> lookahead \<and> lookahead \<le> 122) then ADVANCE 128 else
     END_STATE)"

definition case_72 :: "int \<Rightarrow> bool \<Rightarrow> symbol option \<times> next_step" where
  "case_72 lookahead eof = (Some sym_identifier,
     if lookahead = 76 \<or> lookahead = 108 then ADVANCE 64 else
     if (48 \<le> lookahead \<and> lookahead \<le> 57)
         \<or> (65 \<le> lookahead \<and> lookahead \<le> 90) \<or> lookahead = 95
         \<or> (97 \<le> lookahead \<and> lookahead \<le> 122) then ADVANCE 128 else
     END_STATE)"

definition case_73 :: "int \<Rightarrow> bool \<Rightarrow> symbol option \<times> next_step" where
  "case_73 lookahead eof = (Some sym_identifier,
     if lookahead = 77 \<or> lookahead = 109 then ADVANCE 13 else
     if (48 \<le> lookahead \<and> lookahead \<le> 57)
         \<or> (65 \<le> lookahead \<and> lookahead \<le> 90) \<or> lookahead = 95
         \<or> (97 \<le> lookahead \<and> lookahead \<le> 122) then ADVANCE 128 else
     END_STATE)"

definition case_74 :: "int \<Rightarrow> bool \<Rightarrow> symbol option \<times> next_step" where
  "case_74 lookahead eof = (Some sym_identifier,
     if lookahead = 77 \<or> lookahead = 109 then ADVANCE 43 else
     if (48 \<le> lookahead \<and> lookahead \<le> 57)
         \<or> (65 \<le> lookahead \<and> lookahead \<le> 90) \<or> lookahead = 95
         \<or> (97 \<le> lookahead \<and> lookahead \<le> 122) then ADVANCE 128 else
     END_STATE)"

definition case_75 :: "int \<Rightarrow> bool \<Rightarrow> symbol option \<times> next_step" where
  "case_75 lookahead eof = (Some sym_identifier,
     if lookahead = 77 \<or> lookahead = 109 then ADVANCE 39 else
     if (48 \<le> lookahead \<and> lookahead \<le> 57)
         \<or> (65 \<le> lookahead \<and> lookahead \<le> 90) \<or> lookahead = 95
         \<or> (97 \<le> lookahead \<and> lookahead \<le> 122) then ADVANCE 128 else
     END_STATE)"

definition case_76 :: "int \<Rightarrow> bool \<Rightarrow> symbol option \<times> next_step" where
  "case_76 lookahead eof = (Some sym_identifier,
     if lookahead = 78 \<or> lookahead = 110 then ADVANCE 13 else
     if (48 \<le> lookahead \<and> lookahead \<le> 57)
         \<or> (65 \<le> lookahead \<and> lookahead \<le> 90) \<or> lookahead = 95
         \<or> (97 \<le> lookahead \<and> lookahead \<le> 122) then ADVANCE 128 else
     END_STATE)"

definition case_77 :: "int \<Rightarrow> bool \<Rightarrow> symbol option \<times> next_step" where
  "case_77 lookahead eof = (Some sym_identifier,
     if lookahead = 78 \<or> lookahead = 110 then ADVANCE 110 else
     if (48 \<le> lookahead \<and> lookahead \<le> 57)
         \<or> (65 \<le> lookahead \<and> lookahead \<le> 90) \<or> lookahead = 95
         \<or> (97 \<le> lookahead \<and> lookahead \<le> 122) then ADVANCE 128 else
     END_STATE)"

definition case_78 :: "int \<Rightarrow> bool \<Rightarrow> symbol option \<times> next_step" where
  "case_78 lookahead eof = (Some sym_identifier,
     if lookahead = 78 \<or> lookahead = 110 then ADVANCE 47 else
     if (48 \<le> lookahead \<and> lookahead \<le> 57)
         \<or> (65 \<le> lookahead \<and> lookahead \<le> 90) \<or> lookahead = 95
         \<or> (97 \<le> lookahead \<and> lookahead \<le> 122) then ADVANCE 128 else
     END_STATE)"

definition case_79 :: "int \<Rightarrow> bool \<Rightarrow> symbol option \<times> next_step" where
  "case_79 lookahead eof = (Some sym_identifier,
     if lookahead = 78 \<or> lookahead = 110 then ADVANCE 119 else
     if lookahead = 83 \<or> lookahead = 115 then ADVANCE 37 else
     if (48 \<le> lookahead \<and> lookahead \<le> 57)
         \<or> (65 \<le> lookahead \<and> lookahead \<le> 90) \<or> lookahead = 95
         \<or> (97 \<le> lookahead \<and> lookahead \<le> 122) then ADVANCE 128 else
     END_STATE)"

definition case_80 :: "int \<Rightarrow> bool \<Rightarrow> symbol option \<times> next_step" where
  "case_80 lookahead eof = (Some sym_identifier,
     if lookahead = 78 \<or> lookahead = 110 then ADVANCE 106 else
     if (48 \<le> lookahead \<and> lookahead \<le> 57)
         \<or> (65 \<le> lookahead \<and> lookahead \<le> 90) \<or> lookahead = 95
         \<or> (97 \<le> lookahead \<and> lookahead \<le> 122) then ADVANCE 128 else
     END_STATE)"

definition case_81 :: "int \<Rightarrow> bool \<Rightarrow> symbol option \<times> next_step" where
  "case_81 lookahead eof = (Some sym_identifier,
     if lookahead = 78 \<or> lookahead = 110 then ADVANCE 90 else
     if (48 \<le> lookahead \<and> lookahead \<le> 57)
         \<or> (65 \<le> lookahead \<and> lookahead \<le> 90) \<or> lookahead = 95
         \<or> (97 \<le> lookahead \<and> lookahead \<le> 122) then ADVANCE 128 else
     END_STATE)"

definition case_82 :: "int \<Rightarrow> bool \<Rightarrow> symbol option \<times> next_step" where
  "case_82 lookahead eof = (Some sym_identifier,
     if lookahead = 79 \<or> lookahead = 111 then ADVANCE 28 else
     if (48 \<le> lookahead \<and> lookahead \<le> 57)
         \<or> (65 \<le> lookahead \<and> lookahead \<le> 90) \<or> lookahead = 95
         \<or> (97 \<le> lookahead \<and> lookahead \<le> 122) then ADVANCE 128 else
     END_STATE)"

definition case_83 :: "int \<Rightarrow> bool \<Rightarrow> symbol option \<times> next_step" where
  "case_83 lookahead eof = (Some sym_identifier,
     if lookahead = 79 \<or> lookahead = 111 then ADVANCE 114 else
     if (48 \<le> lookahead \<and> lookahead \<le> 57)
         \<or> (65 \<le> lookahead \<and> lookahead \<le> 90) \<or> lookahead = 95
         \<or> (97 \<le> lookahead \<and> lookahead \<le> 122) then ADVANCE 128 else
     END_STATE)"

definition case_84 :: "int \<Rightarrow> bool \<Rightarrow> symbol option \<times> next_step" where
  "case_84 lookahead eof = (Some sym_identifier,
     if lookahead = 79 \<or> lookahead = 111 then ADVANCE 27 else
     if (48 \<le> lookahead \<and> lookahead \<le> 57)
         \<or> (65 \<le> lookahead \<and> lookahead \<le> 90) \<or> lookahead = 95
         \<or> (97 \<le> lookahead \<and> lookahead \<le> 122) then ADVANCE 128 else
     END_STATE)"

definition case_85 :: "int \<Rightarrow> bool \<Rightarrow> symbol option \<times> next_step" where
  "case_85 lookahead eof = (Some sym_identifier,
     if lookahead = 79 \<or> lookahead = 111 then ADVANCE 95 else
     if (48 \<le> lookahead \<and> lookahead \<le> 57)
         \<or> (65 \<le> lookahead \<and> lookahead \<le> 90) \<or> lookahead = 95
         \<or> (97 \<le> lookahead \<and> lookahead \<le> 122) then ADVANCE 128 else
     END_STATE)"

definition case_86 :: "int \<Rightarrow> bool \<Rightarrow> symbol option \<times> next_step" where
  "case_86 lookahead eof = (Some sym_identifier,
     if lookahead = 79 \<or> lookahead = 111 then ADVANCE 76 else
     if (48 \<le> lookahead \<and> lookahead \<le> 57)
         \<or> (65 \<le> lookahead \<and> lookahead \<le> 90) \<or> lookahead = 95
         \<or> (97 \<le> lookahead \<and> lookahead \<le> 122) then ADVANCE 128 else
     END_STATE)"

definition case_87 :: "int \<Rightarrow> bool \<Rightarrow> symbol option \<times> next_step" where
  "case_87 lookahead eof = (Some sym_identifier,
     if lookahead = 79 \<or> lookahead = 111 then ADVANCE 96 else
     if (48 \<le> lookahead \<and> lookahead \<le> 57)
         \<or> (65 \<le> lookahead \<and> lookahead \<le> 90) \<or> lookahead = 95
         \<or> (97 \<le> lookahead \<and> lookahead \<le> 122) then ADVANCE 128 else
     END_STATE)"

definition case_88 :: "int \<Rightarrow> bool \<Rightarrow> symbol option \<times> next_step" where
  "case_88 lookahead eof = (Some sym_identifier,
     if lookahead = 79 \<or> lookahead = 111 then ADVANCE 80 else
     if (48 \<le> lookahead \<and> lookahead \<le> 57)
         \<or> (65 \<le> lookahead \<and> lookahead \<le> 90) \<or> lookahead = 95
         \<or> (97 \<le> lookahead \<and> lookahead \<le> 122) then ADVANCE 128 else
     END_STATE)"

definition case_89 :: "int \<Rightarrow> bool \<Rightarrow> symbol option \<times> next_step" where
  "case_89 lookahead eof = (Some sym_identifier,
     if lookahead = 79 \<or> lookahead = 111 then ADVANCE 97 else
     if (48 \<le> lookahead \<and> lookahead \<le> 57)
         \<or> (65 \<le> lookahead \<and> lookahead \<le> 90) \<or> lookahead = 95
         \<or> (97 \<le> lookahead \<and> lookahead \<le> 122) then ADVANCE 128 else
     END_STATE)"

definition case_90 :: "int \<Rightarrow> bool \<Rightarrow> symbol option \<times> next_step" where
  "case_90 lookahead eof = (Some sym_identifier,
     if lookahead = 79 \<or> lookahead = 111 then ADVANCE 103 else
     if (48 \<le> lookahead \<and> lookahead \<le> 57)
         \<or> (65 \<le> lookahead \<and> lookahead \<le> 90) \<or> lookahead = 95
         \<or> (97 \<le> lookahead \<and> lookahead \<le> 122) then ADVANCE 128 else
     END_STATE)"

definition case_91 :: "int \<Rightarrow> bool \<Rightarrow> symbol option \<times> next_step" where
  "case_91 lookahead eof = (Some sym_identifier,
     if lookahead = 80 \<or> lookahead = 112 then ADVANCE 114 else
     if (48 \<le> lookahead \<and> lookahead \<le> 57)
         \<or> (65 \<le> lookahead \<and> lookahead \<le> 90) \<or> lookahead = 95
         \<or> (97 \<le> lookahead \<and> lookahead \<le> 122) then ADVANCE 128 else
     END_STATE)"

definition case_92 :: "int \<Rightarrow> bool \<Rightarrow> symbol option \<times> next_step" where
  "case_92 lookahead eof = (Some sym_identifier,
     if lookahead = 80 \<or> lookahead = 112 then ADVANCE 42 else
     if lookahead = 83 \<or> lookahead = 115 then ADVANCE 123 else
     if lookahead = 84 \<or> lookahead = 116 then ADVANCE 122 else
     if (48 \<le> lookahead \<and> lookahead \<le> 57)
         \<or> (65 \<le> lookahead \<and> lookahead \<le> 90) \<or> lookahead = 95
         \<or> (97 \<le> lookahead \<and> lookahead \<le> 122) then ADVANCE 128 else
     END_STATE)"

definition case_93 :: "int \<Rightarrow> bool \<Rightarrow> symbol option \<times> next_step" where
  "case_93 lookahead eof = (Some sym_identifier,
     if lookahead = 80 \<or> lookahead = 112 then ADVANCE 116 else
     if (48 \<le> lookahead \<and> lookahead \<le> 57)
         \<or> (65 \<le> lookahead \<and> lookahead \<le> 90) \<or> lookahead = 95
         \<or> (97 \<le> lookahead \<and> lookahead \<le> 122) then ADVANCE 128 else
     END_STATE)"

definition case_94 :: "int \<Rightarrow> bool \<Rightarrow> symbol option \<times> next_step" where
  "case_94 lookahead eof = (Some sym_identifier,
     if lookahead = 80 \<or> lookahead = 112 then ADVANCE 68 else
     if (48 \<le> lookahead \<and> lookahead \<le> 57)
         \<or> (65 \<le> lookahead \<and> lookahead \<le> 90) \<or> lookahead = 95
         \<or> (97 \<le> lookahead \<and> lookahead \<le> 122) then ADVANCE 128 else
     END_STATE)"

definition case_95 :: "int \<Rightarrow> bool \<Rightarrow> symbol option \<times> next_step" where
  "case_95 lookahead eof = (Some sym_identifier,
     if lookahead = 80 \<or> lookahead = 112 then ADVANCE 45 else
     if (48 \<le> lookahead \<and> lookahead \<le> 57)
         \<or> (65 \<le> lookahead \<and> lookahead \<le> 90) \<or> lookahead = 95
         \<or> (97 \<le> lookahead \<and> lookahead \<le> 122) then ADVANCE 128 else
     END_STATE)"

definition case_96 :: "int \<Rightarrow> bool \<Rightarrow> symbol option \<times> next_step" where
  "case_96 lookahead eof = (Some sym_identifier,
     if lookahead = 82 \<or> lookahead = 114 then ADVANCE 13 else
     if (48 \<le> lookahead \<and> lookahead \<le> 57)
         \<or> (65 \<le> lookahead \<and> lookahead \<le> 90) \<or> lookahead = 95
         \<or> (97 \<le> lookahead \<and> lookahead \<le> 122) then ADVANCE 128 else
     END_STATE)"

definition case_97 :: "int \<Rightarrow> bool \<Rightarrow> symbol option \<times> next_step" where
  "case_97 lookahead eof = (Some sym_identifier,
     if lookahead = 82 \<or> lookahead = 114 then ADVANCE 63 else
     if (48 \<le> lookahead \<and> lookahead \<le> 57)
         \<or> (65 \<le> lookahead \<and> lookahead \<le> 90) \<or> lookahead = 95
         \<or> (97 \<le> lookahead \<and> lookahead \<le> 122) then ADVANCE 128 else
     END_STATE)"

definition case_98 :: "int \<Rightarrow> bool \<Rightarrow> symbol option \<times> next_step" where
  "case_98 lookahead eof = (Some sym_identifier,
     if lookahead = 82 \<or> lookahead = 114 then ADVANCE 76 else
     if (48 \<le> lookahead \<and> lookahead \<le> 57)
         \<or> (65 \<le> lookahead \<and> lookahead \<le> 90) \<or> lookahead = 95
         \<or> (97 \<le> lookahead \<and> lookahead \<le> 122) then ADVANCE 128 else
     END_STATE)"

definition case_99 :: "int \<Rightarrow> bool \<Rightarrow> symbol option \<times> next_step" where
  "case_99 lookahead eof = (Some sym_identifier,
     if lookahead = 82 \<or> lookahead = 114 then ADVANCE 85 else
     if (48 \<le> lookahead \<and> lookahead \<le> 57)
         \<or> (65 \<le> lookahead \<and> lookahead \<le> 90) \<or> lookahead = 95
         \<or> (97 \<le> lookahead \<and> lookahead \<le> 122) then ADVANCE 128 else
     END_STATE)"

definition case_100 :: "int \<Rightarrow> bool \<Rightarrow> symbol option \<times> next_step" where
  "case_100 lookahead eof = (Some sym_identifier,
     if lookahead = 82 \<or> lookahead = 114 then ADVANCE 54 else
     if (48 \<le> lookahead \<and> lookahead \<le> 57)
         \<or> (65 \<le> lookahead \<and> lookahead \<le> 90) \<or> lookahead = 95
         \<or> (97 \<le> lookahead \<and> lookahead \<le> 122) then ADVANCE 128 else
     END_STATE)"

definition case_101 :: "int \<Rightarrow> bool \<Rightarrow> symbol option \<times> next_step" where
  "case_101 lookahead eof = (Some sym_identifier,
     if lookahead = 82 \<or> lookahead = 114 then ADVANCE 87 else
     if (48 \<le> lookahead \<and> lookahead \<le> 57)
         \<or> (65 \<le> lookahead \<and> lookahead \<le> 90) \<or> lookahead = 95
         \<or> (97 \<le> lookahead \<and> lookahead \<le> 122) then ADVANCE 128 else
     END_STATE)"

definition case_102 :: "int \<Rightarrow> bool \<Rightarrow> symbol option \<times> next_step" where
  "case_102 lookahead eof = (Some sym_identifier,
     if lookahead = 82 \<or> lookahead = 114 then ADVANCE 113 else
     if (48 \<le> lookahead \<and> lookahead \<le> 57)
         \<or> (65 \<le> lookahead \<and> lookahead \<le> 90) \<or> lookahead = 95
         \<or> (97 \<le> lookahead \<and> lookahead \<le> 122) then ADVANCE 128 else
     END_STATE)"

definition case_103 :: "int \<Rightarrow> bool \<Rightarrow> symbol option \<times> next_step" where
  "case_103 lookahead eof = (Some sym_identifier,
     if lookahead = 82 \<or> lookahead = 114 then ADVANCE 56 else
     if (48 \<le> lookahead \<and> lookahead \<le> 57)
         \<or> (65 \<le> lookahead \<and> lookahead \<le> 90) \<or> lookahead = 95
         \<or> (97 \<le> lookahead \<and> lookahead \<le> 122) then ADVANCE 128 else
     END_STATE)"

definition case_104 :: "int \<Rightarrow> bool \<Rightarrow> symbol option \<times> next_step" where
  "case_104 lookahead eof = (Some sym_identifier,
     if lookahead = 82 \<or> lookahead = 114 then ADVANCE 55 else
     if (48 \<le> lookahead \<and> lookahead \<le> 57)
         \<or> (65 \<le> lookahead \<and> lookahead \<le> 90) \<or> lookahead = 95
         \<or> (97 \<le> lookahead \<and> lookahead \<le> 122) then ADVANCE 128 else
     END_STATE)"

definition case_105 :: "int \<Rightarrow> bool \<Rightarrow> symbol option \<times> next_step" where
  "case_105 lookahead eof = (Some sym_identifier,
     if lookahead = 82 \<or> lookahead = 114 then ADVANCE 112 else
     if (48 \<le> lookahead \<and> lookahead \<le> 57)
         \<or> (65 \<le> lookahead \<and> lookahead \<le> 90) \<or> lookahead = 95
         \<or> (97 \<le> lookahead \<and> lookahead \<le> 122) then ADVANCE 128 else
     END_STATE)"

definition case_106 :: "int \<Rightarrow> bool \<Rightarrow> symbol option \<times> next_step" where
  "case_106 lookahead eof = (Some sym_identifier,
     if lookahead = 83 \<or> lookahead = 115 then ADVANCE 13 else
     if (48 \<le> lookahead \<and> lookahead \<le> 57)
         \<or> (65 \<le> lookahead \<and> lookahead \<le> 90) \<or> lookahead = 95
         \<or> (97 \<le> lookahead \<and> lookahead \<le> 122) then ADVANCE 128 else
     END_STATE)"

definition case_107 :: "int \<Rightarrow> bool \<Rightarrow> symbol option \<times> next_step" where
  "case_107 lookahead eof = (Some sym_identifier,
     if lookahead = 83 \<or> lookahead = 115 then ADVANCE 31 else
     if (48 \<le> lookahead \<and> lookahead \<le> 57)
         \<or> (65 \<le> lookahead \<and> lookahead \<le> 90) \<or> lookahead = 95
         \<or> (97 \<le> lookahead \<and> lookahead \<le> 122) then ADVANCE 128 else
     END_STATE)"

definition case_108 :: "int \<Rightarrow> bool \<Rightarrow> symbol option \<times> next_step" where
  "case_108 lookahead eof = (Some sym_identifier,
     if lookahead = 83 \<or> lookahead = 115 then ADVANCE 37 else
     if (48 \<le> lookahead \<and> lookahead \<le> 57)
         \<or> (65 \<le> lookahead \<and> lookahead \<le> 90) \<or> lookahead = 95
         \<or> (97 \<le> lookahead \<and> lookahead \<le> 122) then ADVANCE 128 else
     END_STATE)"

definition case_109 :: "int \<Rightarrow> bool \<Rightarrow> symbol option \<times> next_step" where
  "case_109 lookahead eof = (Some sym_identifier,
     if lookahead = 83 \<or> lookahead = 115 then ADVANCE 111 else
     if (48 \<le> lookahead \<and> lookahead \<le> 57)
         \<or> (65 \<le> lookahead \<and> lookahead \<le> 90) \<or> lookahead = 95
         \<or> (97 \<le> lookahead \<and> lookahead \<le> 122) then ADVANCE 128 else
     END_STATE)"

definition case_110 :: "int \<Rightarrow> bool \<Rightarrow> symbol option \<times> next_step" where
  "case_110 lookahead eof = (Some sym_identifier,
     if lookahead = 83 \<or> lookahead = 115 then ADVANCE 53 else
     if lookahead = 84 \<or> lookahead = 116 then ADVANCE 24 else
     if (48 \<le> lookahead \<and> lookahead \<le> 57)
         \<or> (65 \<le> lookahead \<and> lookahead \<le> 90) \<or> lookahead = 95
         \<or> (97 \<le> lookahead \<and> lookahead \<le> 122) then ADVANCE 128 else
     END_STATE)"

definition case_111 :: "int \<Rightarrow> bool \<Rightarrow> symbol option \<times> next_step" where
  "case_111 lookahead eof = (Some sym_identifier,
     if lookahead = 83 \<or> lookahead = 115 then ADVANCE 56 else
     if (48 \<le> lookahead \<and> lookahead \<le> 57)
         \<or> (65 \<le> lookahead \<and> lookahead \<le> 90) \<or> lookahead = 95
         \<or> (97 \<le> lookahead \<and> lookahead \<le> 122) then ADVANCE 128 else
     END_STATE)"

definition case_112 :: "int \<Rightarrow> bool \<Rightarrow> symbol option \<times> next_step" where
  "case_112 lookahead eof = (Some sym_identifier,
     if lookahead = 83 \<or> lookahead = 115 then ADVANCE 60 else
     if (48 \<le> lookahead \<and> lookahead \<le> 57)
         \<or> (65 \<le> lookahead \<and> lookahead \<le> 90) \<or> lookahead = 95
         \<or> (97 \<le> lookahead \<and> lookahead \<le> 122) then ADVANCE 128 else
     END_STATE)"

definition case_113 :: "int \<Rightarrow> bool \<Rightarrow> symbol option \<times> next_step" where
  "case_113 lookahead eof = (Some sym_identifier,
     if lookahead = 84 \<or> lookahead = 116 then ADVANCE 126 else
     if (48 \<le> lookahead \<and> lookahead \<le> 57)
         \<or> (65 \<le> lookahead \<and> lookahead \<le> 90) \<or> lookahead = 95
         \<or> (97 \<le> lookahead \<and> lookahead \<le> 122) then ADVANCE 128 else
     END_STATE)"

definition case_114 :: "int \<Rightarrow> bool \<Rightarrow> symbol option \<times> next_step" where
  "case_114 lookahead eof = (Some sym_identifier,
     if lookahead = 84 \<or> lookahead = 116 then ADVANCE 13 else
     if (48 \<le> lookahead \<and> lookahead \<le> 57)
         \<or> (65 \<le> lookahead \<and> lookahead \<le> 90) \<or> lookahead = 95
         \<or> (97 \<le> lookahead \<and> lookahead \<le> 122) then ADVANCE 128 else
     END_STATE)"

definition case_115 :: "int \<Rightarrow> bool \<Rightarrow> symbol option \<times> next_step" where
  "case_115 lookahead eof = (Some sym_identifier,
     if lookahead = 84 \<or> lookahead = 116 then ADVANCE 49 else
     if (48 \<le> lookahead \<and> lookahead \<le> 57)
         \<or> (65 \<le> lookahead \<and> lookahead \<le> 90) \<or> lookahead = 95
         \<or> (97 \<le> lookahead \<and> lookahead \<le> 122) then ADVANCE 128 else
     END_STATE)"

definition case_116 :: "int \<Rightarrow> bool \<Rightarrow> symbol option \<times> next_step" where
  "case_116 lookahead eof = (Some sym_identifier,
     if lookahead = 84 \<or> lookahead = 116 then ADVANCE 12 else
     if (48 \<le> lookahead \<and> lookahead \<le> 57)
         \<or> (65 \<le> lookahead \<and> lookahead \<le> 90) \<or> lookahead = 95
         \<or> (97 \<le> lookahead \<and> lookahead \<le> 122) then ADVANCE 128 else
     END_STATE)"

definition case_117 :: "int \<Rightarrow> bool \<Rightarrow> symbol option \<times> next_step" where
  "case_117 lookahead eof = (Some sym_identifier,
     if lookahead = 84 \<or> lookahead = 116 then ADVANCE 60 else
     if (48 \<le> lookahead \<and> lookahead \<le> 57)
         \<or> (65 \<le> lookahead \<and> lookahead \<le> 90) \<or> lookahead = 95
         \<or> (97 \<le> lookahead \<and> lookahead \<le> 122) then ADVANCE 128 else
     END_STATE)"

definition case_118 :: "int \<Rightarrow> bool \<Rightarrow> symbol option \<times> next_step" where
  "case_118 lookahead eof = (Some sym_identifier,
     if lookahead = 84 \<or> lookahead = 116 then ADVANCE 61 else
     if (48 \<le> lookahead \<and> lookahead \<le> 57)
         \<or> (65 \<le> lookahead \<and> lookahead \<le> 90) \<or> lookahead = 95
         \<or> (97 \<le> lookahead \<and> lookahead \<le> 122) then ADVANCE 128 else
     END_STATE)"

definition case_119 :: "int \<Rightarrow> bool \<Rightarrow> symbol option \<times> next_step" where
  "case_119 lookahead eof = (Some sym_identifier,
     if lookahead = 84 \<or> lookahead = 116 then ADVANCE 58 else
     if (48 \<le> lookahead \<and> lookahead \<le> 57)
         \<or> (65 \<le> lookahead \<and> lookahead \<le> 90) \<or> lookahead = 95
         \<or> (97 \<le> lookahead \<and> lookahead \<le> 122) then ADVANCE 128 else
     END_STATE)"

definition case_120 :: "int \<Rightarrow> bool \<Rightarrow> symbol option \<times> next_step" where
  "case_120 lookahead eof = (Some sym_identifier,
     if lookahead = 85 \<or> lookahead = 117 then ADVANCE 37 else
     if lookahead = 89 \<or> lookahead = 121 then ADVANCE 13 else
     if (48 \<le> lookahead \<and> lookahead \<le> 57)
         \<or> (65 \<le> lookahead \<and> lookahead \<le> 90) \<or> lookahead = 95
         \<or> (97 \<le> lookahead \<and> lookahead \<le> 122) then ADVANCE 128 else
     END_STATE)"

definition case_121 :: "int \<Rightarrow> bool \<Rightarrow> symbol option \<times> next_step" where
  "case_121 lookahead eof = (Some sym_identifier,
     if lookahead = 85 \<or> lookahead = 117 then ADVANCE 37 else
     if (48 \<le> lookahead \<and> lookahead \<le> 57)
         \<or> (65 \<le> lookahead \<and> lookahead \<le> 90) \<or> lookahead = 95
         \<or> (97 \<le> lookahead \<and> lookahead \<le> 122) then ADVANCE 128 else
     END_STATE)"

definition case_122 :: "int \<Rightarrow> bool \<Rightarrow> symbol option \<times> next_step" where
  "case_122 lookahead eof = (Some sym_identifier,
     if lookahead = 85 \<or> lookahead = 117 then ADVANCE 98 else
     if (48 \<le> lookahead \<and> lookahead \<le> 57)
         \<or> (65 \<le> lookahead \<and> lookahead \<le> 90) \<or> lookahead = 95
         \<or> (97 \<le> lookahead \<and> lookahead \<le> 122) then ADVANCE 128 else
     END_STATE)"

definition case_123 :: "int \<Rightarrow> bool \<Rightarrow> symbol option \<times> next_step" where
  "case_123 lookahead eof = (Some sym_identifier,
     if lookahead = 85 \<or> lookahead = 117 then ADVANCE 67 else
     if (48 \<le> lookahead \<and> lookahead \<le> 57)
         \<or> (65 \<le> lookahead \<and> lookahead \<le> 90) \<or> lookahead = 95
         \<or> (97 \<le> lookahead \<and> lookahead \<le> 122) then ADVANCE 128 else
     END_STATE)"

definition case_124 :: "int \<Rightarrow> bool \<Rightarrow> symbol option \<times> next_step" where
  "case_124 lookahead eof = (Some sym_identifier,
     if lookahead = 86 \<or> lookahead = 118 then ADVANCE 13 else
     if (48 \<le> lookahead \<and> lookahead \<le> 57)
         \<or> (65 \<le> lookahead \<and> lookahead \<le> 90) \<or> lookahead = 95
         \<or> (97 \<le> lookahead \<and> lookahead \<le> 122) then ADVANCE 128 else
     END_STATE)"

definition case_125 :: "int \<Rightarrow> bool \<Rightarrow> symbol option \<times> next_step" where
  "case_125 lookahead eof = (Some sym_identifier,
     if lookahead = 87 \<or> lookahead = 119 then ADVANCE 89 else
     if (48 \<le> lookahead \<and> lookahead \<le> 57)
         \<or> (65 \<le> lookahead \<and> lookahead \<le> 90) \<or> lookahead = 95
         \<or> (97 \<le> lookahead \<and> lookahead \<le> 122) then ADVANCE 128 else
     END_STATE)"

definition case_126 :: "int \<Rightarrow> bool \<Rightarrow> symbol option \<times> next_step" where
  "case_126 lookahead eof = (Some sym_identifier,
     if lookahead = 89 \<or> lookahead = 121 then ADVANCE 13 else
     if (48 \<le> lookahead \<and> lookahead \<le> 57)
         \<or> (65 \<le> lookahead \<and> lookahead \<le> 90) \<or> lookahead = 95
         \<or> (97 \<le> lookahead \<and> lookahead \<le> 122) then ADVANCE 128 else
     END_STATE)"

definition case_127 :: "int \<Rightarrow> bool \<Rightarrow> symbol option \<times> next_step" where
  "case_127 lookahead eof = (Some sym_identifier,
     if lookahead = 70 \<or> lookahead = 78 \<or> lookahead = 82 \<or> lookahead = 102
         \<or> lookahead = 110 \<or> lookahead = 114 then ADVANCE 13 else
     if (48 \<le> lookahead \<and> lookahead \<le> 57)
         \<or> (65 \<le> lookahead \<and> lookahead \<le> 90) \<or> lookahead = 95
         \<or> (97 \<le> lookahead \<and> lookahead \<le> 122) then ADVANCE 128 else
     END_STATE)"

definition case_128 :: "int \<Rightarrow> bool \<Rightarrow> symbol option \<times> next_step" where
  "case_128 lookahead eof = (Some sym_identifier,
     if (48 \<le> lookahead \<and> lookahead \<le> 57)
         \<or> (65 \<le> lookahead \<and> lookahead \<le> 90) \<or> lookahead = 95
         \<or> (97 \<le> lookahead \<and> lookahead \<le> 122) then ADVANCE 128 else
     END_STATE)"

definition ts_lex_cases :: "(int \<Rightarrow> bool \<Rightarrow> symbol option \<times> next_step) list" where
  "ts_lex_cases = [case_0, case_1, case_2, case_3, case_4, case_5, case_6, case_7, case_8,
     case_9, case_10, case_11, case_12, case_13, case_14, case_15, case_16, case_17, case_18,
     case_19, case_20, case_21, case_22, case_23, case_24, case_25, case_26, case_27, case_28,
     case_29, case_30, case_31, case_32, case_33, case_34, case_35, case_36, case_37, case_38,
     case_39, case_40, case_41, case_42, case_43, case_44, case_45, case_46, case_47, case_48,
     case_49, case_50, case_51, case_52, case_53, case_54, case_55, case_56, case_57, case_58,
     case_59, case_60, case_61, case_62, case_63, case_64, case_65, case_66, case_67, case_68,
     case_69, case_70, case_71, case_72, case_73, case_74, case_75, case_76, case_77, case_78,
     case_79, case_80, case_81, case_82, case_83, case_84, case_85, case_86, case_87, case_88,
     case_89, case_90, case_91, case_92, case_93, case_94, case_95, case_96, case_97, case_98,
     case_99, case_100, case_101, case_102, case_103, case_104, case_105, case_106, case_107,
     case_108, case_109, case_110, case_111, case_112, case_113, case_114, case_115, case_116,
     case_117, case_118, case_119, case_120, case_121, case_122, case_123, case_124, case_125,
     case_126, case_127, case_128]"

text \<open>
  The \<^verbatim>\<open>switch\<close> itself: a state of the table runs its case, any other state is the
  \<^verbatim>\<open>default\<close> branch (\<open>None\<close>, for \<^verbatim>\<open>return false\<close>).
\<close>

definition ts_lex_switch :: "nat \<Rightarrow> int \<Rightarrow> bool \<Rightarrow> (symbol option \<times> next_step) option" where
  "ts_lex_switch state lookahead eof =
     (if state < length ts_lex_cases then Some ((ts_lex_cases ! state) lookahead eof)
      else None)"

lemmas case_defs =
  case_0_def case_1_def case_2_def case_3_def case_4_def case_5_def case_6_def case_7_def
  case_8_def case_9_def case_10_def case_11_def case_12_def case_13_def case_14_def
  case_15_def case_16_def case_17_def case_18_def case_19_def case_20_def case_21_def
  case_22_def case_23_def case_24_def case_25_def case_26_def case_27_def case_28_def
  case_29_def case_30_def case_31_def case_32_def case_33_def case_34_def case_35_def
  case_36_def case_37_def case_38_def case_39_def case_40_def case_41_def case_42_def
  case_43_def case_44_def case_45_def case_46_def case_47_def case_48_def case_49_def
  case_50_def case_51_def case_52_def case_53_def case_54_def case_55_def case_56_def
  case_57_def case_58_def case_59_def case_60_def case_61_def case_62_def case_63_def
  case_64_def case_65_def case_66_def case_67_def case_68_def case_69_def case_70_def
  case_71_def case_72_def case_73_def case_74_def case_75_def case_76_def case_77_def
  case_78_def case_79_def case_80_def case_81_def case_82_def case_83_def case_84_def
  case_85_def case_86_def case_87_def case_88_def case_89_def case_90_def case_91_def
  case_92_def case_93_def case_94_def case_95_def case_96_def case_97_def case_98_def
  case_99_def case_100_def case_101_def case_102_def case_103_def case_104_def case_105_def
  case_106_def case_107_def case_108_def case_109_def case_110_def case_111_def case_112_def
  case_113_def case_114_def case_115_def case_116_def case_117_def case_118_def case_119_def
  case_120_def case_121_def case_122_def case_123_def case_124_def case_125_def case_126_def
  case_127_def case_128_def

section \<open>The loop of \<^verbatim>\<open>ts_lex\<close>\<close>

text \<open>
  \<^verbatim>\<open>ACCEPT_TOKEN(symbol_value)\<close> sets \<^verbatim>\<open>result\<close>, stores the symbol and marks
  the end of the token at the cursor.
\<close>

definition ACCEPT_TOKEN :: "symbol option \<Rightarrow> bool \<times> TSLexer \<Rightarrow> bool \<times> TSLexer" where
  "ACCEPT_TOKEN accepted st =
     (case accepted of
        None \<Rightarrow> st
      | Some symbol_value \<Rightarrow> (True, mark_end ((snd st)\<lparr>result_symbol := symbol_value\<rparr>)))"

lemma switch_all:
  assumes "list_all (\<lambda>c. Q (c la e)) ts_lex_cases" and "ts_lex_switch state la e = Some r"
  shows "Q r"
  using assms by (auto simp: ts_lex_switch_def list_all_length split: if_splits)

text \<open>At the end of the input a state either returns or moves to state 6, which returns.\<close>

lemma cases_at_eof:
  "list_all (\<lambda>c. snd (c 0 True) = END_STATE \<or> snd (c 0 True) = ADVANCE 6) ts_lex_cases"
  unfolding ts_lex_cases_def by (simp add: case_defs ADVANCE_MAP_def)

lemma switch_6: "ts_lex_switch 6 la e = Some (Some ts_builtin_sym_end, END_STATE)"
  by (simp add: ts_lex_switch_def ts_lex_cases_def case_6_def)

lemma switch_at_eof:
  assumes "ts_lex_switch state 0 True = Some (accepted, next)"
  shows "next = END_STATE \<or> (state \<noteq> 6 \<and> next = ADVANCE 6)"
proof -
  have "snd (accepted, next) = END_STATE \<or> snd (accepted, next) = ADVANCE 6"
    using cases_at_eof assms by (rule switch_all)
  moreover have "next = END_STATE" if "state = 6"
    using assms that by (simp add: switch_6)
  ultimately show ?thesis by auto
qed

lemma unread_ACCEPT_TOKEN: "unread (snd (ACCEPT_TOKEN accepted (result, lexer))) = unread lexer"
  by (simp add: ACCEPT_TOKEN_def mark_end_def split: option.splits)

text \<open>
  The body of \<^verbatim>\<open>ts_lex\<close> from the label \<^verbatim>\<open>start\<close> on: read the lookahead and
  the end-of-input flag, run the case of the state, and either return or advance the lexer
  and start again in the next state.
\<close>

function lex_loop :: "TSLexer \<Rightarrow> bool \<Rightarrow> nat \<Rightarrow> bool \<times> TSLexer" where
  "lex_loop lexer result state =
     (case ts_lex_switch state (lookahead_of lexer) (eof_of lexer) of
        None \<Rightarrow> (False, lexer)
      | Some (accepted, next) \<Rightarrow>
          (case ACCEPT_TOKEN accepted (result, lexer) of
             (result', lexer') \<Rightarrow>
               (case next of
                  ADVANCE state_value \<Rightarrow> lex_loop (advance lexer' False) result' state_value
                | SKIP state_value \<Rightarrow> lex_loop (advance lexer' True) result' state_value
                | END_STATE \<Rightarrow> (result', lexer'))))"
  by pat_completeness auto

termination
proof (relation "measure (\<lambda>(lexer, result, state).
          2 * length (unread lexer) + (if state = 6 then 0 else 1))", goal_cases)
  case 1
  show ?case by simp
next
  case (2 lexer result state x2 accepted nxt result' lexer' state_value)
  have u: "unread lexer' = unread lexer"
    using unread_ACCEPT_TOKEN [of accepted result lexer] 2(3) [symmetric] by simp
  show ?case
  proof (cases "unread lexer")
    case Nil
    with 2 have "ts_lex_switch state 0 True = Some (accepted, ADVANCE state_value)"
      by (simp add: lookahead_of_def eof_of_def)
    from switch_at_eof [OF this] show ?thesis
      using Nil u by (simp add: advance_def)
  next
    case (Cons c cs)
    then show ?thesis using u by (simp add: advance_def)
  qed
next
  case (3 lexer result state x2 accepted nxt result' lexer' state_value)
  have u: "unread lexer' = unread lexer"
    using unread_ACCEPT_TOKEN [of accepted result lexer] 3(3) [symmetric] by simp
  show ?case
  proof (cases "unread lexer")
    case Nil
    with 3 have "ts_lex_switch state 0 True = Some (accepted, SKIP state_value)"
      by (simp add: lookahead_of_def eof_of_def)
    from switch_at_eof [OF this] show ?thesis by simp
  next
    case (Cons c cs)
    then show ?thesis using u by (simp add: advance_def)
  qed
qed

declare lex_loop.simps [simp del]

text \<open>
  \<^verbatim>\<open>ts_lex\<close>: \<^verbatim>\<open>START_LEXER\<close> clears \<^verbatim>\<open>result\<close> and enters the
  \<^verbatim>\<open>switch\<close> at the given state.
\<close>

definition ts_lex :: "TSLexer \<Rightarrow> nat \<Rightarrow> bool \<times> TSLexer" where
  "ts_lex lexer state = lex_loop lexer False state"

section \<open>The Scanner and the Item Sequencer\<close>

text \<open>
  Modelled from the spec: the token of section 3 (a category, a span of offsets into the
  source and the exact substring). The categories are the terminal symbols of the source:
  \<open>Comment\<close> is \<open>sym_comment\<close>, \<open>String\<close> is \<open>sym_string\<close>, \<open>Number\<close> is \<open>sym_number\<close>,
  \<open>Keyword\<close> is \<open>sym_keyword\<close>, \<open>Operator\<close> is \<open>sym_operator\<close>, \<open>Punctuation\<close> is
  \<open>sym_punctuation\<close>, \<open>Identifier\<close> is \<open>sym_identifier\<close> and \<open>EndOfInput\<close> is
  \<open>ts_builtin_sym_end\<close>.
\<close>

record token =
  tok_kind :: symbol
  tok_start :: nat
  tok_end :: nat
  tok_text :: "int list"

text \<open>
  Modelled from the spec: the error kinds of section 7, each with the offset at which the
  offending token began. The source has no error values: \<^verbatim>\<open>ts_lex\<close> returns
  \<^verbatim>\<open>false\<close>. The kind is read off the characters at that offset: a double quote opens a
  string, an opening parenthesis followed by an asterisk opens a block comment, anything else
  begins no token.
\<close>

datatype LexError = UnterminatedString nat | UnterminatedComment nat | NoMatchingRule nat

definition lex_error :: "int list \<Rightarrow> nat \<Rightarrow> LexError" where
  "lex_error input offset =
     (case drop offset input of
        [] \<Rightarrow> NoMatchingRule offset
      | c # cs \<Rightarrow>
          if c = 34 then UnterminatedString offset
          else if c = 40 \<and> take 1 cs = [42] then UnterminatedComment offset
          else NoMatchingRule offset)"

text \<open>
  Modelled from the spec: \<open>scan_one(input, cursor)\<close> of section 4.1, the caller of
  \<^verbatim>\<open>ts_lex\<close>, which is not part of the given source. It runs \<^verbatim>\<open>ts_lex\<close> from
  state 0 (the only lex state of \<^verbatim>\<open>ts_lex_modes\<close>) at the cursor. When
  \<^verbatim>\<open>ts_lex\<close> returns \<^verbatim>\<open>true\<close> the token is the accepted symbol with the span
  from the start of the token (after the skipped whitespace) to the marked end, and the new
  cursor is the marked end; otherwise the scan is an error.
\<close>

definition start_lexer :: "int list \<Rightarrow> nat \<Rightarrow> TSLexer" where
  "start_lexer input cursor =
     \<lparr>unread = drop cursor input, position = cursor, token_start = cursor,
      token_end = cursor, result_symbol = ts_builtin_sym_end\<rparr>"

definition slice :: "int list \<Rightarrow> nat \<Rightarrow> nat \<Rightarrow> int list" where
  "slice input lo hi = take (hi - lo) (drop lo input)"

definition scan_one :: "int list \<Rightarrow> nat \<Rightarrow> LexError + token \<times> nat" where
  "scan_one input cursor =
     (case ts_lex (start_lexer input cursor) 0 of
        (True, lexer) \<Rightarrow>
          Inr (\<lparr>tok_kind = result_symbol lexer,
                tok_start = token_start lexer,
                tok_end = token_end lexer,
                tok_text = slice input (token_start lexer) (token_end lexer)\<rparr>,
               token_end lexer)
      | (False, lexer) \<Rightarrow> Inl (lex_error input (token_start lexer)))"

text \<open>
  Modelled from the spec: \<open>tokenize(input)\<close> of section 4.2, which is not part of the given
  source. It calls the Scanner from offset 0 until an \<open>EndOfInput\<close> token is produced or an
  error is raised, and returns the tokens collected so far together with the error, if any.
  The loop is a partial function: \<open>None\<close> stands for a loop that does not return.
\<close>

partial_function (option) tokenize_from ::
  "int list \<Rightarrow> nat \<Rightarrow> token list \<Rightarrow> (token list \<times> LexError option) option" where
  "tokenize_from input cursor tokens =
     (case scan_one input cursor of
        Inl err \<Rightarrow> Some (tokens, Some err)
      | Inr (tok, cursor') \<Rightarrow>
          if tok_kind tok = ts_builtin_sym_end then Some (tokens @ [tok], None)
          else tokenize_from input cursor' (tokens @ [tok]))"

definition tokenize :: "int list \<Rightarrow> (token list \<times> LexError option) option" where
  "tokenize input = tokenize_from input 0 []"

text \<open>Source text as a list of code points.\<close>

definition codes :: "string \<Rightarrow> int list" where
  "codes s = map of_char s"

section \<open>Facts about every state\<close>

text \<open>
  A property of every case of the table is checked case by case, with the number of the state
  at hand.
\<close>

fun all_states_from :: "nat \<Rightarrow> (nat \<Rightarrow> 'a \<Rightarrow> bool) \<Rightarrow> 'a list \<Rightarrow> bool" where
  "all_states_from i P [] = True"
| "all_states_from i P (c # cs) = (P i c \<and> all_states_from (Suc i) P cs)"

lemma all_states_fromD: "all_states_from i P cs \<Longrightarrow> k < length cs \<Longrightarrow> P (i + k) (cs ! k)"
proof (induction cs arbitrary: i k)
  case Nil
  then show ?case by simp
next
  case (Cons c cs)
  show ?case
  proof (cases k)
    case 0
    with Cons.prems show ?thesis by simp
  next
    case (Suc j)
    with Cons.prems have "P (Suc i + j) (cs ! j)" by (intro Cons.IH) simp_all
    with Suc show ?thesis by simp
  qed
qed

lemma switch_all_states:
  assumes "all_states_from 0 (\<lambda>s c. \<forall>la e. Q s (c la e)) ts_lex_cases"
    and "ts_lex_switch state la e = Some r"
  shows "Q state r"
proof -
  from assms(2) have lt: "state < length ts_lex_cases" and r: "r = (ts_lex_cases ! state) la e"
    by (auto simp: ts_lex_switch_def split: if_splits)
  from all_states_fromD [OF assms(1) lt] show ?thesis by (simp add: r)
qed

text \<open>
  Where the \<^verbatim>\<open>switch\<close> can go: only state 0 skips, and it stays in state 0; no state
  advances to state 0 or out of the table; only state 0 advances to state 6; state 0 accepts
  nothing, and state 6 is the only state that accepts the end of the input, and it returns.
\<close>

definition next_ok :: "nat \<Rightarrow> next_step \<Rightarrow> bool" where
  "next_ok s nxt =
     (case nxt of
        SKIP n \<Rightarrow> s = 0 \<and> n = 0
      | ADVANCE n \<Rightarrow> n \<noteq> 0 \<and> n < 129 \<and> (n = 6 \<longrightarrow> s = 0)
      | END_STATE \<Rightarrow> True)"

definition accept_ok :: "nat \<Rightarrow> symbol option \<Rightarrow> bool" where
  "accept_ok s accepted =
     ((s = 0 \<longrightarrow> accepted = None) \<and> ((accepted = Some ts_builtin_sym_end) = (s = 6)))"

definition case_ok :: "nat \<Rightarrow> symbol option \<times> next_step \<Rightarrow> bool" where
  "case_ok s r = (accept_ok s (fst r) \<and> next_ok s (snd r) \<and> (s = 6 \<longrightarrow> snd r = END_STATE))"

lemma next_ok_if: "next_ok s a \<Longrightarrow> next_ok s b \<Longrightarrow> next_ok s (if c then a else b)"
  by simp

lemma next_ok_map:
  "list_all (\<lambda>(k, n). next_ok s (ADVANCE n)) tbl \<Longrightarrow> next_ok s r \<Longrightarrow>
   next_ok s (case ADVANCE_MAP tbl la of Some n \<Rightarrow> ADVANCE n | None \<Rightarrow> r)"
  by (auto simp: ADVANCE_MAP_def list_all_iff split: option.splits dest!: map_of_SomeD)

lemma case_okI:
  "accept_ok s a \<Longrightarrow> next_ok s n \<Longrightarrow> (s = 6 \<longrightarrow> n = END_STATE) \<Longrightarrow> case_ok s (a, n)"
  by (simp add: case_ok_def)

lemma cases_ok: "all_states_from 0 (\<lambda>s c. \<forall>la e. case_ok s (c la e)) ts_lex_cases"
  unfolding ts_lex_cases_def all_states_from.simps case_defs
  apply (intro conjI allI case_okI next_ok_if next_ok_map)
  apply (simp_all add: next_ok_def accept_ok_def)
  done

lemma switch_ok: "ts_lex_switch state la e = Some r \<Longrightarrow> case_ok state r"
  using cases_ok by (rule switch_all_states)

text \<open>State 0 skips whitespace only, and moves to state 6 only at the end of the input.\<close>

definition is_space :: "int \<Rightarrow> bool" where
  "is_space c = ((9 \<le> c \<and> c \<le> 13) \<or> c = 32)"

lemma switch_0: "ts_lex_switch 0 la e = Some (case_0 la e)"
  by (simp add: ts_lex_switch_def ts_lex_cases_def)

definition state_0_ok :: "int \<Rightarrow> bool \<Rightarrow> next_step \<Rightarrow> bool" where
  "state_0_ok la e nxt =
     (case nxt of
        SKIP n \<Rightarrow> \<not> e \<and> is_space la
      | ADVANCE n \<Rightarrow> n = 6 \<longrightarrow> e
      | END_STATE \<Rightarrow> True)"

lemma state_0_ok_ADVANCE:
  "(c \<Longrightarrow> n = 6 \<Longrightarrow> e) \<Longrightarrow> (\<not> c \<Longrightarrow> state_0_ok la e b) \<Longrightarrow>
   state_0_ok la e (if c then ADVANCE n else b)"
  by (simp add: state_0_ok_def)

lemma state_0_ok_SKIP:
  "(c \<Longrightarrow> \<not> e \<and> is_space la) \<Longrightarrow> (\<not> c \<Longrightarrow> state_0_ok la e b) \<Longrightarrow>
   state_0_ok la e (if c then SKIP n else b)"
  by (simp add: state_0_ok_def)

lemma state_0_ok_map:
  "list_all (\<lambda>(k, n). n \<noteq> 6) tbl \<Longrightarrow> state_0_ok la e r \<Longrightarrow>
   state_0_ok la e (case ADVANCE_MAP tbl la of Some n \<Rightarrow> ADVANCE n | None \<Rightarrow> r)"
  by (auto simp: ADVANCE_MAP_def state_0_ok_def list_all_iff split: option.splits
      dest!: map_of_SomeD)

lemma state_0_ok_END: "state_0_ok la e END_STATE"
  by (simp add: state_0_ok_def)

lemma case_0_ok: "state_0_ok la e (snd (case_0 la e))"
  unfolding case_0_def snd_conv
  apply (intro state_0_ok_ADVANCE state_0_ok_SKIP state_0_ok_map state_0_ok_END)
  apply (simp_all add: is_space_def)
  done

lemma case_0_SKIP: "snd (case_0 la e) = SKIP n \<Longrightarrow> \<not> e \<and> is_space la"
  using case_0_ok [of la e] by (simp add: state_0_ok_def)

lemma case_0_ADVANCE_6: "snd (case_0 la e) = ADVANCE 6 \<Longrightarrow> e"
  using case_0_ok [of la e] by (simp add: state_0_ok_def)

section \<open>The invariant of the loop\<close>

text \<open>
  While \<^verbatim>\<open>ts_lex\<close> runs on an input from a cursor: the lexer reads the input in order;
  everything between the cursor and the start of the token is skipped whitespace; in state 0
  nothing has been consumed into the token and nothing accepted; in every other state but 6
  the token is not empty; state 6 is entered at the end of the input with an empty token;
  and an accepted token is not empty, ends at or before the position and is not the end symbol.
\<close>

definition lexer_inv :: "int list \<Rightarrow> nat \<Rightarrow> TSLexer \<Rightarrow> bool \<Rightarrow> nat \<Rightarrow> bool" where
  "lexer_inv input cursor lexer result state =
     (unread lexer = drop (position lexer) input \<and> position lexer \<le> length input \<and>
      cursor \<le> token_start lexer \<and> token_start lexer \<le> position lexer \<and>
      (\<forall>i. cursor \<le> i \<and> i < token_start lexer \<longrightarrow> is_space (input ! i)) \<and>
      (state = 0 \<longrightarrow> token_start lexer = position lexer \<and> \<not> result) \<and>
      (state \<noteq> 0 \<and> state \<noteq> 6 \<longrightarrow> token_start lexer < position lexer) \<and>
      (state = 6 \<longrightarrow> unread lexer = [] \<and> token_start lexer = position lexer \<and> \<not> result) \<and>
      (result \<longrightarrow> token_start lexer < token_end lexer \<and> token_end lexer \<le> position lexer \<and>
         result_symbol lexer \<noteq> ts_builtin_sym_end))"

definition lexer_post :: "int list \<Rightarrow> nat \<Rightarrow> bool \<Rightarrow> TSLexer \<Rightarrow> bool" where
  "lexer_post input cursor result lexer =
     (cursor \<le> token_start lexer \<and> token_start lexer \<le> length input \<and>
      (\<forall>i. cursor \<le> i \<and> i < token_start lexer \<longrightarrow> is_space (input ! i)) \<and>
      (result \<longrightarrow>
         (if result_symbol lexer = ts_builtin_sym_end
          then token_start lexer = length input \<and> token_end lexer = length input
          else token_start lexer < token_end lexer \<and> token_end lexer \<le> length input)))"

lemma lexer_inv_None:
  assumes "lexer_inv input cursor lexer result state"
  shows "lexer_post input cursor False lexer"
  using assms by (auto simp: lexer_inv_def lexer_post_def)

lemma drop_nil_length: "drop p xs = [] \<Longrightarrow> p \<le> length xs \<Longrightarrow> p = length xs"
  by simp

lemma lexer_inv_END:
  assumes inv: "lexer_inv input cursor lexer result state"
    and ok: "case_ok state (accepted, END_STATE)"
    and acc: "ACCEPT_TOKEN accepted (result, lexer) = (result', lexer')"
  shows "lexer_post input cursor result' lexer'"
proof (cases accepted)
  case None
  with acc have "result' = result" "lexer' = lexer" by (simp_all add: ACCEPT_TOKEN_def)
  with inv show ?thesis by (auto simp: lexer_inv_def lexer_post_def)
next
  case (Some sym)
  with acc have r: "result' = True"
    and l: "lexer' = lexer\<lparr>result_symbol := sym, token_end := position lexer\<rparr>"
    by (auto simp: ACCEPT_TOKEN_def mark_end_def)
  from ok Some have s0: "state \<noteq> 0" and s6: "(sym = ts_builtin_sym_end) = (state = 6)"
    by (auto simp: case_ok_def accept_ok_def)
  show ?thesis
  proof (cases "state = 6")
    case True
    with inv have "position lexer = length input" "token_start lexer = position lexer"
      by (auto simp: lexer_inv_def)
    with inv True s6 show ?thesis by (auto simp: lexer_inv_def lexer_post_def r l)
  next
    case False
    with inv s0 s6 show ?thesis by (auto simp: lexer_inv_def lexer_post_def r l)
  qed
qed

lemma advance_Cons:
  "unread lexer = c # cs \<Longrightarrow>
   advance lexer skip =
     lexer\<lparr>unread := cs, position := position lexer + 1,
           token_start := (if skip then position lexer + 1 else token_start lexer)\<rparr>"
  by (simp add: advance_def)

lemma advance_Nil: "unread lexer = [] \<Longrightarrow> advance lexer skip = lexer"
  by (simp add: advance_def)

lemma lex_loop_unfold:
  assumes "ts_lex_switch state (lookahead_of lexer) (eof_of lexer) = Some (accepted, nxt)"
    and "ACCEPT_TOKEN accepted (result, lexer) = (result', lexer')"
  shows "lex_loop lexer result state =
     (case nxt of
        ADVANCE state_value \<Rightarrow> lex_loop (advance lexer' False) result' state_value
      | SKIP state_value \<Rightarrow> lex_loop (advance lexer' True) result' state_value
      | END_STATE \<Rightarrow> (result', lexer'))"
  by (subst lex_loop.simps) (simp add: assms)

lemma lex_loop_default:
  assumes "ts_lex_switch state (lookahead_of lexer) (eof_of lexer) = None"
  shows "lex_loop lexer result state = (False, lexer)"
  by (subst lex_loop.simps) (simp add: assms)

lemma lexer_inv_ADVANCE:
  assumes inv: "lexer_inv input cursor lexer result state"
    and sw: "ts_lex_switch state (lookahead_of lexer) (eof_of lexer) = Some (accepted, ADVANCE n)"
    and acc: "ACCEPT_TOKEN accepted (result, lexer) = (result', lexer')"
  shows "lexer_inv input cursor (advance lexer' False) result' n"
proof -
  from sw have ok: "case_ok state (accepted, ADVANCE n)" by (rule switch_ok)
  then have n0: "n \<noteq> 0" and n6: "n = 6 \<longrightarrow> state = 0" and s6: "state \<noteq> 6"
    and a0: "state = 0 \<longrightarrow> accepted = None"
    and aend: "accepted \<noteq> Some ts_builtin_sym_end"
    by (auto simp: case_ok_def next_ok_def accept_ok_def)
  have mid: "unread lexer' = unread lexer \<and> position lexer' = position lexer \<and>
      token_start lexer' = token_start lexer \<and>
      (result' \<longrightarrow> token_start lexer' < token_end lexer' \<and> token_end lexer' \<le> position lexer' \<and>
         result_symbol lexer' \<noteq> ts_builtin_sym_end) \<and>
      (state = 0 \<longrightarrow> \<not> result')"
  proof (cases accepted)
    case None
    with acc have "result' = result" "lexer' = lexer" by (simp_all add: ACCEPT_TOKEN_def)
    with inv show ?thesis by (auto simp: lexer_inv_def)
  next
    case (Some sym)
    with acc have "result' = True"
      and "lexer' = lexer\<lparr>result_symbol := sym, token_end := position lexer\<rparr>"
      by (auto simp: ACCEPT_TOKEN_def mark_end_def)
    with inv a0 aend s6 Some show ?thesis by (auto simp: lexer_inv_def)
  qed
  show ?thesis
  proof (cases "unread lexer")
    case Nil
    with sw have "ts_lex_switch state 0 True = Some (accepted, ADVANCE n)"
      by (simp add: lookahead_of_def eof_of_def)
    from switch_at_eof [OF this] have "n = 6" by simp
    with n6 have "state = 0" by simp
    moreover from mid Nil have "advance lexer' False = lexer'" by (simp add: advance_Nil)
    ultimately show ?thesis using inv mid Nil \<open>n = 6\<close>
      by (auto simp: lexer_inv_def)
  next
    case (Cons c cs)
    have "n \<noteq> 6"
    proof
      assume "n = 6"
      with n6 have "state = 0" by simp
      with sw have "snd (case_0 (lookahead_of lexer) (eof_of lexer)) = ADVANCE n"
        by (simp add: switch_0)
      with \<open>n = 6\<close> have "eof_of lexer" by (auto dest: case_0_ADVANCE_6)
      with Cons show False by (simp add: eof_of_def)
    qed
    from inv Cons have d: "drop (position lexer) input = c # cs" by (simp add: lexer_inv_def)
    then have lt: "position lexer < length input"
      by (metis drop_all list.distinct(1) not_le)
    from d have dd: "drop (Suc (position lexer)) input = cs"
      by (metis drop_Suc tl_drop list.sel(3))
    from mid Cons have adv: "advance lexer' False =
        lexer'\<lparr>unread := cs, position := position lexer' + 1,
               token_start := token_start lexer'\<rparr>"
      by (simp add: advance_Cons)
    from inv mid n0 \<open>n \<noteq> 6\<close> lt dd show ?thesis
      unfolding adv by (auto simp: lexer_inv_def)
  qed
qed

lemma lexer_inv_SKIP:
  assumes inv: "lexer_inv input cursor lexer result state"
    and sw: "ts_lex_switch state (lookahead_of lexer) (eof_of lexer) = Some (accepted, SKIP n)"
    and acc: "ACCEPT_TOKEN accepted (result, lexer) = (result', lexer')"
  shows "lexer_inv input cursor (advance lexer' True) result' n"
proof -
  from sw have ok: "case_ok state (accepted, SKIP n)" by (rule switch_ok)
  then have s: "state = 0" and n: "n = 0" and a: "accepted = None"
    by (auto simp: case_ok_def next_ok_def accept_ok_def)
  from a acc have same: "result' = result" "lexer' = lexer" by (simp_all add: ACCEPT_TOKEN_def)
  from sw s have "snd (case_0 (lookahead_of lexer) (eof_of lexer)) = SKIP n"
    by (simp add: switch_0)
  then have ne: "\<not> eof_of lexer" and sp: "is_space (lookahead_of lexer)"
    by (auto dest: case_0_SKIP)
  from ne obtain c cs where Cons: "unread lexer = c # cs"
    by (cases "unread lexer") (auto simp: eof_of_def)
  with sp have spc: "is_space c" by (simp add: lookahead_of_def)
  from inv Cons have d: "drop (position lexer) input = c # cs" by (simp add: lexer_inv_def)
  then have lt: "position lexer < length input"
    by (metis drop_all list.distinct(1) not_le)
  from d have dd: "drop (Suc (position lexer)) input = cs"
    by (metis drop_Suc tl_drop list.sel(3))
  from d lt have nth: "input ! position lexer = c"
    by (metis Cons_nth_drop_Suc list.inject)
  have gap: "is_space (input ! i)" if "cursor \<le> i" "i < Suc (position lexer)" for i
  proof (cases "i < token_start lexer")
    case True
    with inv that show ?thesis by (auto simp: lexer_inv_def)
  next
    case False
    with inv s that have "i = position lexer" by (auto simp: lexer_inv_def)
    with nth spc show ?thesis by simp
  qed
  from same Cons have adv: "advance lexer' True =
      lexer\<lparr>unread := cs, position := position lexer + 1,
            token_start := position lexer + 1\<rparr>"
    by (simp add: advance_Cons)
  from inv s n same lt dd gap show ?thesis
    unfolding adv by (auto simp: lexer_inv_def)
qed

lemma lex_loop_post:
  assumes "lexer_inv input cursor lexer result state"
    and "lex_loop lexer result state = (b, lexer_out)"
  shows "lexer_post input cursor b lexer_out"
  using assms
proof (induction lexer result state arbitrary: b lexer_out rule: lex_loop.induct)
  case (1 lexer result state)
  show ?case
  proof (cases "ts_lex_switch state (lookahead_of lexer) (eof_of lexer)")
    case None
    with "1.prems"(2) have "b = False" "lexer_out = lexer" by (simp_all add: lex_loop_default)
    with "1.prems"(1) show ?thesis by (simp add: lexer_inv_None)
  next
    case (Some x2)
    obtain accepted nxt where x2: "x2 = (accepted, nxt)" by (cases x2)
    obtain result' lexer' where acc: "ACCEPT_TOKEN accepted (result, lexer) = (result', lexer')"
      by (cases "ACCEPT_TOKEN accepted (result, lexer)")
    note sw = Some [unfolded x2]
    show ?thesis
    proof (cases nxt)
      case (ADVANCE n)
      from "1.prems"(2) ADVANCE
      have run: "lex_loop (advance lexer' False) result' n = (b, lexer_out)"
        by (simp add: lex_loop_unfold [OF sw acc])
      from "1.prems"(1) sw acc ADVANCE
      have "lexer_inv input cursor (advance lexer' False) result' n"
        by (auto intro: lexer_inv_ADVANCE)
      with run show ?thesis
        using "1.IH"(1) [OF Some x2 [symmetric] acc [symmetric] ADVANCE] by simp
    next
      case (SKIP n)
      from "1.prems"(2) SKIP
      have run: "lex_loop (advance lexer' True) result' n = (b, lexer_out)"
        by (simp add: lex_loop_unfold [OF sw acc])
      from "1.prems"(1) sw acc SKIP
      have "lexer_inv input cursor (advance lexer' True) result' n"
        by (auto intro: lexer_inv_SKIP)
      with run show ?thesis
        using "1.IH"(2) [OF Some x2 [symmetric] acc [symmetric] SKIP] by simp
    next
      case END_STATE
      from "1.prems"(2) END_STATE have "b = result'" "lexer_out = lexer'"
        by (simp_all add: lex_loop_unfold [OF sw acc])
      moreover from sw END_STATE have "case_ok state (accepted, END_STATE)"
        by (auto dest: switch_ok)
      ultimately show ?thesis using "1.prems"(1) acc by (auto intro: lexer_inv_END)
    qed
  qed
qed

section \<open>What a scan returns\<close>

lemma start_lexer_inv:
  "cursor \<le> length input \<Longrightarrow> lexer_inv input cursor (start_lexer input cursor) False 0"
  by (auto simp: lexer_inv_def start_lexer_def)

lemma ts_lex_post:
  assumes "cursor \<le> length input" and "ts_lex (start_lexer input cursor) 0 = (b, lexer)"
  shows "lexer_post input cursor b lexer"
  using start_lexer_inv [OF assms(1)] assms(2) unfolding ts_lex_def by (rule lex_loop_post)

lemma scan_one_Inr:
  assumes "cursor \<le> length input" and "scan_one input cursor = Inr (tok, cursor')"
  shows "cursor \<le> tok_start tok"
    and "\<forall>i. cursor \<le> i \<and> i < tok_start tok \<longrightarrow> is_space (input ! i)"
    and "tok_end tok = cursor'" and "cursor' \<le> length input"
    and "tok_text tok = slice input (tok_start tok) (tok_end tok)"
    and "tok_kind tok = ts_builtin_sym_end \<Longrightarrow> tok_start tok = length input \<and> cursor' = length input"
    and "tok_kind tok \<noteq> ts_builtin_sym_end \<Longrightarrow> tok_start tok < cursor'"
proof -
  obtain b lexer where run: "ts_lex (start_lexer input cursor) 0 = (b, lexer)"
    by (cases "ts_lex (start_lexer input cursor) 0")
  with assms(2) have b: "b" and tok: "tok = \<lparr>tok_kind = result_symbol lexer,
      tok_start = token_start lexer, tok_end = token_end lexer,
      tok_text = slice input (token_start lexer) (token_end lexer)\<rparr>"
    and c: "cursor' = token_end lexer"
    by (auto simp: scan_one_def split: if_splits bool.splits)
  from ts_lex_post [OF assms(1) run] b have post: "lexer_post input cursor True lexer" by simp
  show "cursor \<le> tok_start tok"
    and "\<forall>i. cursor \<le> i \<and> i < tok_start tok \<longrightarrow> is_space (input ! i)"
    and "tok_end tok = cursor'" and "cursor' \<le> length input"
    and "tok_text tok = slice input (tok_start tok) (tok_end tok)"
    and "tok_kind tok = ts_builtin_sym_end \<Longrightarrow> tok_start tok = length input \<and> cursor' = length input"
    and "tok_kind tok \<noteq> ts_builtin_sym_end \<Longrightarrow> tok_start tok < cursor'"
    using post by (auto simp: lexer_post_def tok c split: if_splits)
qed

text \<open>A cursor beyond the input is at the end of the input.\<close>

lemma case_0_eof: "case_0 0 True = (None, ADVANCE 6)"
  by (simp add: case_0_def)

lemma lex_loop_eof:
  assumes "unread lexer = []"
  shows "lex_loop lexer False 0 =
     (True, lexer\<lparr>result_symbol := ts_builtin_sym_end, token_end := position lexer\<rparr>)"
proof -
  have la: "lookahead_of lexer = 0" "eof_of lexer" using assms
    by (simp_all add: lookahead_of_def eof_of_def)
  have "lex_loop lexer False 0 = lex_loop lexer False 6"
    using assms by (subst lex_loop.simps) (simp add: la switch_0 case_0_eof ACCEPT_TOKEN_def advance_Nil)
  also have "\<dots> = (True, lexer\<lparr>result_symbol := ts_builtin_sym_end, token_end := position lexer\<rparr>)"
    by (subst lex_loop.simps) (simp add: switch_6 ACCEPT_TOKEN_def mark_end_def)
  finally show ?thesis .
qed

lemma scan_one_beyond:
  assumes "length input \<le> cursor"
  shows "scan_one input cursor =
     Inr (\<lparr>tok_kind = ts_builtin_sym_end, tok_start = cursor, tok_end = cursor, tok_text = []\<rparr>,
          cursor)"
  using assms by (simp add: scan_one_def ts_lex_def lex_loop_eof start_lexer_def slice_def)

lemma scan_one_progress:
  assumes "scan_one input cursor = Inr (tok, cursor')" and "tok_kind tok \<noteq> ts_builtin_sym_end"
  shows "cursor < cursor' \<and> tok_start tok < tok_end tok \<and> cursor' \<le> length input"
proof (cases "cursor \<le> length input")
  case True
  from scan_one_Inr(1,3,4,7) [OF True assms(1)] assms(2) show ?thesis by auto
next
  case False
  with assms show ?thesis by (auto simp: scan_one_beyond)
qed

section \<open>What the Item Sequencer returns\<close>

text \<open>
  The tokens scanned from an offset on: each starts at or after the end of the one before,
  only whitespace lies between them, the text of a token is its span of the input, only the
  end symbol has an empty span, and the end symbol is last and lies at the end of the input.
\<close>

fun well_spaced :: "int list \<Rightarrow> nat \<Rightarrow> token list \<Rightarrow> bool" where
  "well_spaced input start [] = True"
| "well_spaced input start (t # ts) =
     (start \<le> tok_start t \<and> list_all is_space (slice input start (tok_start t)) \<and>
      tok_start t \<le> tok_end t \<and> tok_end t \<le> length input \<and>
      tok_text t = slice input (tok_start t) (tok_end t) \<and>
      (if tok_kind t = ts_builtin_sym_end then ts = [] \<and> tok_start t = length input
       else tok_start t < tok_end t) \<and>
      well_spaced input (tok_end t) ts)"

lemma list_all_slice:
  assumes "\<forall>i. a \<le> i \<and> i < b \<longrightarrow> P (input ! i)" and "b \<le> length input"
  shows "list_all P (slice input a b)"
  using assms by (auto simp: slice_def list_all_length)

lemma scan_one_well_spaced:
  assumes "cursor \<le> length input" and "scan_one input cursor = Inr (tok, cursor')"
    and "well_spaced input cursor' ts"
    and "tok_kind tok = ts_builtin_sym_end \<Longrightarrow> ts = []"
  shows "well_spaced input cursor (tok # ts)"
proof -
  note f = scan_one_Inr [OF assms(1,2)]
  have "tok_start tok \<le> length input" using f(3,4,6,7) by (cases "tok_kind tok = ts_builtin_sym_end") auto
  with f(2) have "list_all is_space (slice input cursor (tok_start tok))"
    by (intro list_all_slice) auto
  with f assms(3,4) show ?thesis by (cases "tok_kind tok = ts_builtin_sym_end") auto
qed

definition ends_well :: "token list \<Rightarrow> LexError option \<Rightarrow> bool" where
  "ends_well toks err =
     (case err of
        None \<Rightarrow> toks \<noteq> [] \<and> tok_kind (last toks) = ts_builtin_sym_end
      | Some e \<Rightarrow> list_all (\<lambda>t. tok_kind t \<noteq> ts_builtin_sym_end) toks)"

lemma tokenize_from_total:
  assumes "cursor \<le> length input"
  shows "\<exists>toks err. tokenize_from input cursor acc = Some (acc @ toks, err) \<and>
           well_spaced input cursor toks \<and> ends_well toks err"
  using assms
proof (induction "length input - cursor" arbitrary: cursor acc rule: less_induct)
  case less
  show ?case
  proof (cases "scan_one input cursor")
    case (Inl err)
    then have "tokenize_from input cursor acc = Some (acc @ [], Some err)"
      by (subst tokenize_from.simps) simp
    then show ?thesis by (fastforce simp: ends_well_def)
  next
    case (Inr p)
    obtain tok cursor' where p: "p = (tok, cursor')" by (cases p)
    note scan = Inr [unfolded p]
    note f = scan_one_Inr [OF less.prems scan]
    show ?thesis
    proof (cases "tok_kind tok = ts_builtin_sym_end")
      case True
      with scan have "tokenize_from input cursor acc = Some (acc @ [tok], None)"
        by (subst tokenize_from.simps) simp
      moreover have "well_spaced input cursor [tok]"
        by (rule scan_one_well_spaced [OF less.prems scan]) simp_all
      ultimately show ?thesis using True by (fastforce simp: ends_well_def)
    next
      case False
      with scan have unf: "tokenize_from input cursor acc = tokenize_from input cursor' (acc @ [tok])"
        by (subst tokenize_from.simps) simp
      from f(1,7) False have "cursor < cursor'" by simp
      with f(4) have "length input - cursor' < length input - cursor" by simp
      from less.hyps [OF this f(4), of "acc @ [tok]"]
      obtain toks err where r: "tokenize_from input cursor' (acc @ [tok]) = Some ((acc @ [tok]) @ toks, err)"
        and w: "well_spaced input cursor' toks" and e: "ends_well toks err"
        by blast
      have "well_spaced input cursor (tok # toks)"
        by (rule scan_one_well_spaced [OF less.prems scan w]) (simp add: False)
      moreover have "ends_well (tok # toks) err"
        using e False by (auto simp: ends_well_def split: option.splits)
      ultimately show ?thesis using unf r by fastforce
    qed
  qed
qed

lemma tokenize_total:
  "\<exists>toks err. tokenize input = Some (toks, err) \<and> well_spaced input 0 toks \<and> ends_well toks err"
  using tokenize_from_total [of 0 input "[]"] by (simp add: tokenize_def)

section \<open>Evaluating the lexer on concrete inputs\<close>

lemmas lex_eval =
  lex_loop.simps ts_lex_def ts_lex_switch_def ts_lex_cases_def case_defs
  ADVANCE_MAP_def ACCEPT_TOKEN_def lookahead_of_def eof_of_def advance_def mark_end_def
  start_lexer_def scan_one_def slice_def lex_error_def

section \<open>Walking through the states\<close>

text \<open>One pass through the \<^verbatim>\<open>switch\<close>, at a character and at the end of the input.\<close>

lemma lex_loop_Cons:
  assumes "unread lexer = c # cs"
  shows "lex_loop lexer result state =
     (case ts_lex_switch state c False of
        None \<Rightarrow> (False, lexer)
      | Some (accepted, nxt) \<Rightarrow>
          (case ACCEPT_TOKEN accepted (result, lexer) of
             (result', lexer') \<Rightarrow>
               (case nxt of
                  ADVANCE n \<Rightarrow>
                    lex_loop (lexer'\<lparr>unread := cs, position := position lexer + 1\<rparr>) result' n
                | SKIP n \<Rightarrow>
                    lex_loop (lexer'\<lparr>unread := cs, position := position lexer + 1,
                                     token_start := position lexer + 1\<rparr>) result' n
                | END_STATE \<Rightarrow> (result', lexer'))))"
  by (subst lex_loop.simps)
    (auto simp: assms lookahead_of_def eof_of_def advance_def ACCEPT_TOKEN_def mark_end_def
      split: option.splits next_step.splits)

lemma lex_loop_Nil:
  assumes "unread lexer = []"
  shows "lex_loop lexer result state =
     (case ts_lex_switch state 0 True of
        None \<Rightarrow> (False, lexer)
      | Some (accepted, nxt) \<Rightarrow>
          (case ACCEPT_TOKEN accepted (result, lexer) of
             (result', lexer') \<Rightarrow>
               (case nxt of
                  ADVANCE n \<Rightarrow> lex_loop lexer' result' n
                | SKIP n \<Rightarrow> lex_loop lexer' result' n
                | END_STATE \<Rightarrow> (result', lexer'))))"
  by (subst lex_loop.simps)
    (auto simp: assms lookahead_of_def eof_of_def advance_def ACCEPT_TOKEN_def mark_end_def
      split: option.splits next_step.splits)

lemma switch_1: "ts_lex_switch (Suc 0) la e = Some (case_1 la e)"
  and switch_2: "ts_lex_switch 2 la e = Some (case_2 la e)"
  and switch_3: "ts_lex_switch 3 la e = Some (case_3 la e)"
  and switch_4: "ts_lex_switch 4 la e = Some (case_4 la e)"
  and switch_5: "ts_lex_switch 5 la e = Some (case_5 la e)"
  and switch_7: "ts_lex_switch 7 la e = Some (case_7 la e)"
  and switch_8: "ts_lex_switch 8 la e = Some (case_8 la e)"
  and switch_10: "ts_lex_switch 10 la e = Some (case_10 la e)"
  and switch_15: "ts_lex_switch 15 la e = Some (case_15 la e)"
  and switch_18: "ts_lex_switch 18 la e = Some (case_18 la e)"
  by (simp_all add: ts_lex_switch_def ts_lex_cases_def)

text \<open>What state 0 does with the first character of a token.\<close>

definition is_digit :: "int \<Rightarrow> bool" where
  "is_digit c = (48 \<le> c \<and> c \<le> 57)"

lemma is_space_cases:
  "is_space c \<Longrightarrow> c = 9 \<or> c = 10 \<or> c = 11 \<or> c = 12 \<or> c = 13 \<or> c = 32"
  by (simp add: is_space_def) arith

lemma is_digit_cases:
  "is_digit c \<Longrightarrow>
   c = 48 \<or> c = 49 \<or> c = 50 \<or> c = 51 \<or> c = 52 \<or> c = 53 \<or> c = 54 \<or> c = 55 \<or> c = 56 \<or> c = 57"
  by (simp add: is_digit_def) arith

lemma case_0_space: "is_space c \<Longrightarrow> case_0 c False = (None, SKIP 0)"
  by (drule is_space_cases) (elim disjE; hypsubst; simp add: case_0_def ADVANCE_MAP_def)

lemma case_0_digit: "is_digit c \<Longrightarrow> case_0 c False = (None, ADVANCE 10)"
  by (drule is_digit_cases) (elim disjE; hypsubst; simp add: case_0_def ADVANCE_MAP_def)

lemma case_0_chars:
  "case_0 34 False = (None, ADVANCE 2)"
  "case_0 35 False = (None, ADVANCE 1)"
  "case_0 40 False = (None, ADVANCE 18)"
  "case_0 45 False = (None, ADVANCE 15)"
  "case_0 46 False = (None, END_STATE)"
  by (simp_all add: case_0_def ADVANCE_MAP_def)

text \<open>State 0 skips a run of whitespace and moves the start of the token along.\<close>

lemma lex_loop_skip:
  assumes "list_all is_space ws" and "unread lexer = ws @ rest"
    and "token_start lexer = position lexer"
  shows "lex_loop lexer False 0 =
     lex_loop (lexer\<lparr>unread := rest, position := position lexer + length ws,
                     token_start := position lexer + length ws\<rparr>) False 0"
  using assms
proof (induction ws arbitrary: lexer)
  case Nil
  then show ?case by (cases lexer) simp
next
  case (Cons c ws)
  let ?l = "lexer\<lparr>unread := ws @ rest, position := position lexer + 1,
                   token_start := position lexer + 1\<rparr>"
  from Cons.prems have c: "is_space c" and u: "unread lexer = c # (ws @ rest)" by simp_all
  have "lex_loop lexer False 0 = lex_loop ?l False 0"
    by (subst lex_loop_Cons [OF u]) (simp add: switch_0 case_0_space [OF c] ACCEPT_TOKEN_def)
  also have "\<dots> = lex_loop (?l\<lparr>unread := rest, position := position ?l + length ws,
                     token_start := position ?l + length ws\<rparr>) False 0"
    using Cons.prems by (intro Cons.IH) simp_all
  finally show ?case by simp
qed

lemma drop_append_more: "drop n xs = ys @ zs \<Longrightarrow> drop (n + length ys) xs = zs"
  by (metis add.commute append_eq_conv_conj drop_drop)

lemma slice_of_drop:
  "drop n xs = ys @ zs \<Longrightarrow> slice xs (n + length ys) (n + length ys + k) = take k zs"
  by (simp add: slice_def drop_append_more)

text \<open>
  A scan at a cursor in front of whitespace starts the token after the whitespace.
\<close>

lemma ts_lex_skip:
  assumes "drop cursor input = ws @ rest" and "list_all is_space ws"
  shows "ts_lex (start_lexer input cursor) 0 =
     lex_loop \<lparr>unread = rest, position = cursor + length ws, token_start = cursor + length ws,
               token_end = cursor, result_symbol = ts_builtin_sym_end\<rparr> False 0"
  unfolding ts_lex_def
  by (subst lex_loop_skip [OF assms(2), where rest = rest])
    (simp_all add: start_lexer_def assms(1))

text \<open>From a run of the loop behind the skipped whitespace to the result of the scan.\<close>

lemma scan_one_token:
  assumes "drop cursor input = ws @ rest" and "list_all is_space ws"
    and "lex_loop \<lparr>unread = rest, position = cursor + length ws,
                   token_start = cursor + length ws, token_end = cursor,
                   result_symbol = ts_builtin_sym_end\<rparr> False 0 = (True, lexer)"
    and "token_start lexer = cursor + length ws"
    and "token_end lexer = cursor + length ws + n"
  shows "scan_one input cursor =
     Inr (\<lparr>tok_kind = result_symbol lexer, tok_start = cursor + length ws,
           tok_end = cursor + length ws + n, tok_text = take n rest\<rparr>,
          cursor + length ws + n)"
  using assms(3-5) slice_of_drop [OF assms(1), of n]
  by (simp add: scan_one_def ts_lex_skip [OF assms(1,2)])

lemma scan_one_error:
  assumes "drop cursor input = ws @ rest" and "list_all is_space ws"
    and "lex_loop \<lparr>unread = rest, position = cursor + length ws,
                   token_start = cursor + length ws, token_end = cursor,
                   result_symbol = ts_builtin_sym_end\<rparr> False 0 = (False, lexer)"
    and "token_start lexer = cursor + length ws"
  shows "fst (ts_lex (start_lexer input cursor) 0) = False"
    and "scan_one input cursor = Inl (lex_error input (cursor + length ws))"
  using assms(3,4) by (simp_all add: scan_one_def ts_lex_skip [OF assms(1,2)])

lemma lookahead_rest:
  "rest = [] \<or> P (hd rest) \<Longrightarrow> P 0 \<Longrightarrow> P (case rest of [] \<Rightarrow> 0 | c # cs \<Rightarrow> c)"
  by (cases rest) auto

subsection \<open>States 1 and 8: the line comment\<close>

lemma lex_loop_1_stop:
  assumes "unread lexer = rest" and "rest = [] \<or> hd rest \<noteq> 33"
  shows "lex_loop lexer result 1 = (result, lexer)"
proof (cases rest)
  case Nil
  with assms(1) have u: "unread lexer = []" by simp
  show ?thesis
    by (subst lex_loop_Nil [OF u]) (simp add: switch_1 case_1_def ACCEPT_TOKEN_def)
next
  case (Cons c cs)
  with assms have u: "unread lexer = c # cs" and c: "c \<noteq> 33" by simp_all
  show ?thesis
    by (subst lex_loop_Cons [OF u]) (simp add: c switch_1 case_1_def ACCEPT_TOKEN_def)
qed

text \<open>State 8 accepts a comment wherever it stops, and it stops only there.\<close>

lemma lex_loop_8_accepts:
  assumes "unread lexer = rest"
  shows "\<exists>lexer'. lex_loop lexer result 8 = (True, lexer') \<and>
           result_symbol lexer' = sym_comment \<and> token_start lexer' = token_start lexer \<and>
           position lexer \<le> token_end lexer'"
  using assms
proof (induction rest arbitrary: lexer result)
  case Nil
  then have u: "unread lexer = []" by simp
  show ?case
    by (subst lex_loop_Nil [OF u]) (simp add: switch_8 case_8_def ACCEPT_TOKEN_def mark_end_def)
next
  case (Cons c cs)
  let ?l = "lexer\<lparr>result_symbol := sym_comment, token_end := position lexer, unread := cs,
                   position := position lexer + 1\<rparr>"
  note u = Cons.prems
  show ?case
  proof (cases "c \<noteq> 0 \<and> c \<noteq> 10")
    case True
    then have "lex_loop lexer result 8 = lex_loop ?l True 8"
      by (subst lex_loop_Cons [OF u]) (simp add: switch_8 case_8_def ACCEPT_TOKEN_def mark_end_def)
    moreover from Cons.IH [of ?l True] obtain lexer' where
      "lex_loop ?l True 8 = (True, lexer')" "result_symbol lexer' = sym_comment"
      "token_start lexer' = token_start ?l" "position ?l \<le> token_end lexer'"
      by auto
    ultimately show ?thesis by auto
  next
    case False
    then show ?thesis
      by (subst lex_loop_Cons [OF u])
        (auto simp: switch_8 case_8_def ACCEPT_TOKEN_def mark_end_def)
  qed
qed

text \<open>Up to the first newline or NUL character, or the end of the input.\<close>

lemma lex_loop_8_line:
  assumes "list_all (\<lambda>c. c \<noteq> 0 \<and> c \<noteq> 10) body" and "unread lexer = body @ rest"
    and "rest = [] \<or> hd rest = 10 \<or> hd rest = 0"
  shows "lex_loop lexer result 8 =
     (True, lexer\<lparr>result_symbol := sym_comment, unread := rest,
                  position := position lexer + length body,
                  token_end := position lexer + length body\<rparr>)"
  using assms(1,2)
proof (induction body arbitrary: lexer result)
  case Nil
  show ?case
  proof (cases rest)
    case Nil
    with Nil.prems have u: "unread lexer = []" by simp
    show ?thesis
      by (subst lex_loop_Nil [OF u])
        (simp add: Nil u switch_8 case_8_def ACCEPT_TOKEN_def mark_end_def)
  next
    case (Cons c cs)
    with assms(3) Nil.prems have u: "unread lexer = c # cs" and c: "c = 10 \<or> c = 0" by auto
    from c show ?thesis
      by (subst lex_loop_Cons [OF u])
        (auto simp: Cons u switch_8 case_8_def ACCEPT_TOKEN_def mark_end_def)
  qed
next
  case (Cons c body)
  let ?l = "lexer\<lparr>result_symbol := sym_comment, token_end := position lexer,
                   unread := body @ rest, position := position lexer + 1\<rparr>"
  from Cons.prems have c: "c \<noteq> 0" "c \<noteq> 10" and u: "unread lexer = c # (body @ rest)"
    and b: "list_all (\<lambda>c. c \<noteq> 0 \<and> c \<noteq> 10) body"
    by simp_all
  have "lex_loop lexer result 8 = lex_loop ?l True 8"
    using c by (subst lex_loop_Cons [OF u])
      (simp_all add: switch_8 case_8_def ACCEPT_TOKEN_def mark_end_def)
  also have "\<dots> = (True, ?l\<lparr>result_symbol := sym_comment, unread := rest,
                  position := position ?l + length body,
                  token_end := position ?l + length body\<rparr>)"
    by (rule Cons.IH [OF b]) simp
  finally show ?case by simp
qed

subsection \<open>State 2: the string\<close>


subsection \<open>States 10 and 5: the number\<close>

lemma lex_loop_10_dot:
  assumes "list_all is_digit ds" and "unread lexer = ds @ 46 # rest"
    and "rest = [] \<or> \<not> is_digit (hd rest)"
  shows "lex_loop lexer result 10 =
     (True, lexer\<lparr>result_symbol := sym_number, unread := rest,
                  position := position lexer + length ds + 1,
                  token_end := position lexer + length ds\<rparr>)"
  using assms(1,2)
proof (induction ds arbitrary: lexer result)
  case Nil
  let ?l = "lexer\<lparr>result_symbol := sym_number, token_end := position lexer,
                   unread := rest, position := position lexer + 1\<rparr>"
  from Nil.prems have u: "unread lexer = 46 # rest" by simp
  have "lex_loop lexer result 10 = lex_loop ?l True 5"
    by (subst lex_loop_Cons [OF u]) (simp add: switch_10 case_10_def ACCEPT_TOKEN_def mark_end_def)
  also have "\<dots> = (True, ?l)"
  proof (cases rest)
    case Nil
    then have u: "unread ?l = []" by simp
    show ?thesis
      by (subst lex_loop_Nil [OF u]) (simp add: switch_5 case_5_def ACCEPT_TOKEN_def)
  next
    case (Cons c cs)
    with assms(3) have c: "\<not> (48 \<le> c \<and> c \<le> 57)" and u: "unread ?l = c # cs"
      by (simp_all add: is_digit_def)
    show ?thesis
      by (subst lex_loop_Cons [OF u]) (simp add: c Cons switch_5 case_5_def ACCEPT_TOKEN_def)
  qed
  finally show ?case by simp
next
  case (Cons d ds)
  let ?l = "lexer\<lparr>result_symbol := sym_number, token_end := position lexer,
                   unread := ds @ 46 # rest, position := position lexer + 1\<rparr>"
  from Cons.prems have d: "is_digit d" and u: "unread lexer = d # (ds @ 46 # rest)"
    and ds: "list_all is_digit ds"
    by simp_all
  from d have "d \<noteq> 46" "48 \<le> d \<and> d \<le> 57" by (auto simp: is_digit_def)
  then have "lex_loop lexer result 10 = lex_loop ?l True 10"
    by (subst lex_loop_Cons [OF u])
      (simp_all add: switch_10 case_10_def ACCEPT_TOKEN_def mark_end_def)
  also have "\<dots> = (True, ?l\<lparr>result_symbol := sym_number, unread := rest,
                  position := position ?l + length ds + 1,
                  token_end := position ?l + length ds\<rparr>)"
    by (rule Cons.IH [OF ds]) simp
  finally show ?case by simp
qed

subsection \<open>States 18, 4, 3 and 7: the block comment\<close>

text \<open>No closing asterisk and parenthesis next to each other.\<close>

fun no_closer :: "int list \<Rightarrow> bool" where
  "no_closer (c # d # cs) = (\<not> (c = 42 \<and> d = 41) \<and> no_closer (d # cs))"
| "no_closer cs = True"

lemma lex_loop_block:
  assumes "no_closer (c0 # body)" and "list_all (\<lambda>c. c \<noteq> 0) body"
    and "unread lexer = body @ 42 # 41 # rest"
    and "state = (if c0 = 42 then 3 else 4)"
  shows "lex_loop lexer result state =
     (True, lexer\<lparr>result_symbol := sym_comment, unread := rest,
                  position := position lexer + length body + 2,
                  token_end := position lexer + length body + 2\<rparr>)"
  using assms
proof (induction body arbitrary: c0 lexer state)
  case Nil
  let ?l1 = "lexer\<lparr>unread := 41 # rest, position := position lexer + 1\<rparr>"
  let ?l2 = "lexer\<lparr>unread := rest, position := position lexer + 2\<rparr>"
  from Nil.prems have u: "unread lexer = 42 # 41 # rest" by simp
  have u1: "unread ?l1 = 41 # rest" by simp
  from Nil.prems(4) have "lex_loop lexer result state = lex_loop ?l1 result 3"
    by (subst lex_loop_Cons [OF u])
      (auto simp: switch_3 switch_4 case_3_def case_4_def ACCEPT_TOKEN_def)
  also have "\<dots> = lex_loop ?l2 result 7"
    by (subst lex_loop_Cons [OF u1]) (simp add: switch_3 case_3_def ACCEPT_TOKEN_def)
  also have "\<dots> = (True, ?l2\<lparr>result_symbol := sym_comment, token_end := position ?l2\<rparr>)"
  proof (cases rest)
    case Nil
    then have u2: "unread ?l2 = []" by simp
    show ?thesis
      by (subst lex_loop_Nil [OF u2]) (simp add: switch_7 case_7_def ACCEPT_TOKEN_def mark_end_def)
  next
    case (Cons c cs)
    then have u2: "unread ?l2 = c # cs" by simp
    show ?thesis
      by (subst lex_loop_Cons [OF u2]) (simp add: switch_7 case_7_def ACCEPT_TOKEN_def mark_end_def)
  qed
  finally show ?case by simp
next
  case (Cons c body)
  let ?l = "lexer\<lparr>unread := body @ 42 # 41 # rest, position := position lexer + 1\<rparr>"
  from Cons.prems have nc: "\<not> (c0 = 42 \<and> c = 41)" and n: "no_closer (c # body)"
    and c: "c \<noteq> 0" and b: "list_all (\<lambda>c. c \<noteq> 0) body"
    and u: "unread lexer = c # (body @ 42 # 41 # rest)"
    by simp_all
  from nc c Cons.prems(4)
  have "lex_loop lexer result state = lex_loop ?l result (if c = 42 then 3 else 4)"
    by (subst lex_loop_Cons [OF u])
      (auto simp: switch_3 switch_4 case_3_def case_4_def ACCEPT_TOKEN_def)
  also have "\<dots> = (True, ?l\<lparr>result_symbol := sym_comment, unread := rest,
                  position := position ?l + length body + 2,
                  token_end := position ?l + length body + 2\<rparr>)"
    by (rule Cons.IH [OF n b]) simp_all
  finally show ?case by simp
qed

section \<open>The number sign\<close>

text \<open>
  Claim C10. When the next character after the whitespace at the cursor is a number sign
  (code point 35) that is not immediately followed by an exclamation mark (33),
  \<^verbatim>\<open>ts_lex\<close> returns \<^verbatim>\<open>false\<close>: the Scanner produces no token and signals a
  lexical error at the offset of the number sign. A number sign begins a token only as the
  first character of the line-comment opener: followed by an exclamation mark it begins a
  comment.
\<close>

theorem number_sign_begins_only_a_comment:
  assumes "drop cursor input = ws @ 35 # rest" and "list_all is_space ws"
  shows "(rest = [] \<or> hd rest \<noteq> 33 \<longrightarrow>
            fst (ts_lex (start_lexer input cursor) 0) = False \<and>
            scan_one input cursor = Inl (NoMatchingRule (cursor + length ws))) \<and>
         (rest \<noteq> [] \<and> hd rest = 33 \<longrightarrow>
            (\<exists>tok cursor'. scan_one input cursor = Inr (tok, cursor') \<and>
               tok_kind tok = sym_comment \<and> tok_start tok = cursor + length ws))"
proof (intro conjI impI)
  let ?l = "\<lparr>unread = 35 # rest, position = cursor + length ws,
             token_start = cursor + length ws, token_end = cursor,
             result_symbol = ts_builtin_sym_end\<rparr>"
  let ?l1 = "?l\<lparr>unread := rest, position := position ?l + 1\<rparr>"
  have u: "unread ?l = 35 # rest" by simp
  have step: "lex_loop ?l False 0 = lex_loop ?l1 False 1"
    by (subst lex_loop_Cons [OF u]) (simp add: switch_0 case_0_chars ACCEPT_TOKEN_def)
  have err: "lex_error input (cursor + length ws) = NoMatchingRule (cursor + length ws)"
    by (simp add: lex_error_def drop_append_more [OF assms(1)])
  {
    assume stop: "rest = [] \<or> hd rest \<noteq> 33"
    have "lex_loop ?l1 False 1 = (False, ?l1)"
      by (rule lex_loop_1_stop [OF _ stop]) simp
    with step have run: "lex_loop ?l False 0 = (False, ?l1)" by simp
    from scan_one_error [OF assms run] err
    show "fst (ts_lex (start_lexer input cursor) 0) = False"
      and "scan_one input cursor = Inl (NoMatchingRule (cursor + length ws))"
      by simp_all
  }
  {
    assume "rest \<noteq> [] \<and> hd rest = 33"
    then obtain cs where rest: "rest = 33 # cs" by (cases rest) auto
    let ?l2 = "?l1\<lparr>unread := cs, position := position ?l1 + 1\<rparr>"
    have u1: "unread ?l1 = 33 # cs" by (simp add: rest)
    have "lex_loop ?l1 False 1 = lex_loop ?l2 False 8"
      by (subst lex_loop_Cons [OF u1]) (simp add: switch_1 case_1_def ACCEPT_TOKEN_def)
    moreover obtain lexer' where "lex_loop ?l2 False 8 = (True, lexer')"
      "result_symbol lexer' = sym_comment" "token_start lexer' = token_start ?l2"
      using lex_loop_8_accepts [of ?l2 cs False] by auto
    ultimately have "ts_lex (start_lexer input cursor) 0 = (True, lexer')"
      and "result_symbol lexer' = sym_comment" and "token_start lexer' = cursor + length ws"
      using step by (simp_all add: ts_lex_skip [OF assms])
    then show "\<exists>tok cursor'. scan_one input cursor = Inr (tok, cursor') \<and>
               tok_kind tok = sym_comment \<and> tok_start tok = cursor + length ws"
      by (simp add: scan_one_def)
  }
qed

theorem number_sign_begins_only_a_comment_witness:
  "scan_one (codes ''x  #y'') 1 = Inl (NoMatchingRule 3) \<and>
   (\<exists>tok cursor'. scan_one (codes ''#!y'') 0 = Inr (tok, cursor') \<and>
      tok_kind tok = sym_comment \<and> tok_start tok = 0)"
proof -
  have "drop 1 (codes ''x  #y'') = codes ''  '' @ 35 # codes ''y''"
    and "list_all is_space (codes ''  '')"
    by (simp_all add: codes_def is_space_def)
  from number_sign_begins_only_a_comment [OF this]
  have a: "scan_one (codes ''x  #y'') 1 = Inl (NoMatchingRule 3)"
    by (simp add: codes_def)
  have "drop 0 (codes ''#!y'') = [] @ 35 # codes ''!y''" and "list_all is_space []"
    by (simp_all add: codes_def)
  from number_sign_begins_only_a_comment [OF this]
  have "\<exists>tok cursor'. scan_one (codes ''#!y'') 0 = Inr (tok, cursor') \<and>
      tok_kind tok = sym_comment \<and> tok_start tok = 0"
    by (simp add: codes_def)
  with a show ?thesis by simp
qed

section \<open>The unterminated string\<close>



section \<open>The number before a bare dot\<close>

text \<open>
  State 0 has no case for the dot (code point 46): the conditionals of punctuation and of
  operators leave it out. The input \<^verbatim>\<open>7.\<close> is scanned as the number \<^verbatim>\<open>7\<close>, and
  the scan of the dot is an error, not a token of punctuation or an operator.
\<close>

theorem bare_dot_is_no_token:
  "tokenize (codes ''7.'') =
     Some ([\<lparr>tok_kind = sym_number, tok_start = 0, tok_end = 1, tok_text = codes ''7''\<rparr>],
           Some (NoMatchingRule 1))"
  by (simp add: tokenize_def tokenize_from.simps codes_def lex_eval)

text \<open>
  Claim C2, amended. Wherever one or more decimal digits are followed by a dot that is not
  followed by a digit, the Scanner emits a number token that holds the digits before the dot
  only, never the dot; the scan of the dot itself then produces no token: it is a lexical
  error at the offset of the dot.
\<close>

theorem number_stops_before_bare_dot:
  assumes "drop cursor input = ws @ ds @ 46 # rest" and "list_all is_space ws"
    and "ds \<noteq> []" and "list_all is_digit ds" and "rest = [] \<or> \<not> is_digit (hd rest)"
  shows "scan_one input cursor =
           Inr (\<lparr>tok_kind = sym_number, tok_start = cursor + length ws,
                 tok_end = cursor + length ws + length ds, tok_text = ds\<rparr>,
                cursor + length ws + length ds) \<and>
         scan_one input (cursor + length ws + length ds) =
           Inl (NoMatchingRule (cursor + length ws + length ds))"
proof
  from assms(3) obtain d ds' where ds: "ds = d # ds'" by (cases ds) auto
  with assms(4) have d: "is_digit d" and ds': "list_all is_digit ds'" by simp_all
  let ?rest = "ds @ 46 # rest"
  let ?l = "\<lparr>unread = ?rest, position = cursor + length ws,
             token_start = cursor + length ws, token_end = cursor,
             result_symbol = ts_builtin_sym_end\<rparr>"
  let ?l1 = "?l\<lparr>unread := ds' @ 46 # rest, position := position ?l + 1\<rparr>"
  let ?l2 = "?l1\<lparr>result_symbol := sym_number, unread := rest,
                  position := position ?l1 + length ds' + 1,
                  token_end := position ?l1 + length ds'\<rparr>"
  have u: "unread ?l = d # (ds' @ 46 # rest)" by (simp add: ds)
  have "lex_loop ?l False 0 = lex_loop ?l1 False 10"
    by (subst lex_loop_Cons [OF u]) (simp add: switch_0 case_0_digit [OF d] ACCEPT_TOKEN_def)
  also have "\<dots> = (True, ?l2)"
    by (rule lex_loop_10_dot [OF ds' _ assms(5)]) simp
  finally have run: "lex_loop ?l False 0 = (True, ?l2)" .
  have "scan_one input cursor =
     Inr (\<lparr>tok_kind = result_symbol ?l2, tok_start = cursor + length ws,
           tok_end = cursor + length ws + length ds, tok_text = take (length ds) ?rest\<rparr>,
          cursor + length ws + length ds)"
    by (rule scan_one_token [OF assms(1,2) run]) (simp_all add: ds)
  then show "scan_one input cursor =
           Inr (\<lparr>tok_kind = sym_number, tok_start = cursor + length ws,
                 tok_end = cursor + length ws + length ds, tok_text = ds\<rparr>,
                cursor + length ws + length ds)"
    by simp
next
  let ?c = "cursor + length ws + length ds"
  from assms(1) have "drop cursor input = (ws @ ds) @ 46 # rest" by simp
  from drop_append_more [OF this] have d: "drop ?c input = [] @ 46 # rest"
    by (simp add: add.assoc)
  let ?l = "\<lparr>unread = 46 # rest, position = ?c + length ([]::int list),
             token_start = ?c + length ([]::int list), token_end = ?c,
             result_symbol = ts_builtin_sym_end\<rparr>"
  have u: "unread ?l = 46 # rest" by simp
  have run: "lex_loop ?l False 0 = (False, ?l)"
    by (subst lex_loop_Cons [OF u]) (simp add: switch_0 case_0_chars ACCEPT_TOKEN_def)
  have "scan_one input ?c = Inl (lex_error input (?c + length ([]::int list)))"
    by (rule scan_one_error(2) [OF d _ run]) simp_all
  moreover from d have "lex_error input ?c = NoMatchingRule ?c"
    by (simp add: lex_error_def)
  ultimately show "scan_one input ?c = Inl (NoMatchingRule ?c)" by simp
qed

theorem number_stops_before_bare_dot_witness:
  "scan_one (codes ''x 12.y'') 1 =
     Inr (\<lparr>tok_kind = sym_number, tok_start = 2, tok_end = 4, tok_text = codes ''12''\<rparr>, 4) \<and>
   scan_one (codes ''x 12.y'') 4 = Inl (NoMatchingRule 4)"
proof -
  have "drop 1 (codes ''x 12.y'') = codes '' '' @ codes ''12'' @ 46 # codes ''y''"
    and "list_all is_space (codes '' '')" and "codes ''12'' \<noteq> []"
    and "list_all is_digit (codes ''12'')"
    and "codes ''y'' = [] \<or> \<not> is_digit (hd (codes ''y''))"
    by (simp_all add: codes_def is_space_def is_digit_def)
  from number_stops_before_bare_dot [OF this] show ?thesis
    by (simp add: codes_def eval_nat_numeral)
qed

section \<open>The line comment of two hyphens\<close>

text \<open>
  State 8 stops at a newline, at the end of the input and at a NUL character (the lookahead
  is compared with 0): in the input of two hyphens, a NUL character and \<^verbatim>\<open>x\<close>, which
  holds no newline, the comment ends at offset 2 and not at the end of the input.
\<close>

theorem line_comment_stops_at_nul:
  "scan_one [45, 45, 0, 120] 0 =
     Inr (\<lparr>tok_kind = sym_comment, tok_start = 0, tok_end = 2, tok_text = [45, 45]\<rparr>, 2) \<and>
   10 \<notin> set [45, 45, 0, 120 :: int] \<and> (2::nat) < length [45, 45, 0, 120 :: int]"
  by (simp add: lex_eval)

text \<open>
  Claim C6, amended. A hyphen (code point 45) immediately followed by a second hyphen is
  lexed as a line comment, not as two operator tokens. The comment extends to the first
  newline or NUL character, or to the end of the input when there is neither, and does not
  include that character. For the input \<^verbatim>\<open>-- hello\<close> tokenization yields exactly one
  comment token, which spans the whole input, and then the end of the input.
\<close>

theorem two_hyphens_begin_a_line_comment:
  "(\<forall>input cursor ws body rest.
      drop cursor input = ws @ 45 # 45 # body @ rest \<and> list_all is_space ws \<and>
      list_all (\<lambda>c. c \<noteq> 0 \<and> c \<noteq> 10) body \<and> (rest = [] \<or> hd rest = 10 \<or> hd rest = 0) \<longrightarrow>
      scan_one input cursor =
        Inr (\<lparr>tok_kind = sym_comment, tok_start = cursor + length ws,
              tok_end = cursor + length ws + 2 + length body, tok_text = 45 # 45 # body\<rparr>,
             cursor + length ws + 2 + length body)) \<and>
   tokenize (codes ''-- hello'') =
     Some ([\<lparr>tok_kind = sym_comment, tok_start = 0, tok_end = 8, tok_text = codes ''-- hello''\<rparr>,
            \<lparr>tok_kind = ts_builtin_sym_end, tok_start = 8, tok_end = 8, tok_text = []\<rparr>],
           None)"
proof (intro conjI allI impI)
  fix input cursor ws body rest
  assume "drop cursor input = ws @ 45 # 45 # body @ rest \<and> list_all is_space ws \<and>
      list_all (\<lambda>c. c \<noteq> 0 \<and> c \<noteq> 10) body \<and> (rest = [] \<or> hd rest = 10 \<or> hd rest = 0)"
  then have d: "drop cursor input = ws @ 45 # 45 # body @ rest" and ws: "list_all is_space ws"
    and body: "list_all (\<lambda>c. c \<noteq> 0 \<and> c \<noteq> 10) body"
    and rest: "rest = [] \<or> hd rest = 10 \<or> hd rest = 0"
    by simp_all
  let ?l = "\<lparr>unread = 45 # 45 # body @ rest, position = cursor + length ws,
             token_start = cursor + length ws, token_end = cursor,
             result_symbol = ts_builtin_sym_end\<rparr>"
  let ?l1 = "?l\<lparr>unread := 45 # body @ rest, position := position ?l + 1\<rparr>"
  let ?l2 = "?l1\<lparr>result_symbol := sym_operator, token_end := position ?l1,
                  unread := body @ rest, position := position ?l1 + 1\<rparr>"
  let ?l3 = "?l2\<lparr>result_symbol := sym_comment, unread := rest,
                  position := position ?l2 + length body,
                  token_end := position ?l2 + length body\<rparr>"
  have u: "unread ?l = 45 # 45 # body @ rest" and u1: "unread ?l1 = 45 # body @ rest"
    by simp_all
  have "lex_loop ?l False 0 = lex_loop ?l1 False 15"
    by (subst lex_loop_Cons [OF u]) (simp add: switch_0 case_0_chars ACCEPT_TOKEN_def)
  also have "\<dots> = lex_loop ?l2 True 8"
    by (subst lex_loop_Cons [OF u1])
      (simp add: switch_15 case_15_def ACCEPT_TOKEN_def mark_end_def)
  also have "\<dots> = (True, ?l3)"
    by (rule lex_loop_8_line [OF body _ rest]) simp
  finally have run: "lex_loop ?l False 0 = (True, ?l3)" .
  have "scan_one input cursor =
     Inr (\<lparr>tok_kind = result_symbol ?l3, tok_start = cursor + length ws,
           tok_end = cursor + length ws + (2 + length body),
           tok_text = take (2 + length body) (45 # 45 # body @ rest)\<rparr>,
          cursor + length ws + (2 + length body))"
    by (rule scan_one_token [OF d ws run]) simp_all
  then show "scan_one input cursor =
        Inr (\<lparr>tok_kind = sym_comment, tok_start = cursor + length ws,
              tok_end = cursor + length ws + 2 + length body, tok_text = 45 # 45 # body\<rparr>,
             cursor + length ws + 2 + length body)"
    by (simp add: add.assoc)
next
  show "tokenize (codes ''-- hello'') =
     Some ([\<lparr>tok_kind = sym_comment, tok_start = 0, tok_end = 8, tok_text = codes ''-- hello''\<rparr>,
            \<lparr>tok_kind = ts_builtin_sym_end, tok_start = 8, tok_end = 8, tok_text = []\<rparr>],
           None)"
    by (simp add: tokenize_def tokenize_from.simps codes_def lex_eval)
qed

theorem two_hyphens_begin_a_line_comment_witness:
  "scan_one (codes ''a --b'' @ [10, 99]) 1 =
     Inr (\<lparr>tok_kind = sym_comment, tok_start = 2, tok_end = 5, tok_text = codes ''--b''\<rparr>, 5)"
proof -
  have "drop 1 (codes ''a --b'' @ [10, 99]) = codes '' '' @ 45 # 45 # codes ''b'' @ [10, 99] \<and>
      list_all is_space (codes '' '') \<and> list_all (\<lambda>c. c \<noteq> 0 \<and> c \<noteq> 10) (codes ''b'') \<and>
      ([10, 99] = [] \<or> hd [10, 99] = (10::int) \<or> hd [10, 99] = (0::int))"
    by (simp add: codes_def is_space_def)
  with two_hyphens_begin_a_line_comment
  have "scan_one (codes ''a --b'' @ [10, 99]) 1 =
        Inr (\<lparr>tok_kind = sym_comment, tok_start = 1 + length (codes '' ''),
              tok_end = 1 + length (codes '' '') + 2 + length (codes ''b''),
              tok_text = 45 # 45 # codes ''b''\<rparr>,
             1 + length (codes '' '') + 2 + length (codes ''b''))"
    by blast
  then show ?thesis by (simp add: codes_def)
qed

section \<open>The block comment\<close>

text \<open>
  Example 2 of the spec: an opening parenthesis and asterisk, \<^verbatim>\<open>a\<close>, a second opening
  parenthesis and asterisk, \<^verbatim>\<open>b\<close>, an asterisk and closing parenthesis, \<^verbatim>\<open>c\<close>, and
  a second asterisk and closing parenthesis, with single spaces between them (17 characters;
  40 is the opening parenthesis, 41 the closing one, 42 the asterisk).
\<close>

definition example_2 :: "int list" where
  "example_2 = [40, 42, 32, 97, 32, 40, 42, 32, 98, 32, 42, 41, 32, 99, 32, 42, 41]"

text \<open>
  The asterisk left over after the identifier is in the range of the operators of state 0
  (code points 38 to 43): it is an operator token, not an error.
\<close>

theorem stray_asterisk_is_an_operator:
  "scan_one example_2 14 =
     Inr (\<lparr>tok_kind = sym_operator, tok_start = 15, tok_end = 16, tok_text = [42]\<rparr>, 16)"
  by (simp add: example_2_def lex_eval)

lemma no_closer_Cons: "c \<noteq> 42 \<Longrightarrow> no_closer (c # cs) = no_closer cs"
  by (cases cs) simp_all

lemma take_block:
  "take (length body + 4) (a # b # body @ c # d # rest) = a # b # body @ [c, d]"
proof -
  have "length body + 4 = Suc (Suc (length body + 2))" by simp
  then show ?thesis by (simp add: eval_nat_numeral)
qed

text \<open>
  Claim C1, amended. For the input of example 2, tokenization produces exactly one comment
  token that spans through the first closing asterisk and parenthesis only (offsets 0 to 12),
  then the identifier \<^verbatim>\<open>c\<close>, then the left-over asterisk as an operator token and the
  left-over closing parenthesis as a punctuation token, and the end of the input. Block
  comments do not nest: in a text without NUL characters, the first asterisk and closing
  parenthesis after the opener close the comment.
\<close>

theorem block_comment_ends_at_first_closer:
  "tokenize example_2 =
     Some ([\<lparr>tok_kind = sym_comment, tok_start = 0, tok_end = 12,
             tok_text = [40, 42, 32, 97, 32, 40, 42, 32, 98, 32, 42, 41]\<rparr>,
            \<lparr>tok_kind = sym_identifier, tok_start = 13, tok_end = 14, tok_text = [99]\<rparr>,
            \<lparr>tok_kind = sym_operator, tok_start = 15, tok_end = 16, tok_text = [42]\<rparr>,
            \<lparr>tok_kind = sym_punctuation, tok_start = 16, tok_end = 17, tok_text = [41]\<rparr>,
            \<lparr>tok_kind = ts_builtin_sym_end, tok_start = 17, tok_end = 17, tok_text = []\<rparr>],
           None) \<and>
   (\<forall>input cursor ws body rest.
      drop cursor input = ws @ 40 # 42 # body @ 42 # 41 # rest \<and> list_all is_space ws \<and>
      no_closer body \<and> list_all (\<lambda>c. c \<noteq> 0) body \<longrightarrow>
      scan_one input cursor =
        Inr (\<lparr>tok_kind = sym_comment, tok_start = cursor + length ws,
              tok_end = cursor + length ws + length body + 4,
              tok_text = 40 # 42 # body @ [42, 41]\<rparr>,
             cursor + length ws + length body + 4))"
proof (intro conjI allI impI)
  show "tokenize example_2 =
     Some ([\<lparr>tok_kind = sym_comment, tok_start = 0, tok_end = 12,
             tok_text = [40, 42, 32, 97, 32, 40, 42, 32, 98, 32, 42, 41]\<rparr>,
            \<lparr>tok_kind = sym_identifier, tok_start = 13, tok_end = 14, tok_text = [99]\<rparr>,
            \<lparr>tok_kind = sym_operator, tok_start = 15, tok_end = 16, tok_text = [42]\<rparr>,
            \<lparr>tok_kind = sym_punctuation, tok_start = 16, tok_end = 17, tok_text = [41]\<rparr>,
            \<lparr>tok_kind = ts_builtin_sym_end, tok_start = 17, tok_end = 17, tok_text = []\<rparr>],
           None)"
    by (simp add: tokenize_def tokenize_from.simps example_2_def lex_eval)
next
  fix input cursor ws body rest
  assume "drop cursor input = ws @ 40 # 42 # body @ 42 # 41 # rest \<and> list_all is_space ws \<and>
      no_closer body \<and> list_all (\<lambda>c. c \<noteq> 0) body"
  then have d: "drop cursor input = ws @ 40 # 42 # body @ 42 # 41 # rest"
    and ws: "list_all is_space ws" and nc: "no_closer body"
    and body: "list_all (\<lambda>c. c \<noteq> 0) body"
    by simp_all
  let ?rest = "40 # 42 # body @ 42 # 41 # rest"
  let ?l = "\<lparr>unread = ?rest, position = cursor + length ws,
             token_start = cursor + length ws, token_end = cursor,
             result_symbol = ts_builtin_sym_end\<rparr>"
  let ?l1 = "?l\<lparr>unread := 42 # body @ 42 # 41 # rest, position := position ?l + 1\<rparr>"
  let ?l2 = "?l1\<lparr>result_symbol := sym_punctuation, token_end := position ?l1,
                  unread := body @ 42 # 41 # rest, position := position ?l1 + 1\<rparr>"
  let ?l3 = "?l2\<lparr>result_symbol := sym_comment, unread := rest,
                  position := position ?l2 + length body + 2,
                  token_end := position ?l2 + length body + 2\<rparr>"
  have u: "unread ?l = ?rest" and u1: "unread ?l1 = 42 # body @ 42 # 41 # rest"
    by simp_all
  have "lex_loop ?l False 0 = lex_loop ?l1 False 18"
    by (subst lex_loop_Cons [OF u]) (simp add: switch_0 case_0_chars ACCEPT_TOKEN_def)
  also have "\<dots> = lex_loop ?l2 True 4"
    by (subst lex_loop_Cons [OF u1])
      (simp add: switch_18 case_18_def ACCEPT_TOKEN_def mark_end_def)
  also have "\<dots> = (True, ?l3)"
    by (rule lex_loop_block [where ?c0.0 = 0]) (simp_all add: no_closer_Cons nc body)
  finally have run: "lex_loop ?l False 0 = (True, ?l3)" .
  have "scan_one input cursor =
     Inr (\<lparr>tok_kind = result_symbol ?l3, tok_start = cursor + length ws,
           tok_end = cursor + length ws + (length body + 4),
           tok_text = take (length body + 4) ?rest\<rparr>,
          cursor + length ws + (length body + 4))"
    by (rule scan_one_token [OF d ws run]) simp_all
  then show "scan_one input cursor =
        Inr (\<lparr>tok_kind = sym_comment, tok_start = cursor + length ws,
              tok_end = cursor + length ws + length body + 4,
              tok_text = 40 # 42 # body @ [42, 41]\<rparr>,
             cursor + length ws + length body + 4)"
    by (simp add: add.assoc take_block)
qed

theorem block_comment_ends_at_first_closer_witness:
  "scan_one example_2 0 =
     Inr (\<lparr>tok_kind = sym_comment, tok_start = 0, tok_end = 12,
           tok_text = [40, 42, 32, 97, 32, 40, 42, 32, 98, 32, 42, 41]\<rparr>, 12)"
proof -
  have "drop 0 example_2 =
      [] @ 40 # 42 # [32, 97, 32, 40, 42, 32, 98, 32] @ 42 # 41 # [32, 99, 32, 42, 41] \<and>
    list_all is_space [] \<and> no_closer [32, 97, 32, 40, 42, 32, 98, 32] \<and>
    list_all (\<lambda>c. c \<noteq> 0) [32, 97, 32, 40, 42, 32, 98, 32 :: int]"
    by (simp add: example_2_def)
  with block_comment_ends_at_first_closer
  have "scan_one example_2 0 =
        Inr (\<lparr>tok_kind = sym_comment, tok_start = 0 + length ([]::int list),
              tok_end = 0 + length ([]::int list) + length [32, 97, 32, 40, 42, 32, 98, 32 :: int] + 4,
              tok_text = 40 # 42 # [32, 97, 32, 40, 42, 32, 98, 32] @ [42, 41]\<rparr>,
             0 + length ([]::int list) + length [32, 97, 32, 40, 42, 32, 98, 32 :: int] + 4)"
    by blast
  then show ?thesis by simp
qed

lemma count_end_tokens:
  assumes "well_spaced input start toks" and "ends_well toks err"
  shows "length (filter (\<lambda>t. tok_kind t = ts_builtin_sym_end) toks) = (if err = None then 1 else 0)"
  using assms
proof (induction toks arbitrary: start)
  case Nil
  then show ?case by (auto simp: ends_well_def split: option.splits)
next
  case (Cons t ts)
  show ?case
  proof (cases "tok_kind t = ts_builtin_sym_end")
    case True
    with Cons.prems show ?thesis by (auto simp: ends_well_def split: option.splits)
  next
    case False
    with Cons.prems have "well_spaced input (tok_end t) ts" and "ends_well ts err"
      by (auto simp: ends_well_def split: option.splits if_splits)
    from Cons.IH [OF this] False show ?thesis by simp
  qed
qed

lemma well_spaced_sorted:
  assumes "well_spaced input start toks"
  shows "(\<forall>t \<in> set toks. start \<le> tok_start t) \<and>
         sorted_wrt (\<lambda>a b. tok_start a < tok_start b \<and> tok_end a \<le> tok_start b) toks"
  using assms
proof (induction toks arbitrary: start)
  case Nil
  then show ?case by simp
next
  case (Cons t ts)
  then have w: "well_spaced input (tok_end t) ts" and le: "start \<le> tok_start t"
    "tok_start t \<le> tok_end t"
    and k: "tok_kind t = ts_builtin_sym_end \<longrightarrow> ts = []"
    "tok_kind t \<noteq> ts_builtin_sym_end \<longrightarrow> tok_start t < tok_end t"
    by (auto split: if_splits)
  from Cons.IH [OF w] have ih: "\<forall>u \<in> set ts. tok_end t \<le> tok_start u"
    "sorted_wrt (\<lambda>a b. tok_start a < tok_start b \<and> tok_end a \<le> tok_start b) ts"
    by simp_all
  from ih(1) le k show ?case using ih(2) by fastforce
qed

text \<open>
  The skipped span in front of each token (the whitespace the Scanner passed over, from the
  end of the token before), and the text put together again from those spans and the texts of
  the tokens.
\<close>

fun skipped :: "int list \<Rightarrow> nat \<Rightarrow> token list \<Rightarrow> int list list" where
  "skipped input start [] = []"
| "skipped input start (t # ts) = slice input start (tok_start t) # skipped input (tok_end t) ts"

fun reassemble :: "int list list \<Rightarrow> token list \<Rightarrow> int list" where
  "reassemble (ws # wss) (t # ts) = ws @ tok_text t @ reassemble wss ts"
| "reassemble wss ts = []"

lemma slice_append:
  "a \<le> b \<Longrightarrow> b \<le> length input \<Longrightarrow> slice input a b @ drop b input = drop a input"
  by (metis slice_def add_diff_cancel_left' append_take_drop_id drop_drop le_Suc_ex add.commute)

lemma well_spaced_reassemble:
  assumes "well_spaced input start toks" and "ends_well toks None" and "start \<le> length input"
  shows "reassemble (skipped input start toks) toks = drop start input"
  using assms
proof (induction toks arbitrary: start)
  case Nil
  then show ?case by (simp add: ends_well_def)
next
  case (Cons t ts)
  then have le: "start \<le> tok_start t" "tok_start t \<le> tok_end t" "tok_end t \<le> length input"
    and tx: "tok_text t = slice input (tok_start t) (tok_end t)"
    and w: "well_spaced input (tok_end t) ts"
    by (auto split: if_splits)
  have rest: "reassemble (skipped input (tok_end t) ts) ts = drop (tok_end t) input"
  proof (cases ts)
    case Nil
    with Cons.prems have "tok_kind t = ts_builtin_sym_end" by (simp add: ends_well_def)
    with Cons.prems have "tok_end t = length input" using le by (auto split: if_splits)
    with Nil show ?thesis by simp
  next
    case (Cons u us)
    with Cons.prems(2) have "ends_well ts None" by (simp add: ends_well_def)
    from Cons.IH [OF w this le(3)] show ?thesis .
  qed
  have "slice input start (tok_start t) @ slice input (tok_start t) (tok_end t) @ drop (tok_end t) input
      = drop start input"
    using le by (simp add: slice_append)
  with rest tx show ?case by simp
qed

lemma well_spaced_skipped:
  "well_spaced input start toks \<Longrightarrow> list_all (list_all is_space) (skipped input start toks)"
  by (induction toks arbitrary: start) auto

text \<open>
  A scan with nothing but whitespace between the cursor and the end of the input returns
  the end symbol, with an empty span at the end of the input.
\<close>

lemma scan_one_at_end:
  assumes "list_all is_space (drop cursor input)"
  shows "scan_one input cursor =
     Inr (\<lparr>tok_kind = ts_builtin_sym_end, tok_start = max cursor (length input),
           tok_end = max cursor (length input), tok_text = []\<rparr>, max cursor (length input))"
proof -
  have d: "drop cursor input = drop cursor input @ []" by simp
  have m: "cursor + (length input - cursor) = max cursor (length input)" by simp
  show ?thesis
    unfolding scan_one_def ts_lex_skip [OF d assms]
    by (simp add: lex_loop_eof slice_def m del: max.absorb1 max.absorb2 max.absorb3 max.absorb4)
qed

text \<open>An error in the result of the Item Sequencer is the error of a scan that failed.\<close>

lemma tokenize_from_error:
  assumes "cursor \<le> length input" and "tokenize_from input cursor acc = Some (toks, Some e)"
  shows "\<exists>c. cursor \<le> c \<and> c \<le> length input \<and> scan_one input c = Inl e"
  using assms
proof (induction "length input - cursor" arbitrary: cursor acc rule: less_induct)
  case less
  show ?case
  proof (cases "scan_one input cursor")
    case (Inl err)
    then have "tokenize_from input cursor acc = Some (acc, Some err)"
      by (subst tokenize_from.simps) simp
    with less.prems Inl show ?thesis by auto
  next
    case (Inr p)
    obtain tok cursor' where p: "p = (tok, cursor')" by (cases p)
    note scan = Inr [unfolded p]
    note f = scan_one_Inr [OF less.prems(1) scan]
    show ?thesis
    proof (cases "tok_kind tok = ts_builtin_sym_end")
      case True
      with scan have "tokenize_from input cursor acc = Some (acc @ [tok], None)"
        by (subst tokenize_from.simps) simp
      with less.prems(2) show ?thesis by simp
    next
      case False
      with scan have unf: "tokenize_from input cursor acc = tokenize_from input cursor' (acc @ [tok])"
        by (subst tokenize_from.simps) simp
      from f(1,7) False have lt: "cursor < cursor'" by simp
      with f(4) have "length input - cursor' < length input - cursor" by simp
      from less.hyps [OF this f(4), of "acc @ [tok]"] less.prems(2) unf
      obtain c where "cursor' \<le> c" "c \<le> length input" "scan_one input c = Inl e"
        by auto
      with lt show ?thesis by (intro exI [of _ c]) simp
    qed
  qed
qed

lemma well_spaced_last:
  assumes "well_spaced input start toks" and "toks \<noteq> []"
    and "tok_kind (last toks) = ts_builtin_sym_end"
  shows "tok_start (last toks) = length input \<and> tok_end (last toks) = length input"
  using assms
proof (induction toks arbitrary: start)
  case Nil
  then show ?case by simp
next
  case (Cons t ts)
  show ?case
  proof (cases ts)
    case Nil
    with Cons.prems show ?thesis by auto
  next
    case (Cons u us)
    with Cons.prems have "well_spaced input (tok_end t) ts" "ts \<noteq> []"
      "tok_kind (last ts) = ts_builtin_sym_end"
      by (auto split: if_splits)
    from Cons.IH [OF this] Cons show ?thesis by simp
  qed
qed

section \<open>Progress and termination\<close>

text \<open>
  Claim C9. Every successful scan that returns a token other than the end of the input
  consumes at least one input unit: the token is not empty and the cursor moves forward. A
  scan that starts inside the input returns the end symbol exactly when the token starts at
  the end of the input. The end symbol is emitted when the cursor reaches the end of the
  input: a scan with nothing but whitespace between the cursor and the end, and so a scan at
  the end itself, succeeds with the end symbol on the empty span at the end of the input. The
  loop of the Item Sequencer returns on every input. The end symbol stands in its result
  once when the input was tokenized to its end (then it is the last token and lies at the end
  of the input), and not at all when the result carries an error; such an error is the error
  of a scan inside the input that failed. An input of whitespace only is tokenized to the end
  symbol alone.
\<close>

theorem scanner_progress_and_termination:
  "(\<forall>cursor tok cursor'.
      scan_one input cursor = Inr (tok, cursor') \<and> tok_kind tok \<noteq> ts_builtin_sym_end \<longrightarrow>
      cursor < cursor' \<and> tok_start tok < tok_end tok) \<and>
   (\<forall>cursor tok cursor'.
      cursor \<le> length input \<and> scan_one input cursor = Inr (tok, cursor') \<longrightarrow>
      (tok_kind tok = ts_builtin_sym_end) = (tok_start tok = length input)) \<and>
   (\<forall>cursor.
      list_all is_space (drop cursor input) \<longrightarrow>
      scan_one input cursor =
        Inr (\<lparr>tok_kind = ts_builtin_sym_end, tok_start = max cursor (length input),
              tok_end = max cursor (length input), tok_text = []\<rparr>, max cursor (length input))) \<and>
   scan_one input (length input) =
     Inr (\<lparr>tok_kind = ts_builtin_sym_end, tok_start = length input,
           tok_end = length input, tok_text = []\<rparr>, length input) \<and>
   (\<exists>toks err.
      tokenize input = Some (toks, err) \<and>
      length (filter (\<lambda>t. tok_kind t = ts_builtin_sym_end) toks) = (if err = None then 1 else 0) \<and>
      (err = None \<longrightarrow> toks \<noteq> [] \<and> tok_kind (last toks) = ts_builtin_sym_end) \<and>
      (err = None \<longrightarrow>
         tok_start (last toks) = length input \<and> tok_end (last toks) = length input) \<and>
      (\<forall>e. err = Some e \<longrightarrow> (\<exists>c. c \<le> length input \<and> scan_one input c = Inl e))) \<and>
   (list_all is_space input \<longrightarrow>
      tokenize input =
        Some ([\<lparr>tok_kind = ts_builtin_sym_end, tok_start = length input,
                tok_end = length input, tok_text = []\<rparr>], None))"
proof (intro conjI allI impI)
  fix cursor tok cursor'
  assume a: "scan_one input cursor = Inr (tok, cursor') \<and> tok_kind tok \<noteq> ts_builtin_sym_end"
  then show "cursor < cursor'" and "tok_start tok < tok_end tok"
    using scan_one_progress [of input cursor tok cursor'] by simp_all
next
  fix cursor tok cursor'
  assume a: "cursor \<le> length input \<and> scan_one input cursor = Inr (tok, cursor')"
  then have le: "cursor \<le> length input" and scan: "scan_one input cursor = Inr (tok, cursor')"
    by simp_all
  note f = scan_one_Inr [OF le scan]
  show "(tok_kind tok = ts_builtin_sym_end) = (tok_start tok = length input)"
    using f(4,6,7) by (cases "tok_kind tok = ts_builtin_sym_end") auto
next
  fix cursor
  assume "list_all is_space (drop cursor input)"
  then show "scan_one input cursor =
        Inr (\<lparr>tok_kind = ts_builtin_sym_end, tok_start = max cursor (length input),
              tok_end = max cursor (length input), tok_text = []\<rparr>, max cursor (length input))"
    by (rule scan_one_at_end)
next
  show "scan_one input (length input) =
     Inr (\<lparr>tok_kind = ts_builtin_sym_end, tok_start = length input,
           tok_end = length input, tok_text = []\<rparr>, length input)"
    using scan_one_at_end [of "length input" input] by simp
next
  from tokenize_total [of input] obtain toks err
    where t: "tokenize input = Some (toks, err)" and w: "well_spaced input 0 toks"
      and e: "ends_well toks err"
    by blast
  have last: "err = None \<longrightarrow>
         tok_start (last toks) = length input \<and> tok_end (last toks) = length input"
    using well_spaced_last [OF w] e by (auto simp: ends_well_def)
  have fail: "\<forall>e. err = Some e \<longrightarrow> (\<exists>c. c \<le> length input \<and> scan_one input c = Inl e)"
    using tokenize_from_error [of 0 input "[]" toks] t by (auto simp: tokenize_def)
  from count_end_tokens [OF w e] e t last fail
  show "\<exists>toks err.
      tokenize input = Some (toks, err) \<and>
      length (filter (\<lambda>t. tok_kind t = ts_builtin_sym_end) toks) = (if err = None then 1 else 0) \<and>
      (err = None \<longrightarrow> toks \<noteq> [] \<and> tok_kind (last toks) = ts_builtin_sym_end) \<and>
      (err = None \<longrightarrow>
         tok_start (last toks) = length input \<and> tok_end (last toks) = length input) \<and>
      (\<forall>e. err = Some e \<longrightarrow> (\<exists>c. c \<le> length input \<and> scan_one input c = Inl e))"
    by (auto simp: ends_well_def)
next
  assume "list_all is_space input"
  then have "list_all is_space (drop 0 input)" by simp
  from scan_one_at_end [OF this]
  show "tokenize input =
        Some ([\<lparr>tok_kind = ts_builtin_sym_end, tok_start = length input,
                tok_end = length input, tok_text = []\<rparr>], None)"
    unfolding tokenize_def by (subst tokenize_from.simps) simp
qed

theorem scanner_progress_and_termination_witness:
  "scan_one (codes ''if x '') 0 =
     Inr (\<lparr>tok_kind = sym_keyword, tok_start = 0, tok_end = 2, tok_text = codes ''if''\<rparr>, 2) \<and>
   (0::nat) < 2 \<and>
   scan_one (codes ''if x '') 4 =
     Inr (\<lparr>tok_kind = ts_builtin_sym_end, tok_start = 5, tok_end = 5, tok_text = []\<rparr>, 5) \<and>
   scan_one (codes ''if x '') 5 =
     Inr (\<lparr>tok_kind = ts_builtin_sym_end, tok_start = 5, tok_end = 5, tok_text = []\<rparr>, 5) \<and>
   tokenize (codes ''if x '') =
     Some ([\<lparr>tok_kind = sym_keyword, tok_start = 0, tok_end = 2, tok_text = codes ''if''\<rparr>,
            \<lparr>tok_kind = sym_identifier, tok_start = 3, tok_end = 4, tok_text = codes ''x''\<rparr>,
            \<lparr>tok_kind = ts_builtin_sym_end, tok_start = 5, tok_end = 5, tok_text = []\<rparr>], None) \<and>
   tokenize (codes '' '') =
     Some ([\<lparr>tok_kind = ts_builtin_sym_end, tok_start = 1, tok_end = 1, tok_text = []\<rparr>], None)"
proof -
  note c9 = scanner_progress_and_termination [of "codes ''if x ''"]
  note progress = c9 [THEN conjunct1]
  note at_end = c9 [THEN conjunct2, THEN conjunct2, THEN conjunct1]
  note at_length = c9 [THEN conjunct2, THEN conjunct2, THEN conjunct2, THEN conjunct1]
  have len: "length (codes ''if x '') = 5" by (simp add: codes_def)
  have scan: "scan_one (codes ''if x '') 0 =
     Inr (\<lparr>tok_kind = sym_keyword, tok_start = 0, tok_end = 2, tok_text = codes ''if''\<rparr>, 2)"
    by (simp add: codes_def lex_eval)
  from progress [THEN spec, THEN spec, THEN spec, THEN mp, OF conjI, OF scan]
  have lt: "(0::nat) < 2" by simp
  have "list_all is_space (drop 4 (codes ''if x ''))"
    by (simp add: codes_def is_space_def)
  from at_end [THEN spec, THEN mp, OF this]
  have at4: "scan_one (codes ''if x '') 4 =
     Inr (\<lparr>tok_kind = ts_builtin_sym_end, tok_start = 5, tok_end = 5, tok_text = []\<rparr>, 5)"
    by (simp add: len)
  from at_length
  have at5: "scan_one (codes ''if x '') 5 =
     Inr (\<lparr>tok_kind = ts_builtin_sym_end, tok_start = 5, tok_end = 5, tok_text = []\<rparr>, 5)"
    by (simp add: len)
  have tok: "tokenize (codes ''if x '') =
     Some ([\<lparr>tok_kind = sym_keyword, tok_start = 0, tok_end = 2, tok_text = codes ''if''\<rparr>,
            \<lparr>tok_kind = sym_identifier, tok_start = 3, tok_end = 4, tok_text = codes ''x''\<rparr>,
            \<lparr>tok_kind = ts_builtin_sym_end, tok_start = 5, tok_end = 5, tok_text = []\<rparr>], None)"
    by (simp add: tokenize_def tokenize_from.simps codes_def lex_eval)
  note blank = scanner_progress_and_termination [of "codes '' ''", THEN conjunct2, THEN conjunct2,
    THEN conjunct2, THEN conjunct2, THEN conjunct2]
  have len1: "length (codes '' '') = 1" by (simp add: codes_def)
  have "list_all is_space (codes '' '')" by (simp add: codes_def is_space_def)
  from blank [THEN mp, OF this]
  have sp: "tokenize (codes '' '') =
     Some ([\<lparr>tok_kind = ts_builtin_sym_end, tok_start = 1, tok_end = 1, tok_text = []\<rparr>], None)"
    by (simp add: len1)
  from scan lt at4 at5 tok sp show ?thesis by (intro conjI)
qed

section \<open>Spans in order, and lossless lexing\<close>

text \<open>
  Claim C4. For every input that tokenizes without error, the spans of the emitted tokens do
  not overlap and their start offsets increase strictly, and putting together, in order, the
  skipped whitespace in front of each token and the text of each token gives back the input.
  The skipped spans hold nothing but whitespace.
\<close>

theorem tokens_ordered_and_lossless:
  assumes "tokenize input = Some (toks, None)"
  shows "sorted_wrt (\<lambda>a b. tok_start a < tok_start b \<and> tok_end a \<le> tok_start b) toks \<and>
         reassemble (skipped input 0 toks) toks = input \<and>
         list_all (list_all is_space) (skipped input 0 toks)"
proof -
  from tokenize_total [of input] assms
  have w: "well_spaced input 0 toks" and e: "ends_well toks None"
    by auto
  from well_spaced_sorted [OF w] well_spaced_reassemble [OF w e] well_spaced_skipped [OF w]
  show ?thesis by simp
qed

theorem tokens_ordered_and_lossless_witness:
  "tokenize (codes ''a  +1'') =
     Some ([\<lparr>tok_kind = sym_identifier, tok_start = 0, tok_end = 1, tok_text = codes ''a''\<rparr>,
            \<lparr>tok_kind = sym_operator, tok_start = 3, tok_end = 4, tok_text = codes ''+''\<rparr>,
            \<lparr>tok_kind = sym_number, tok_start = 4, tok_end = 5, tok_text = codes ''1''\<rparr>,
            \<lparr>tok_kind = ts_builtin_sym_end, tok_start = 5, tok_end = 5, tok_text = []\<rparr>], None) \<and>
   codes '''' @ codes ''a'' @ codes ''  '' @ codes ''+'' @ codes '''' @ codes ''1'' = codes ''a  +1''"
proof -
  let ?toks = "[\<lparr>tok_kind = sym_identifier, tok_start = 0, tok_end = 1, tok_text = codes ''a''\<rparr>,
            \<lparr>tok_kind = sym_operator, tok_start = 3, tok_end = 4, tok_text = codes ''+''\<rparr>,
            \<lparr>tok_kind = sym_number, tok_start = 4, tok_end = 5, tok_text = codes ''1''\<rparr>,
            \<lparr>tok_kind = ts_builtin_sym_end, tok_start = 5, tok_end = 5, tok_text = []\<rparr>]"
  have t: "tokenize (codes ''a  +1'') = Some (?toks, None)"
    by (simp add: tokenize_def tokenize_from.simps codes_def lex_eval)
  from tokens_ordered_and_lossless [OF t]
  have "reassemble (skipped (codes ''a  +1'') 0 ?toks) ?toks = codes ''a  +1''" by blast
  then have "codes '''' @ codes ''a'' @ codes ''  '' @ codes ''+'' @ codes '''' @ codes ''1''
      = codes ''a  +1''"
    by (simp add: codes_def slice_def)
  with t show ?thesis by simp
qed

section \<open>Identifiers and keywords\<close>

text \<open>
  The characters of an identifier-or-keyword run: a letter or an underscore first, then
  letters, digits and underscores.
\<close>

definition is_ident :: "int \<Rightarrow> bool" where
  "is_ident c = ((48 \<le> c \<and> c \<le> 57) \<or> (65 \<le> c \<and> c \<le> 90) \<or> c = 95 \<or> (97 \<le> c \<and> c \<le> 122))"

definition is_ident_start :: "int \<Rightarrow> bool" where
  "is_ident_start c = ((65 \<le> c \<and> c \<le> 90) \<or> c = 95 \<or> (97 \<le> c \<and> c \<le> 122))"

definition lower_case :: "int \<Rightarrow> int" where
  "lower_case c = (if 65 \<le> c \<and> c \<le> 90 then c + 32 else c)"

text \<open>
  The keywords: the words on which \<^verbatim>\<open>ts_lex\<close> stops in state 12 or 13, the two states
  that accept \<^verbatim>\<open>sym_keyword\<close>, read off the letters that lead there from state 0. The
  source holds them only as paths through its states.
\<close>

definition keyword_table :: "string list" where
  "keyword_table = [''additions'', ''and'', ''applescript'', ''application'', ''by'', ''case'',
     ''considering'', ''contains'', ''div'', ''else'', ''end'', ''error'', ''exit'', ''false'',
     ''framework'', ''from'', ''global'', ''if'', ''ignoring'', ''in'', ''is'', ''it'',
     ''local'', ''me'', ''missing'', ''mod'', ''not'', ''of'', ''on'', ''or'', ''property'',
     ''repeat'', ''result'', ''return'', ''script'', ''scripting'', ''set'', ''tell'',
     ''then'', ''times'', ''to'', ''true'', ''try'', ''until'', ''use'', ''value'',
     ''version'', ''while'', ''with'']"

definition is_keyword :: "int list \<Rightarrow> bool" where
  "is_keyword w = (map lower_case w \<in> set (map codes keyword_table))"

text \<open>
  The states an identifier-or-keyword run passes through, and for each of them the rests of
  keywords that still lead to state 12 or 13 from there (none from state 128).
\<close>

definition word_state :: "nat \<Rightarrow> bool" where
  "word_state s = (s = 12 \<or> s = 13 \<or> (19 \<le> s \<and> s \<le> 128))"

definition suffixes :: "nat \<Rightarrow> int list list" where
  "suffixes s = map codes
     (if s = 12 then ['''', ''ing'']
      else if s = 13 then ['''']
      else if s = 19 then [''ase'', ''onsidering'', ''ontains'']
      else if s = 20 then [''at'']
      else if s = 21 then [''alse'', ''ramework'', ''rom'']
      else if s = 22 then [''alue'', ''ersion'']
      else if s = 23 then [''al'']
      else if s = 24 then [''ains'']
      else if s = 25 then [''amework'', ''om'']
      else if s = 26 then [''ation'']
      else if s = 27 then [''bal'']
      else if s = 28 then [''cal'']
      else if s = 29 then [''cript'', ''cripting'', ''et'']
      else if s = 30 then [''cation'']
      else if s = 31 then [''cript'']
      else if s = 32 then [''dditions'', ''nd'', ''pplescript'', ''pplication'']
      else if s = 33 then [''d'']
      else if s = 34 then [''ditions'']
      else if s = 35 then [''dering'']
      else if s = 36 then [''e'', ''issing'', ''od'']
      else if s = 37 then [''e'']
      else if s = 38 then [''epeat'', ''esult'', ''eturn'']
      else if s = 39 then [''ework'']
      else if s = 40 then [''ell'', ''hen'', ''imes'', ''o'', ''rue'', ''ry'']
      else if s = 41 then [''en'']
      else if s = 42 then [''eat'']
      else if s = 43 then [''es'']
      else if s = 44 then [''escript'', ''ication'']
      else if s = 45 then [''erty'']
      else if s = 46 then [''ering'']
      else if s = 47 then [''g'']
      else if s = 48 then [''f'', ''gnoring'', ''n'', ''s'', ''t'']
      else if s = 49 then [''h'']
      else if s = 50 then [''hile'', ''ith'']
      else if s = 51 then [''iv'']
      else if s = 52 then [''it'']
      else if s = 53 then [''idering'']
      else if s = 54 then [''ipt'', ''ipting'']
      else if s = 55 then [''ipt'']
      else if s = 56 then [''ing'']
      else if s = 57 then [''ins'']
      else if s = 58 then [''il'']
      else if s = 59 then [''ile'']
      else if s = 60 then [''ion'']
      else if s = 61 then [''ions'']
      else if s = 62 then [''itions'']
      else if s = 63 then [''k'']
      else if s = 64 then [''l'']
      else if s = 65 then [''lse'', ''nd'', ''rror'', ''xit'']
      else if s = 66 then [''lse'']
      else if s = 67 then [''lt'']
      else if s = 68 then [''lescript'', ''lication'']
      else if s = 69 then [''lobal'']
      else if s = 70 then [''le'']
      else if s = 71 then [''lue'']
      else if s = 72 then [''ll'']
      else if s = 73 then [''m'']
      else if s = 74 then [''mes'']
      else if s = 75 then [''mework'']
      else if s = 76 then [''n'']
      else if s = 77 then [''nsidering'', ''ntains'']
      else if s = 78 then [''ng'']
      else if s = 79 then [''ntil'', ''se'']
      else if s = 80 then [''ns'']
      else if s = 81 then [''noring'']
      else if s = 82 then [''ocal'']
      else if s = 83 then [''ot'']
      else if s = 84 then [''obal'']
      else if s = 85 then [''operty'']
      else if s = 86 then [''on'']
      else if s = 87 then [''or'']
      else if s = 88 then [''ons'']
      else if s = 89 then [''ork'']
      else if s = 90 then [''oring'']
      else if s = 91 then [''pt'']
      else if s = 92 then [''peat'', ''sult'', ''turn'']
      else if s = 93 then [''pt'', ''pting'']
      else if s = 94 then [''plescript'', ''plication'']
      else if s = 95 then [''perty'']
      else if s = 96 then [''r'']
      else if s = 97 then [''rk'']
      else if s = 98 then [''rn'']
      else if s = 99 then [''roperty'']
      else if s = 100 then [''ript'', ''ripting'']
      else if s = 101 then [''ror'']
      else if s = 102 then [''rty'']
      else if s = 103 then [''ring'']
      else if s = 104 then [''ript'']
      else if s = 105 then [''rsion'']
      else if s = 106 then [''s'']
      else if s = 107 then [''script'']
      else if s = 108 then [''se'']
      else if s = 109 then [''ssing'']
      else if s = 110 then [''sidering'', ''tains'']
      else if s = 111 then [''sing'']
      else if s = 112 then [''sion'']
      else if s = 113 then [''ty'']
      else if s = 114 then [''t'']
      else if s = 115 then [''th'']
      else if s = 116 then [''t'', ''ting'']
      else if s = 117 then [''tion'']
      else if s = 118 then [''tions'']
      else if s = 119 then [''til'']
      else if s = 120 then [''ue'', ''y'']
      else if s = 121 then [''ue'']
      else if s = 122 then [''urn'']
      else if s = 123 then [''ult'']
      else if s = 124 then [''v'']
      else if s = 125 then [''work'']
      else if s = 126 then [''y'']
      else if s = 127 then [''f'', ''n'', ''r'']
      else [])"

definition word_symbol :: "nat \<Rightarrow> symbol" where
  "word_symbol s = (if [] \<in> set (suffixes s) then sym_keyword else sym_identifier)"

text \<open>The rests behind a character, computed.\<close>

definition rests_behind :: "int \<Rightarrow> int list list \<Rightarrow> int list list" where
  "rests_behind x ws = map tl (filter (\<lambda>v. v \<noteq> [] \<and> x = hd v) ws)"

lemma rests_behind_iff: "(w \<in> set (rests_behind x ws)) = (x # w \<in> set ws)"
proof
  assume "w \<in> set (rests_behind x ws)"
  then obtain v where "v \<in> set ws" "v \<noteq> []" "hd v = x" "w = tl v"
    by (auto simp: rests_behind_def)
  then show "x # w \<in> set ws" by (cases v) auto
next
  assume "x # w \<in> set ws"
  then show "w \<in> set (rests_behind x ws)"
    by (force simp: rests_behind_def)
qed

text \<open>
  What a state of a run does: it accepts a keyword when the empty rest is among its rests and
  an identifier otherwise; at a character of the run it advances to a state of a run whose
  rests are the rests of this state behind that character, taken in lower case; at any
  other character it returns.
\<close>

definition follows :: "nat \<Rightarrow> int \<Rightarrow> nat \<Rightarrow> bool" where
  "follows s la n =
     (is_ident la \<and> word_state n \<and> rests_behind (lower_case la) (suffixes s) = suffixes n)"

definition word_next :: "nat \<Rightarrow> int \<Rightarrow> next_step \<Rightarrow> bool" where
  "word_next s la nxt =
     (if is_ident la then \<exists>n. nxt = ADVANCE n \<and> follows s la n else nxt = END_STATE)"

definition word_ok :: "nat \<Rightarrow> int \<Rightarrow> symbol option \<times> next_step \<Rightarrow> bool" where
  "word_ok s la r = (fst r = Some (word_symbol s) \<and> word_next s la (snd r))"

lemma followsI:
  "is_ident la \<Longrightarrow> word_state n \<Longrightarrow> rests_behind (lower_case la) (suffixes s) = suffixes n \<Longrightarrow>
   follows s la n"
  by (simp add: follows_def)

lemma word_next_if:
  "(c \<Longrightarrow> follows s la n) \<Longrightarrow> (\<not> c \<Longrightarrow> word_next s la b) \<Longrightarrow>
   word_next s la (if c then ADVANCE n else b)"
  by (auto simp: word_next_def follows_def)

lemma word_next_END: "\<not> is_ident la \<Longrightarrow> word_next s la END_STATE"
  by (simp add: word_next_def)

lemma word_next_map:
  "list_all (\<lambda>(k, n). follows s k n) tbl \<Longrightarrow>
   (ADVANCE_MAP tbl la = None \<Longrightarrow> word_next s la b) \<Longrightarrow>
   word_next s la (case ADVANCE_MAP tbl la of Some n \<Rightarrow> ADVANCE n | None \<Rightarrow> b)"
  by (auto simp: ADVANCE_MAP_def list_all_iff word_next_def follows_def
      split: option.splits dest!: map_of_SomeD)

lemma word_okI: "a = Some (word_symbol s) \<Longrightarrow> word_next s la n \<Longrightarrow> word_ok s la (a, n)"
  by (simp add: word_ok_def)

text \<open>The two forms of the last conditional of these states.\<close>

lemma ident_range:
  "((48 \<le> la \<and> la \<le> 57) \<or> (65 \<le> la \<and> la \<le> 90) \<or> la = 95 \<or> (97 \<le> la \<and> la \<le> 122)) = is_ident la"
  by (simp add: is_ident_def)

lemma ident_range_b:
  "((48 \<le> la \<and> la \<le> 57) \<or> (66 \<le> la \<and> la \<le> 90) \<or> la = 95 \<or> (98 \<le> la \<and> la \<le> 122)) =
   (is_ident la \<and> \<not> (la = 65 \<or> la = 97))"
  by (auto simp: is_ident_def)

lemma is_ident_numeral:
  "is_ident (numeral k) =
     ((48 \<le> (numeral k :: int) \<and> (numeral k :: int) \<le> 57) \<or>
      (65 \<le> (numeral k :: int) \<and> (numeral k :: int) \<le> 90) \<or> (numeral k :: int) = 95 \<or>
      (97 \<le> (numeral k :: int) \<and> (numeral k :: int) \<le> 122))"
  by (simp add: is_ident_def)

lemma lower_case_numeral:
  "lower_case (numeral k) =
     (if 65 \<le> (numeral k :: int) \<and> (numeral k :: int) \<le> 90 then numeral k + 32 else numeral k)"
  by (simp add: lower_case_def)

lemma lower_case_eq:
  "97 \<le> x \<Longrightarrow> x \<le> 122 \<Longrightarrow> (lower_case la = x) = (la = x - 32 \<or> la = x)"
  by (auto simp: lower_case_def)

lemma ADVANCE_MAP_None: "(ADVANCE_MAP tbl la = None) = (la \<notin> set (map fst tbl))"
  by (simp add: ADVANCE_MAP_def map_of_eq_None_iff)

lemmas word_eval =
  suffixes_def codes_def rests_behind_def word_state_def word_symbol_def follows_def
  is_ident_numeral lower_case_numeral lower_case_eq ADVANCE_MAP_None

lemma drop_19_cases:
  "drop 19 ts_lex_cases = [case_19, case_20, case_21, case_22, case_23, case_24, case_25,
     case_26, case_27, case_28, case_29, case_30, case_31, case_32, case_33, case_34, case_35,
     case_36, case_37, case_38, case_39, case_40, case_41, case_42, case_43, case_44, case_45,
     case_46, case_47, case_48, case_49, case_50, case_51, case_52, case_53, case_54, case_55,
     case_56, case_57, case_58, case_59, case_60, case_61, case_62, case_63, case_64, case_65,
     case_66, case_67, case_68, case_69, case_70, case_71, case_72, case_73, case_74, case_75,
     case_76, case_77, case_78, case_79, case_80, case_81, case_82, case_83, case_84, case_85,
     case_86, case_87, case_88, case_89, case_90, case_91, case_92, case_93, case_94, case_95,
     case_96, case_97, case_98, case_99, case_100, case_101, case_102, case_103, case_104,
     case_105, case_106, case_107, case_108, case_109, case_110, case_111, case_112, case_113,
     case_114, case_115, case_116, case_117, case_118, case_119, case_120, case_121, case_122,
     case_123, case_124, case_125, case_126, case_127, case_128]"
  by (simp add: ts_lex_cases_def)

lemmas index_simps = One_nat_def [symmetric] Suc_1 Suc_numeral add_num_simps

lemma word_cases_from_19:
  "all_states_from 19 (\<lambda>s c. \<forall>la e. word_ok s la (c la e)) (drop 19 ts_lex_cases)"
  unfolding drop_19_cases all_states_from.simps
  apply (simp only: index_simps)
  unfolding case_defs
  apply (simp only: ident_range ident_range_b)
  apply (intro conjI allI word_okI word_next_if word_next_END word_next_map followsI;
         (elim disjE; hypsubst)?; simp add: word_eval)
  done

lemma word_cases_12_13:
  "word_ok 12 la (case_12 la e)" "word_ok 13 la (case_13 la e)"
  unfolding case_defs
  by (simp_all only: ident_range ident_range_b)
    (intro conjI allI word_okI word_next_if word_next_END word_next_map followsI;
      (elim disjE; hypsubst)?; simp add: word_eval)+

lemma word_switch:
  assumes "word_state s"
  shows "\<exists>r. ts_lex_switch s la e = Some r \<and> word_ok s la r"
proof -
  consider "s = 12" | "s = 13" | "19 \<le> s" "s \<le> 128"
    using assms by (auto simp: word_state_def)
  then show ?thesis
  proof cases
    case 1
    then show ?thesis
      by (simp add: ts_lex_switch_def ts_lex_cases_def word_cases_12_13)
  next
    case 2
    then show ?thesis
      by (simp add: ts_lex_switch_def ts_lex_cases_def word_cases_12_13)
  next
    case 3
    have len: "length ts_lex_cases = 129" by (simp add: ts_lex_cases_def)
    with 3 have lt: "s - 19 < length (drop 19 ts_lex_cases)" and l: "s < length ts_lex_cases"
      by simp_all
    have "drop 19 ts_lex_cases ! (s - 19) = ts_lex_cases ! s"
      using 3 by (simp add: len)
    with all_states_fromD [OF word_cases_from_19 lt] 3
    have "word_ok s la ((ts_lex_cases ! s) la e)" by simp
    with l show ?thesis by (simp add: ts_lex_switch_def)
  qed
qed

text \<open>What state 0 does with the first character of a run.\<close>

definition word_start :: "int \<Rightarrow> next_step \<Rightarrow> bool" where
  "word_start c nxt =
     (is_ident_start c \<longrightarrow>
      (\<exists>n. nxt = ADVANCE n \<and> word_state n \<and>
           rests_behind (lower_case c) (map codes keyword_table) = suffixes n))"

lemma word_start_if:
  "(c' \<Longrightarrow> word_start c a) \<Longrightarrow> (\<not> c' \<Longrightarrow> word_start c b) \<Longrightarrow>
   word_start c (if c' then a else b)"
  by simp

lemma word_start_map:
  "list_all (\<lambda>(k, n). word_start k (ADVANCE n)) tbl \<Longrightarrow>
   (ADVANCE_MAP tbl c = None \<Longrightarrow> word_start c b) \<Longrightarrow>
   word_start c (case ADVANCE_MAP tbl c of Some n \<Rightarrow> ADVANCE n | None \<Rightarrow> b)"
  by (auto simp: ADVANCE_MAP_def list_all_iff split: option.splits dest!: map_of_SomeD)

lemma word_start_ADVANCE:
  "(is_ident_start c \<Longrightarrow>
      word_state n \<and> rests_behind (lower_case c) (map codes keyword_table) = suffixes n) \<Longrightarrow>
   word_start c (ADVANCE n)"
  by (simp add: word_start_def)

lemma word_start_other:
  "\<not> is_ident_start c \<Longrightarrow> word_start c (SKIP n)"
  "\<not> is_ident_start c \<Longrightarrow> word_start c END_STATE"
  by (simp_all add: word_start_def)

lemma is_ident_start_numeral:
  "is_ident_start (numeral k) =
     ((65 \<le> (numeral k :: int) \<and> (numeral k :: int) \<le> 90) \<or> (numeral k :: int) = 95 \<or>
      (97 \<le> (numeral k :: int) \<and> (numeral k :: int) \<le> 122))"
  by (simp add: is_ident_start_def)

lemma case_0_table_start:
  "list_all (\<lambda>(k, n). word_start k (ADVANCE n))
     [(34, 2), (35, 1), (40, 18), (45, 15), (47, 16), (60, 16), (62, 16),
         (65, 32), (97, 32), (66, 126), (98, 126), (67, 19), (99, 19), (68, 51), (100, 51),
         (69, 65), (101, 65), (70, 21), (102, 21), (71, 69), (103, 69), (73, 48), (105, 48),
         (76, 82), (108, 82), (77, 36), (109, 36), (78, 83), (110, 83), (79, 127), (111, 127),
         (80, 99), (112, 99), (82, 38), (114, 38), (83, 29), (115, 29), (84, 40), (116, 40),
         (85, 79), (117, 79), (86, 22), (118, 22), (87, 50), (119, 50)]"
  by (simp add: word_start_def is_ident_start_numeral keyword_table_def word_eval)

lemma case_0_start: "word_start c (snd (case_0 c False))"
  unfolding case_0_def snd_conv
  apply (simp only: if_False)
  apply (intro word_start_map word_start_if word_start_ADVANCE word_start_other
      case_0_table_start)
       apply (auto simp: is_ident_start_def)[4]
   apply (simp add: keyword_table_def word_eval)
  apply (simp add: ADVANCE_MAP_None is_ident_start_def)
  apply arith
  done

text \<open>A run from a state of a run: the loop stops behind the run and accepts there.\<close>

lemma follows_rests:
  "follows s la n \<Longrightarrow> (lower_case la # w \<in> set (suffixes s)) = (w \<in> set (suffixes n))"
  using rests_behind_iff [of w "lower_case la" "suffixes s"] by (simp add: follows_def)

lemma not_ident_lookahead:
  "rest = [] \<or> \<not> is_ident (hd rest) \<Longrightarrow> \<not> is_ident (case rest of [] \<Rightarrow> 0 | c # cs \<Rightarrow> c)"
  by (cases rest) (simp_all add: is_ident_def)

lemma lex_loop_word:
  assumes "word_state s" and "list_all is_ident w" and "unread lexer = w @ rest"
    and "rest = [] \<or> \<not> is_ident (hd rest)"
  shows "lex_loop lexer result s =
     (True, lexer\<lparr>result_symbol :=
                    (if map lower_case w \<in> set (suffixes s) then sym_keyword
                     else sym_identifier),
                  unread := rest, position := position lexer + length w,
                  token_end := position lexer + length w\<rparr>)"
  using assms(1-3)
proof (induction w arbitrary: s lexer result)
  case Nil
  then have u: "unread lexer = rest" by simp
  let ?la = "case rest of [] \<Rightarrow> 0 | c # cs \<Rightarrow> c"
  have ni: "\<not> is_ident ?la" using assms(4) by (rule not_ident_lookahead)
  show ?case
  proof (cases rest)
    case Nil
    with u have u': "unread lexer = []" by simp
    from word_switch [OF Nil.prems(1), of 0 True] obtain r
      where r: "ts_lex_switch s 0 True = Some r" "word_ok s 0 r" by blast
    with ni Nil have "r = (Some (word_symbol s), END_STATE)"
      by (cases r) (simp add: word_ok_def word_next_def)
    with r(1) show ?thesis
      by (subst lex_loop_Nil [OF u'])
        (simp add: ACCEPT_TOKEN_def mark_end_def word_symbol_def Nil u')
  next
    case (Cons c cs)
    with u have u': "unread lexer = c # cs" by simp
    from word_switch [OF Nil.prems(1), of c False] obtain r
      where r: "ts_lex_switch s c False = Some r" "word_ok s c r" by blast
    with ni Cons have "r = (Some (word_symbol s), END_STATE)"
      by (cases r) (simp add: word_ok_def word_next_def)
    with r(1) show ?thesis
      by (subst lex_loop_Cons [OF u'])
        (simp add: ACCEPT_TOKEN_def mark_end_def word_symbol_def Cons u')
  qed
next
  case (Cons c w)
  then have c: "is_ident c" and w: "list_all is_ident w"
    and u: "unread lexer = c # (w @ rest)"
    by simp_all
  from word_switch [OF Cons.prems(1), of c False] obtain r
    where r: "ts_lex_switch s c False = Some r" "word_ok s c r" by blast
  with c obtain n where n: "r = (Some (word_symbol s), ADVANCE n)" and f: "follows s c n"
    by (cases r) (auto simp: word_ok_def word_next_def)
  from f have ws: "word_state n" by (simp add: follows_def)
  let ?l = "lexer\<lparr>result_symbol := word_symbol s, token_end := position lexer,
                   unread := w @ rest, position := position lexer + 1\<rparr>"
  have "lex_loop lexer result s = lex_loop ?l True n"
    by (subst lex_loop_Cons [OF u]) (simp add: r(1) n ACCEPT_TOKEN_def mark_end_def)
  also have "\<dots> = (True, ?l\<lparr>result_symbol :=
                    (if map lower_case w \<in> set (suffixes n) then sym_keyword
                     else sym_identifier),
                  unread := rest, position := position ?l + length w,
                  token_end := position ?l + length w\<rparr>)"
    by (rule Cons.IH [OF ws w]) simp
  finally show ?case using follows_rests [OF f, of "map lower_case w"] by simp
qed

lemma start_rests:
  assumes "rests_behind (lower_case c) (map codes keyword_table) = suffixes n"
  shows "(w \<in> set (suffixes n)) = (lower_case c # w \<in> set (map codes keyword_table))"
  using rests_behind_iff [of w "lower_case c" "map codes keyword_table"] assms by simp

section \<open>Identifier or keyword\<close>

text \<open>
  The run \<^verbatim>\<open>to\<close> is in the keyword table: the token is a keyword, not an identifier.
\<close>

theorem keyword_run_is_a_keyword:
  "scan_one (codes ''to'') 0 =
     Inr (\<lparr>tok_kind = sym_keyword, tok_start = 0, tok_end = 2, tok_text = codes ''to''\<rparr>, 2)"
  by (simp add: codes_def lex_eval)

text \<open>
  Claim C3, amended. For every identifier-or-keyword run (a letter or underscore followed by
  letters, digits and underscores, up to a character that is none of these or to the end of
  the input), the token the Scanner emits spans the whole run. It is classified as an
  identifier, except when the run, taken in lower case, is one of the 49 words of the keyword
  table: then it is classified as a keyword.
\<close>

theorem run_is_identifier_or_keyword:
  assumes "drop cursor input = ws @ c # w @ rest" and "list_all is_space ws"
    and "is_ident_start c" and "list_all is_ident w"
    and "rest = [] \<or> \<not> is_ident (hd rest)"
  shows "scan_one input cursor =
     Inr (\<lparr>tok_kind = (if is_keyword (c # w) then sym_keyword else sym_identifier),
           tok_start = cursor + length ws, tok_end = cursor + length ws + length (c # w),
           tok_text = c # w\<rparr>,
          cursor + length ws + length (c # w))"
proof -
  from case_0_start [of c] assms(3) obtain n
    where n: "snd (case_0 c False) = ADVANCE n" and ws: "word_state n"
      and rb: "rests_behind (lower_case c) (map codes keyword_table) = suffixes n"
    by (auto simp: word_start_def)
  have a: "fst (case_0 c False) = None" by (simp add: case_0_def)
  from n a have c0: "case_0 c False = (None, ADVANCE n)" by (cases "case_0 c False") simp
  let ?rest = "c # w @ rest"
  let ?l = "\<lparr>unread = ?rest, position = cursor + length ws,
             token_start = cursor + length ws, token_end = cursor,
             result_symbol = ts_builtin_sym_end\<rparr>"
  let ?l1 = "?l\<lparr>unread := w @ rest, position := position ?l + 1\<rparr>"
  let ?sym = "if map lower_case w \<in> set (suffixes n) then sym_keyword else sym_identifier"
  let ?l2 = "?l1\<lparr>result_symbol := ?sym, unread := rest,
                  position := position ?l1 + length w,
                  token_end := position ?l1 + length w\<rparr>"
  have u: "unread ?l = c # (w @ rest)" by simp
  have "lex_loop ?l False 0 = lex_loop ?l1 False n"
    by (subst lex_loop_Cons [OF u]) (simp add: switch_0 c0 ACCEPT_TOKEN_def)
  also have "\<dots> = (True, ?l2)"
    by (rule lex_loop_word [OF ws assms(4) _ assms(5)]) simp
  finally have run: "lex_loop ?l False 0 = (True, ?l2)" .
  have "scan_one input cursor =
     Inr (\<lparr>tok_kind = result_symbol ?l2, tok_start = cursor + length ws,
           tok_end = cursor + length ws + length (c # w),
           tok_text = take (length (c # w)) ?rest\<rparr>,
          cursor + length ws + length (c # w))"
    by (rule scan_one_token [OF assms(1,2) run]) simp_all
  moreover have "(map lower_case w \<in> set (suffixes n)) = is_keyword (c # w)"
    using start_rests [OF rb, of "map lower_case w"] by (simp add: is_keyword_def)
  ultimately show ?thesis by simp
qed

theorem run_is_identifier_or_keyword_witness:
  "scan_one (codes ''  Then_1+'') 1 =
     Inr (\<lparr>tok_kind = sym_identifier, tok_start = 2, tok_end = 8, tok_text = codes ''Then_1''\<rparr>,
          8) \<and>
   scan_one (codes ''  tHEN+'') 1 =
     Inr (\<lparr>tok_kind = sym_keyword, tok_start = 2, tok_end = 6, tok_text = codes ''tHEN''\<rparr>, 6)"
proof -
  have "drop 1 (codes ''  Then_1+'') = codes '' '' @ 84 # codes ''hen_1'' @ codes ''+''"
    and "list_all is_space (codes '' '')" and "is_ident_start 84"
    and "list_all is_ident (codes ''hen_1'')"
    and "codes ''+'' = [] \<or> \<not> is_ident (hd (codes ''+''))"
    by (simp_all add: codes_def is_space_def is_ident_start_def is_ident_def)
  from run_is_identifier_or_keyword [OF this]
  have a: "scan_one (codes ''  Then_1+'') 1 =
     Inr (\<lparr>tok_kind = sym_identifier, tok_start = 2, tok_end = 8, tok_text = codes ''Then_1''\<rparr>,
          8)"
    by (simp add: codes_def is_keyword_def keyword_table_def lower_case_def eval_nat_numeral)
  have "drop 1 (codes ''  tHEN+'') = codes '' '' @ 116 # codes ''HEN'' @ codes ''+''"
    and "list_all is_space (codes '' '')" and "is_ident_start 116"
    and "list_all is_ident (codes ''HEN'')"
    and "codes ''+'' = [] \<or> \<not> is_ident (hd (codes ''+''))"
    by (simp_all add: codes_def is_space_def is_ident_start_def is_ident_def)
  from run_is_identifier_or_keyword [OF this]
  have "scan_one (codes ''  tHEN+'') 1 =
     Inr (\<lparr>tok_kind = sym_keyword, tok_start = 2, tok_end = 6, tok_text = codes ''tHEN''\<rparr>, 6)"
    by (simp add: codes_def is_keyword_def keyword_table_def lower_case_def eval_nat_numeral)
  with a show ?thesis by simp
qed

section \<open>The case of letters\<close>

text \<open>
  Two characters are the same letter when they are equal or one is a capital letter and the
  other the small letter that belongs to it; two inputs differ only in the case of letters
  when they have the same length and the same letter at every offset.
\<close>

definition same_letter :: "int \<Rightarrow> int \<Rightarrow> bool" where
  "same_letter x y =
     (x = y \<or> (65 \<le> x \<and> x \<le> 90 \<and> y = x + 32) \<or> (65 \<le> y \<and> y \<le> 90 \<and> x = y + 32))"

lemma same_letter_lower: "same_letter x y \<Longrightarrow> lower_case x = lower_case y"
  by (auto simp: same_letter_def lower_case_def)

text \<open>A function of the lookahead that does not see the case of letters.\<close>

definition case_blind :: "(int \<Rightarrow> 'a) \<Rightarrow> bool" where
  "case_blind f = (\<forall>la. f la = f (lower_case la))"

lemma case_blind_const: "case_blind (\<lambda>la. k)"
  by (simp add: case_blind_def)

lemma case_blind_Pair: "case_blind g \<Longrightarrow> case_blind (\<lambda>la. (a, g la))"
  by (simp add: case_blind_def)

lemma case_blind_if:
  "case_blind c \<Longrightarrow> case_blind a \<Longrightarrow> case_blind b \<Longrightarrow>
   case_blind (\<lambda>la. if c la then a la else b la)"
  by (simp add: case_blind_def)

lemma case_blind_case:
  assumes "case_blind (ADVANCE_MAP tbl)" and "case_blind b"
  shows "case_blind (\<lambda>la. case ADVANCE_MAP tbl la of Some n \<Rightarrow> ADVANCE n | None \<Rightarrow> b la)"
  unfolding case_blind_def
proof
  fix la
  from assms have "ADVANCE_MAP tbl la = ADVANCE_MAP tbl (lower_case la)"
    and "b la = b (lower_case la)"
    by (simp_all add: case_blind_def)
  then show "(case ADVANCE_MAP tbl la of Some n \<Rightarrow> ADVANCE n | None \<Rightarrow> b la) =
      (case ADVANCE_MAP tbl (lower_case la) of Some n \<Rightarrow> ADVANCE n
       | None \<Rightarrow> b (lower_case la))"
    by (simp split: option.split)
qed

lemma case_blind_letters:
  "X + 32 = x \<Longrightarrow> 65 \<le> X \<Longrightarrow> X \<le> 90 \<Longrightarrow> case_blind (\<lambda>la. la = X \<or> la = x)"
  by (auto simp: case_blind_def lower_case_def)

lemma case_blind_ident: "case_blind is_ident"
  by (auto simp: case_blind_def lower_case_def is_ident_def)

lemma case_blind_ident_b: "case_blind (\<lambda>la. is_ident la \<and> \<not> (la = 65 \<or> la = 97))"
  by (auto simp: case_blind_def lower_case_def is_ident_def)

definition capitals :: "int list" where
  "capitals = codes ''ABCDEFGHIJKLMNOPQRSTUVWXYZ''"

lemma capital_cases: "65 \<le> c \<Longrightarrow> c \<le> 90 \<Longrightarrow> c \<in> set capitals"
  by (simp add: capitals_def codes_def) arith

lemma case_blind_table:
  assumes "list_all (\<lambda>x. map_of tbl x = map_of tbl (x + 32)) capitals"
  shows "case_blind (ADVANCE_MAP tbl)"
  unfolding case_blind_def ADVANCE_MAP_def
proof
  fix la
  show "map_of tbl la = map_of tbl (lower_case la)"
  proof (cases "65 \<le> la \<and> la \<le> 90")
    case True
    then have "la \<in> set capitals" by (simp add: capital_cases)
    with assms True show ?thesis by (simp add: list_all_iff lower_case_def)
  next
    case False
    then show ?thesis by (auto simp: lower_case_def)
  qed
qed

lemma cases_case_blind: "list_all (\<lambda>c. \<forall>e. case_blind (\<lambda>la. c la e)) ts_lex_cases"
  unfolding ts_lex_cases_def list.pred_inject case_defs
  apply (simp only: ident_range ident_range_b)
  apply (intro conjI allI case_blind_Pair case_blind_if case_blind_case case_blind_const
      case_blind_letters case_blind_ident case_blind_ident_b case_blind_table)
  apply (simp_all add: capitals_def codes_def)
  apply (auto simp: case_blind_def lower_case_def)
  done

lemma switch_case_blind:
  assumes "same_letter x y"
  shows "ts_lex_switch s x e = ts_lex_switch s y e"
proof (cases "s < length ts_lex_cases")
  case True
  with cases_case_blind have "case_blind (\<lambda>la. (ts_lex_cases ! s) la e)"
    by (simp add: list_all_length)
  then have "(ts_lex_cases ! s) x e = (ts_lex_cases ! s) (lower_case x) e"
    and "(ts_lex_cases ! s) y e = (ts_lex_cases ! s) (lower_case y) e"
    by (simp_all add: case_blind_def)
  with same_letter_lower [OF assms] True show ?thesis by (simp add: ts_lex_switch_def)
next
  case False
  then show ?thesis by (simp add: ts_lex_switch_def)
qed

text \<open>Two lexers that differ only in the case of the letters they have not read yet.\<close>

definition same_lexer :: "TSLexer \<Rightarrow> TSLexer \<Rightarrow> bool" where
  "same_lexer a b =
     (list_all2 same_letter (unread a) (unread b) \<and> position a = position b \<and>
      token_start a = token_start b \<and> token_end a = token_end b \<and>
      result_symbol a = result_symbol b)"

lemma same_lexer_lookahead:
  assumes "same_lexer a b"
  shows "same_letter (lookahead_of a) (lookahead_of b)" and "eof_of a = eof_of b"
  using assms
  by (auto simp: same_lexer_def lookahead_of_def eof_of_def same_letter_def list_all2_Cons1
      split: list.splits)

lemma same_lexer_ACCEPT_TOKEN:
  assumes "same_lexer a b" and "ACCEPT_TOKEN accepted (result, a) = (result', a')"
  shows "\<exists>b'. ACCEPT_TOKEN accepted (result, b) = (result', b') \<and> same_lexer a' b'"
  using assms by (auto simp: ACCEPT_TOKEN_def same_lexer_def mark_end_def split: option.splits)

lemma same_lexer_advance:
  assumes "same_lexer a b"
  shows "same_lexer (advance a skip) (advance b skip)"
  using assms
  by (auto simp: same_lexer_def advance_def list_all2_Cons1 split: list.splits)

lemma lex_loop_same:
  assumes "same_lexer a b" and "lex_loop a result state = (r, a')"
  shows "\<exists>b'. lex_loop b result state = (r, b') \<and> same_lexer a' b'"
  using assms
proof (induction a result state arbitrary: b r a' rule: lex_loop.induct)
  case (1 lexer result state)
  note same = "1.prems"(1)
  from same_lexer_lookahead [OF same]
  have sw: "ts_lex_switch state (lookahead_of b) (eof_of b) =
      ts_lex_switch state (lookahead_of lexer) (eof_of lexer)"
    by (simp add: switch_case_blind)
  show ?case
  proof (cases "ts_lex_switch state (lookahead_of lexer) (eof_of lexer)")
    case None
    with "1.prems"(2) have "r = False" "a' = lexer" by (simp_all add: lex_loop_default)
    moreover from None sw have "lex_loop b result state = (False, b)"
      by (simp add: lex_loop_default)
    ultimately show ?thesis using same by simp
  next
    case (Some x2)
    obtain accepted nxt where x2: "x2 = (accepted, nxt)" by (cases x2)
    obtain result' lexer' where acc: "ACCEPT_TOKEN accepted (result, lexer) = (result', lexer')"
      by (cases "ACCEPT_TOKEN accepted (result, lexer)")
    from same_lexer_ACCEPT_TOKEN [OF same acc] obtain b1
      where accb: "ACCEPT_TOKEN accepted (result, b) = (result', b1)"
        and same1: "same_lexer lexer' b1"
      by blast
    note swa = Some [unfolded x2]
    from sw swa have swb: "ts_lex_switch state (lookahead_of b) (eof_of b) = Some (accepted, nxt)"
      by simp
    show ?thesis
    proof (cases nxt)
      case (ADVANCE n)
      from "1.prems"(2) ADVANCE have "lex_loop (advance lexer' False) result' n = (r, a')"
        by (simp add: lex_loop_unfold [OF swa acc])
      from "1.IH"(1) [OF Some x2 [symmetric] acc [symmetric] ADVANCE
          same_lexer_advance [OF same1] this]
      show ?thesis using ADVANCE by (simp add: lex_loop_unfold [OF swb accb])
    next
      case (SKIP n)
      from "1.prems"(2) SKIP have "lex_loop (advance lexer' True) result' n = (r, a')"
        by (simp add: lex_loop_unfold [OF swa acc])
      from "1.IH"(2) [OF Some x2 [symmetric] acc [symmetric] SKIP
          same_lexer_advance [OF same1] this]
      show ?thesis using SKIP by (simp add: lex_loop_unfold [OF swb accb])
    next
      case END_STATE
      with "1.prems"(2) have "r = result'" "a' = lexer'"
        by (simp_all add: lex_loop_unfold [OF swa acc])
      with END_STATE same1 show ?thesis by (simp add: lex_loop_unfold [OF swb accb])
    qed
  qed
qed

text \<open>The category and the span of a token, without its text.\<close>

definition outline :: "token \<Rightarrow> symbol \<times> nat \<times> nat" where
  "outline t = (tok_kind t, tok_start t, tok_end t)"

lemma lex_error_same:
  assumes "list_all2 same_letter xs ys"
  shows "lex_error xs offset = lex_error ys offset"
proof -
  from assms have d: "list_all2 same_letter (drop offset xs) (drop offset ys)"
    by (rule list_all2_dropI)
  have p: "same_letter x y \<Longrightarrow> (x = 34) = (y = 34) \<and> (x = 40) = (y = 40) \<and> (x = 42) = (y = 42)"
    for x y
    by (auto simp: same_letter_def)
  show ?thesis
  proof (cases "drop offset xs")
    case Nil
    with d show ?thesis by (simp add: lex_error_def)
  next
    case (Cons x xs')
    with d obtain y ys' where ys: "drop offset ys = y # ys'" and xy: "same_letter x y"
      and r: "list_all2 same_letter xs' ys'"
      by (auto simp: list_all2_Cons1)
    have "(take 1 xs' = [42]) = (take 1 ys' = [42])"
    proof (cases xs')
      case Nil
      with r show ?thesis by simp
    next
      case (Cons x' xs'')
      with r obtain y' ys'' where "ys' = y' # ys''" "same_letter x' y'"
        by (auto simp: list_all2_Cons1)
      with Cons p [of x' y'] show ?thesis by simp
    qed
    with Cons ys p [OF xy] show ?thesis by (simp add: lex_error_def)
  qed
qed

lemma scan_one_same:
  assumes "list_all2 same_letter xs ys"
  shows "(\<forall>t c. scan_one xs cursor = Inr (t, c) \<longrightarrow>
            (\<exists>t'. scan_one ys cursor = Inr (t', c) \<and> outline t' = outline t)) \<and>
         (\<forall>err. scan_one xs cursor = Inl err \<longrightarrow> scan_one ys cursor = Inl err)"
proof -
  obtain r a where run: "ts_lex (start_lexer xs cursor) 0 = (r, a)"
    by (cases "ts_lex (start_lexer xs cursor) 0")
  have "same_lexer (start_lexer xs cursor) (start_lexer ys cursor)"
    using assms by (simp add: same_lexer_def start_lexer_def list_all2_dropI)
  from lex_loop_same [OF this run [unfolded ts_lex_def]] obtain b
    where runb: "ts_lex (start_lexer ys cursor) 0 = (r, b)" and same: "same_lexer a b"
    by (auto simp: ts_lex_def)
  from run runb same lex_error_same [OF assms] show ?thesis
    by (cases r) (auto simp: scan_one_def same_lexer_def outline_def)
qed

lemma tokenize_from_same:
  assumes "list_all2 same_letter xs ys" and "cursor \<le> length xs"
    and "map outline acc = map outline acc'"
  shows "\<exists>toks toks' err. tokenize_from xs cursor acc = Some (toks, err) \<and>
           tokenize_from ys cursor acc' = Some (toks', err) \<and>
           map outline toks = map outline toks'"
  using assms(2,3)
proof (induction "length xs - cursor" arbitrary: cursor acc acc' rule: less_induct)
  case less
  note s = scan_one_same [OF assms(1), of cursor]
  show ?case
  proof (cases "scan_one xs cursor")
    case (Inl err)
    with s have "scan_one ys cursor = Inl err" by simp
    with Inl have "tokenize_from xs cursor acc = Some (acc, Some err)"
      and "tokenize_from ys cursor acc' = Some (acc', Some err)"
      by (subst tokenize_from.simps, simp)+
    with less.prems show ?thesis by simp
  next
    case (Inr p)
    obtain t c where p: "p = (t, c)" by (cases p)
    with Inr s obtain t' where t': "scan_one ys cursor = Inr (t', c)" and o: "outline t' = outline t"
      by auto
    note scan = Inr [unfolded p]
    from o have k: "tok_kind t' = tok_kind t" by (simp add: outline_def)
    show ?thesis
    proof (cases "tok_kind t = ts_builtin_sym_end")
      case True
      with scan t' k have "tokenize_from xs cursor acc = Some (acc @ [t], None)"
        and "tokenize_from ys cursor acc' = Some (acc' @ [t'], None)"
        by (subst tokenize_from.simps, simp)+
      with less.prems o show ?thesis by simp
    next
      case False
      with scan t' k have unf: "tokenize_from xs cursor acc = tokenize_from xs c (acc @ [t])"
        "tokenize_from ys cursor acc' = tokenize_from ys c (acc' @ [t'])"
        by (subst tokenize_from.simps, simp)+
      note f = scan_one_Inr [OF less.prems(1) scan]
      from f(1,7) False have "cursor < c" by simp
      with f(4) have "length xs - c < length xs - cursor" by simp
      from less.hyps [OF this f(4), of "acc @ [t]" "acc' @ [t']"] less.prems(2) o unf
      show ?thesis by simp
    qed
  qed
qed

lemma well_spaced_text:
  "well_spaced input start toks \<Longrightarrow>
   list_all (\<lambda>t. tok_text t = slice input (tok_start t) (tok_end t)) toks"
  by (induction toks arbitrary: start) auto

section \<open>Case-insensitive matching\<close>

text \<open>
  Claim C8. Keyword matching does not see the case of letters, and the text of a token keeps
  it: for every pair of inputs that differ only in the case of letters, tokenization yields
  the same sequence of token categories and spans (and the same error, if any), and the text
  of every token is its span of the input as it was written. The input \<^verbatim>\<open>Foo\<close> yields
  a single identifier token with the text \<^verbatim>\<open>Foo\<close>, and then the end of the input.
\<close>

theorem case_of_letters_keeps_kinds_and_spans:
  "(\<forall>xs ys. list_all2 same_letter xs ys \<longrightarrow>
      (\<exists>toks toks' err.
         tokenize xs = Some (toks, err) \<and> tokenize ys = Some (toks', err) \<and>
         map outline toks = map outline toks' \<and>
         list_all (\<lambda>t. tok_text t = slice xs (tok_start t) (tok_end t)) toks \<and>
         list_all (\<lambda>t. tok_text t = slice ys (tok_start t) (tok_end t)) toks')) \<and>
   tokenize (codes ''Foo'') =
     Some ([\<lparr>tok_kind = sym_identifier, tok_start = 0, tok_end = 3, tok_text = codes ''Foo''\<rparr>,
            \<lparr>tok_kind = ts_builtin_sym_end, tok_start = 3, tok_end = 3, tok_text = []\<rparr>],
           None)"
proof (intro conjI allI impI)
  fix xs ys
  assume same: "list_all2 same_letter xs ys"
  from tokenize_from_same [OF same, of 0 "[]" "[]"] obtain toks toks' err
    where t: "tokenize xs = Some (toks, err)" "tokenize ys = Some (toks', err)"
      and o: "map outline toks = map outline toks'"
    by (auto simp: tokenize_def)
  from tokenize_total [of xs] t(1) have "well_spaced xs 0 toks" by auto
  moreover from tokenize_total [of ys] t(2) have "well_spaced ys 0 toks'" by auto
  ultimately show "\<exists>toks toks' err.
         tokenize xs = Some (toks, err) \<and> tokenize ys = Some (toks', err) \<and>
         map outline toks = map outline toks' \<and>
         list_all (\<lambda>t. tok_text t = slice xs (tok_start t) (tok_end t)) toks \<and>
         list_all (\<lambda>t. tok_text t = slice ys (tok_start t) (tok_end t)) toks'"
    using t o by (blast dest: well_spaced_text)
next
  show "tokenize (codes ''Foo'') =
     Some ([\<lparr>tok_kind = sym_identifier, tok_start = 0, tok_end = 3, tok_text = codes ''Foo''\<rparr>,
            \<lparr>tok_kind = ts_builtin_sym_end, tok_start = 3, tok_end = 3, tok_text = []\<rparr>],
           None)"
    by (simp add: tokenize_def tokenize_from.simps codes_def lex_eval)
qed

theorem case_of_letters_keeps_kinds_and_spans_witness:
  "map outline (fst (the (tokenize (codes ''End IF'')))) =
     map outline (fst (the (tokenize (codes ''eNd if'')))) \<and>
   map outline (fst (the (tokenize (codes ''eNd if'')))) =
     [(sym_keyword, 0, 3), (sym_keyword, 4, 6), (ts_builtin_sym_end, 6, 6)]"
proof -
  have "list_all2 same_letter (codes ''End IF'') (codes ''eNd if'')"
    by (simp add: codes_def same_letter_def)
  with case_of_letters_keeps_kinds_and_spans obtain toks toks' err
    where "tokenize (codes ''End IF'') = Some (toks, err)"
      and "tokenize (codes ''eNd if'') = Some (toks', err)"
      and "map outline toks = map outline toks'"
    by blast
  moreover have "map outline (fst (the (tokenize (codes ''eNd if'')))) =
     [(sym_keyword, 0, 3), (sym_keyword, 4, 6), (ts_builtin_sym_end, 6, 6)]"
    by (simp add: tokenize_def tokenize_from.simps codes_def lex_eval outline_def)
  ultimately show ?thesis by simp
qed

section \<open>Example 4: a number, an identifier, a compound operator, a number\<close>

definition example_4 :: "int list" where
  "example_4 = codes ''12.5 foo <= 3''"

lemma example_4_codes:
  "example_4 = [49, 50, 46, 53, 32, 102, 111, 111, 32, 60, 61, 32, 51]"
  by (simp add: example_4_def codes_def)

text \<open>
  Claim C7. For the input \<^verbatim>\<open>12.5 foo <= 3\<close> tokenization yields exactly the number
  \<^verbatim>\<open>12.5\<close>, the identifier \<^verbatim>\<open>foo\<close>, the operator \<^verbatim>\<open><=\<close> as one token of
  two characters, the number \<^verbatim>\<open>3\<close> and then the end of the input, without an error.
\<close>

theorem tokenize_example_4:
  "tokenize example_4 =
     Some ([\<lparr>tok_kind = sym_number, tok_start = 0, tok_end = 4, tok_text = codes ''12.5''\<rparr>,
            \<lparr>tok_kind = sym_identifier, tok_start = 5, tok_end = 8, tok_text = codes ''foo''\<rparr>,
            \<lparr>tok_kind = sym_operator, tok_start = 9, tok_end = 11, tok_text = codes ''<=''\<rparr>,
            \<lparr>tok_kind = sym_number, tok_start = 12, tok_end = 13, tok_text = codes ''3''\<rparr>,
            \<lparr>tok_kind = ts_builtin_sym_end, tok_start = 13, tok_end = 13, tok_text = []\<rparr>],
           None)"
  unfolding example_4_codes
  by (simp add: tokenize_def tokenize_from.simps lex_eval codes_def)

theorem tokenize_example_4_kinds:
  "map tok_kind (fst (the (tokenize example_4))) =
     [sym_number, sym_identifier, sym_operator, sym_number, ts_builtin_sym_end]"
  by (simp add: tokenize_example_4)

end
